(* ===== verification/FG_Prelude.thy ===== *)
theory FG_Prelude
  imports Complex_Main "HOL-Library.Word" "HOL-Library.Multiset"
begin

text \<open>
  Shared vocabulary of the development: machine integers, the C++ exceptions of the
  program as values, a small exception monad, and the generic facts on words, lists and
  sums that the component theories use.

  A C++ function that may throw is modelled by a value of type \<open>'a res\<close>: \<open>Inl e\<close> when the
  exception \<open>e\<close> escapes, \<open>Inr x\<close> when the function returns \<open>x\<close>.
\<close>

section \<open>Machine integers and exceptions\<close>

type_synonym u8 = "8 word"
type_synonym u32 = "32 word"
type_synonym u64 = "64 word"

datatype exn = ValueError string

type_synonym 'a res = "exn + 'a"

definition throw :: "string \<Rightarrow> 'a res" where
  "throw m = Inl (ValueError m)"

definition chain :: "'a res \<Rightarrow> ('a \<Rightarrow> 'b res) \<Rightarrow> 'b res" where
  "chain m f = (case m of Inl e \<Rightarrow> Inl e | Inr x \<Rightarrow> f x)"

fun fold_res :: "('a \<Rightarrow> 's \<Rightarrow> 's res) \<Rightarrow> 'a list \<Rightarrow> 's \<Rightarrow> 's res" where
  "fold_res f [] s = Inr s"
| "fold_res f (x # xs) s = chain (f x s) (fold_res f xs)"

fun map_res :: "('a \<Rightarrow> 'b res) \<Rightarrow> 'a list \<Rightarrow> 'b list res" where
  "map_res f [] = Inr []"
| "map_res f (x # xs) = chain (f x) (\<lambda>y. chain (map_res f xs) (\<lambda>ys. Inr (y # ys)))"

text \<open>
  Rule collections: \<open>checked_simps\<close> moves checked machine arithmetic to the natural numbers,
  \<open>layout_simps\<close> unfolds the layout queries, \<open>wire_simps\<close> holds the laws of the byte codecs.
\<close>

named_theorems checked_simps
named_theorems layout_simps
named_theorems wire_simps

section \<open>The exception monad\<close>

lemma chain_simps [simp]:
  "chain (Inl e) f = Inl e"
  "chain (Inr x) f = f x"
  by (simp_all add: chain_def)

lemma chain_Inr_iff: "chain m f = Inr y \<longleftrightarrow> (\<exists>x. m = Inr x \<and> f x = Inr y)"
  by (cases m) auto

lemma chain_Inl_iff: "chain m f = Inl e \<longleftrightarrow> m = Inl e \<or> (\<exists>x. m = Inr x \<and> f x = Inl e)"
  by (cases m) auto

lemma chain_Inr_right: "chain m Inr = m"
  by (cases m) simp_all

lemma chain_InrE:
  assumes "chain m f = Inr y"
  obtains x where "m = Inr x" and "f x = Inr y"
  using assms by (auto simp: chain_Inr_iff)

lemma throw_neq [simp]: "throw m \<noteq> Inr x" "Inr x \<noteq> throw m"
  by (simp_all add: throw_def)

lemma fold_res_append: "fold_res f (xs @ ys) s = chain (fold_res f xs s) (fold_res f ys)"
  by (induction xs arbitrary: s) (auto simp: chain_def split: sum.splits)

lemma map_res_total: "\<forall>x \<in> set xs. \<exists>y. f x = Inr y \<Longrightarrow> \<exists>ys. map_res f xs = Inr ys"
  by (induction xs) auto

text \<open>An invariant kept by every step of a fold that never throws is kept by the fold.\<close>

lemma fold_res_invariant:
  assumes "P s"
    and "\<And>x s. x \<in> set xs \<Longrightarrow> P s \<Longrightarrow> \<exists>s'. f x s = Inr s' \<and> P s'"
  shows "\<exists>s'. fold_res f xs s = Inr s' \<and> P s'"
  using assms
proof (induction xs arbitrary: s)
  case Nil
  then show ?case by simp
next
  case (Cons x xs)
  from Cons.prems obtain s1 where s1: "f x s = Inr s1" "P s1" by force
  with Cons.prems have "\<exists>s'. fold_res f xs s1 = Inr s' \<and> P s'"
    by (intro Cons.IH) auto
  with s1 show ?case by auto
qed

section \<open>Words as natural numbers\<close>

lemma unat_of_nat_small: "n < 2 ^ 64 \<Longrightarrow> unat (of_nat n :: u64) = n"
  by (simp add: unsigned_of_nat take_bit_nat_eq_self)

lemma unat_u64_less: "unat (w :: u64) < 2 ^ 64"
  using unsigned_less [of w] by simp

lemma unat_u64_le: "unat (w :: u64) \<le> 18446744073709551615"
  using unat_u64_less [of w] by simp

lemma unat_max_u64 [simp]: "unat (- 1 :: u64) = 18446744073709551615"
  by (simp add: unsigned_minus_1_eq_mask mask_eq_exp_minus_1)

lemma unat_add_no_overflow:
  assumes "unat (a :: u64) + unat b < 2 ^ 64"
  shows "unat (a + b) = unat a + unat b"
  using assms by (simp add: unat_word_ariths)

lemma unat_sub_no_underflow:
  assumes "b \<le> (a :: u64)"
  shows "unat (a - b) = unat a - unat b"
  using assms by (rule unat_sub)

section \<open>Lists\<close>

lemma sum_list_mono_prefix: "sum_list (take n xs) \<le> sum_list (xs :: nat list)"
  by (metis append_take_drop_id le_add1 sum_list_append)

lemma member_le_sum_list_nat: "x \<in> set xs \<Longrightarrow> x \<le> sum_list (xs :: nat list)"
  by (rule member_le_sum_list) auto

lemma sum_list_map_mset_cong:
  "mset xs = mset ys \<Longrightarrow> sum_list (map f xs) = (sum_list (map f ys) :: 'b :: comm_monoid_add)"
  by (metis mset_map sum_mset_sum_list)

lemma sorted_last_Max:
  assumes "sorted xs" and "xs \<noteq> []"
  shows "last xs = Max (set xs)"
proof -
  obtain ys y where xs: "xs = ys @ [y]" using assms(2) by (metis append_butlast_last_id)
  with assms(1) have "\<forall>x \<in> set xs. x \<le> y" by (auto simp: sorted_append)
  with xs show ?thesis by (auto intro!: Max_eqI [symmetric])
qed

lemma takeWhile_dropWhile_split:
  assumes "\<And>x. x \<in> set xs \<Longrightarrow> P x" and "\<not> P y"
  shows "takeWhile P (xs @ y # ys) = xs" and "dropWhile P (xs @ y # ys) = y # ys"
  using assms by (induction xs) auto

end
