(* ===== verification/Core_Types.thy ===== *)
theory Core_Types
  imports FG_Prelude
begin

text \<open>
  \<open>core/types.hpp\<close>, \<open>core/enums.hpp\<close> and the enumerations of the other headers.

  The templates \<open>TypedId<Tag>\<close> and \<open>Generation<Tag>\<close> are datatypes with a phantom parameter,
  so that, as in the source, an \<open>AllocationId\<close> cannot be compared with a \<open>ResourceId\<close>: the
  type checker refuses it.  Every enumeration comes with its numeric code (the value of the
  C++ enumerator, used on the wire) and its \<open>to_string\<close>.
\<close>

section \<open>Typed identities and generations\<close>

datatype 'tag TypedId = TypedId (id_value: u64)

definition id_is_null :: "'tag TypedId \<Rightarrow> bool" where
  "id_is_null i = (id_value i = 0)"

datatype 'tag Generation = Generation (gen_value: u64)

definition gen_is_null :: "'tag Generation \<Rightarrow> bool" where
  "gen_is_null g = (gen_value g = 0)"

definition gen_is_valid :: "'tag Generation \<Rightarrow> bool" where
  "gen_is_valid g = (gen_value g \<noteq> 0)"

definition gen_next :: "'tag Generation \<Rightarrow> 'tag Generation" where
  "gen_next g = (if gen_value g = 0xFFFFFFFFFFFFFFFF then g else Generation (gen_value g + 1))"

text \<open>The defaulted \<open>operator<=>\<close> orders identities and generations by their value.\<close>

instantiation TypedId :: (type) linorder
begin
definition less_eq_TypedId :: "'a TypedId \<Rightarrow> 'a TypedId \<Rightarrow> bool" where
  "less_eq_TypedId a b = (id_value a \<le> id_value b)"
definition less_TypedId :: "'a TypedId \<Rightarrow> 'a TypedId \<Rightarrow> bool" where
  "less_TypedId a b = (id_value a < id_value b)"
instance
  by standard (auto simp: less_eq_TypedId_def less_TypedId_def TypedId.expand)
end

instantiation Generation :: (type) linorder
begin
definition less_eq_Generation :: "'a Generation \<Rightarrow> 'a Generation \<Rightarrow> bool" where
  "less_eq_Generation a b = (gen_value a \<le> gen_value b)"
definition less_Generation :: "'a Generation \<Rightarrow> 'a Generation \<Rightarrow> bool" where
  "less_Generation a b = (gen_value a < gen_value b)"
instance
  by standard (auto simp: less_eq_Generation_def less_Generation_def Generation.expand)
end

subsection \<open>The tags and the types they make\<close>

datatype FragmentationDomainIdTag = FragmentationDomainIdTag
datatype FragmentationDomainGenerationTag = FragmentationDomainGenerationTag
datatype FragmentationSnapshotIdTag = FragmentationSnapshotIdTag
datatype FragmentationSnapshotGenerationTag = FragmentationSnapshotGenerationTag
datatype FragmentationAssessmentIdTag = FragmentationAssessmentIdTag
datatype FragmentationAssessmentGenerationTag = FragmentationAssessmentGenerationTag
datatype FragmentationPlanIdTag = FragmentationPlanIdTag
datatype FragmentationPlanGenerationTag = FragmentationPlanGenerationTag
datatype RemediationIdTag = RemediationIdTag
datatype RemediationGenerationTag = RemediationGenerationTag
datatype ResourceIdTag = ResourceIdTag
datatype ResourceGenerationTag = ResourceGenerationTag
datatype ResourcePoolIdTag = ResourcePoolIdTag
datatype ResourcePoolGenerationTag = ResourcePoolGenerationTag
datatype AllocationIdTag = AllocationIdTag
datatype AllocationGenerationTag = AllocationGenerationTag
datatype AllocationOwnerIdTag = AllocationOwnerIdTag
datatype ReservationIdTag = ReservationIdTag
datatype ReservationGenerationTag = ReservationGenerationTag
datatype CapacityModelGenerationTag = CapacityModelGenerationTag
datatype WorkloadDemandIdTag = WorkloadDemandIdTag
datatype WorkloadDemandGenerationTag = WorkloadDemandGenerationTag
datatype WorkloadIdTag = WorkloadIdTag
datatype WorkloadGenerationTag = WorkloadGenerationTag
datatype ExecutionIdTag = ExecutionIdTag
datatype ExecutionGenerationTag = ExecutionGenerationTag
datatype DeviceIdTag = DeviceIdTag
datatype DeviceGenerationTag = DeviceGenerationTag
datatype NodeIdTag = NodeIdTag
datatype NodeGenerationTag = NodeGenerationTag
datatype MemoryDomainIdTag = MemoryDomainIdTag
datatype MemoryDomainGenerationTag = MemoryDomainGenerationTag
datatype TopologyGenerationTag = TopologyGenerationTag
datatype CapabilityGenerationTag = CapabilityGenerationTag
datatype PlacementGenerationTag = PlacementGenerationTag
datatype PolicyGenerationTag = PolicyGenerationTag
datatype PriorityGenerationTag = PriorityGenerationTag
datatype HealthGenerationTag = HealthGenerationTag
datatype CoordinatorEpochTag = CoordinatorEpochTag
datatype WorkerIdTag = WorkerIdTag
datatype WorkerBootIdTag = WorkerBootIdTag
datatype AuthorityGenerationTag = AuthorityGenerationTag
datatype ActionGenerationTag = ActionGenerationTag
datatype VerificationGenerationTag = VerificationGenerationTag

type_synonym FragmentationDomainId = "FragmentationDomainIdTag TypedId"
type_synonym FragmentationDomainGeneration = "FragmentationDomainGenerationTag Generation"
type_synonym FragmentationSnapshotId = "FragmentationSnapshotIdTag TypedId"
type_synonym FragmentationSnapshotGeneration = "FragmentationSnapshotGenerationTag Generation"
type_synonym FragmentationAssessmentId = "FragmentationAssessmentIdTag TypedId"
type_synonym FragmentationAssessmentGeneration = "FragmentationAssessmentGenerationTag Generation"
type_synonym FragmentationPlanId = "FragmentationPlanIdTag TypedId"
type_synonym FragmentationPlanGeneration = "FragmentationPlanGenerationTag Generation"
type_synonym RemediationId = "RemediationIdTag TypedId"
type_synonym RemediationGeneration = "RemediationGenerationTag Generation"
type_synonym ResourceId = "ResourceIdTag TypedId"
type_synonym ResourceGeneration = "ResourceGenerationTag Generation"
type_synonym ResourcePoolId = "ResourcePoolIdTag TypedId"
type_synonym ResourcePoolGeneration = "ResourcePoolGenerationTag Generation"
type_synonym AllocationId = "AllocationIdTag TypedId"
type_synonym AllocationGeneration = "AllocationGenerationTag Generation"
type_synonym AllocationOwnerId = "AllocationOwnerIdTag TypedId"
type_synonym ReservationId = "ReservationIdTag TypedId"
type_synonym ReservationGeneration = "ReservationGenerationTag Generation"
type_synonym CapacityModelGeneration = "CapacityModelGenerationTag Generation"
type_synonym WorkloadDemandId = "WorkloadDemandIdTag TypedId"
type_synonym WorkloadDemandGeneration = "WorkloadDemandGenerationTag Generation"
type_synonym WorkloadId = "WorkloadIdTag TypedId"
type_synonym WorkloadGeneration = "WorkloadGenerationTag Generation"
type_synonym ExecutionId = "ExecutionIdTag TypedId"
type_synonym ExecutionGeneration = "ExecutionGenerationTag Generation"
type_synonym DeviceId = "DeviceIdTag TypedId"
type_synonym DeviceGeneration = "DeviceGenerationTag Generation"
type_synonym NodeId = "NodeIdTag TypedId"
type_synonym NodeGeneration = "NodeGenerationTag Generation"
type_synonym MemoryDomainId = "MemoryDomainIdTag TypedId"
type_synonym MemoryDomainGeneration = "MemoryDomainGenerationTag Generation"
type_synonym TopologyGeneration = "TopologyGenerationTag Generation"
type_synonym CapabilityGeneration = "CapabilityGenerationTag Generation"
type_synonym PlacementGeneration = "PlacementGenerationTag Generation"
type_synonym PolicyGeneration = "PolicyGenerationTag Generation"
type_synonym PriorityGeneration = "PriorityGenerationTag Generation"
type_synonym HealthGeneration = "HealthGenerationTag Generation"
type_synonym CoordinatorEpoch = "CoordinatorEpochTag Generation"
type_synonym WorkerId = "WorkerIdTag TypedId"
type_synonym WorkerBootId = "WorkerBootIdTag Generation"
type_synonym AuthorityGeneration = "AuthorityGenerationTag Generation"
type_synonym ActionGeneration = "ActionGenerationTag Generation"
type_synonym VerificationGeneration = "VerificationGenerationTag Generation"

section \<open>Enumerations\<close>

text \<open>
  Enumerators keep the names of the source.  Isabelle constructors share one name space, so
  each carries the initials of its enumeration (\<open>MV_UNKNOWN\<close> is \<open>Movability::UNKNOWN\<close>).
\<close>

datatype Domain =
  D_CUDA_DEVICE_MEMORY | D_ACCELERATOR_MEMORY_POOL | D_PINNED_HOST_MEMORY | D_HOST_MEMORY
  | D_NUMA_NODE_MEMORY | D_SHARED_MEMORY_POOL | D_STORAGE_CAPACITY | D_STORAGE_BANDWIDTH
  | D_PCIe_BANDWIDTH | D_NETWORK_BANDWIDTH | D_ACCELERATOR_SLOT | D_MODEL_RESIDENCY
  | D_ADAPTER_RESIDENCY | D_KV_OR_TENSOR_RESIDENCY | D_RESERVATION_TIMELINE
  | D_PLACEMENT_TOPOLOGY | D_COMPOSITE_RESOURCE | D_UNKNOWN

datatype FragmentationCategory =
  FC_SPATIAL | FC_CONTIGUITY | FC_SIZE_CLASS | FC_ALLOCATOR | FC_INTERNAL | FC_EXTERNAL
  | FC_TOPOLOGY | FC_LOCALITY | FC_RESERVATION | FC_TEMPORAL | FC_PLACEMENT
  | FC_CAPABILITY | FC_OWNERSHIP | FC_PINNING | FC_IMMOBILITY | FC_RESIDENCY
  | FC_BANDWIDTH | FC_COMPOSITE | FC_POLICY | FC_UNKNOWN

datatype Provenance =
  PV_MEASURED | PV_REPORTED | PV_DERIVED | PV_ESTIMATED | PV_RECONSTRUCTED | PV_SYNTHETIC
  | PV_UNKNOWN

datatype EvidenceKind =
  EK_REAL | EK_DERIVED | EK_ESTIMATED | EK_SYNTHETIC | EK_UNKNOWN | EK_UNSUPPORTED

datatype Movability =
  MV_IMMOVABLE | MV_MOVABLE_LIVE | MV_MOVABLE_AFTER_QUIESCE | MV_MOVABLE_AFTER_CHECKPOINT
  | MV_RECOMPUTABLE | MV_EVICTABLE | MV_RELEASEABLE | MV_RESERVATION_PROTECTED
  | MV_POLICY_PROTECTED | MV_UNKNOWN

datatype RegionKind =
  RK_FREE | RK_ALLOCATED

datatype FitOutcome =
  FO_FIT_NOW | FO_NO_FIT_RAW_CAPACITY | FO_NO_FIT_FRAGMENTATION | FO_NO_FIT_CONTIGUITY
  | FO_NO_FIT_TOPOLOGY | FO_NO_FIT_LOCALITY | FO_NO_FIT_RESERVATION | FO_NO_FIT_TEMPORAL
  | FO_NO_FIT_PROTECTED_STATE | FO_FIT_AFTER_RECLAIM | FO_FIT_AFTER_RELOCATION
  | FO_FIT_AFTER_RESERVATION_CHANGE | FO_FIT_AFTER_PREEMPTION
  | FO_FIT_AFTER_REVALIDATION | FO_REVALIDATION_REQUIRED | FO_INSUFFICIENT_EVIDENCE
  | FO_UNKNOWN

datatype ActionKind =
  AK_MOVE_ALLOCATION | AK_COMPACT_POOL | AK_RELEASE_UNUSED | AK_EVICT_RECOMPUTABLE
  | AK_MIGRATE_STATE | AK_REBIND_RESERVATION | AK_SHIFT_RESERVATION_WINDOW
  | AK_REPLACE_PLACEMENT | AK_PREEMPT_FOR_RECLAIM | AK_RELOAD_MODEL_ELSEWHERE
  | AK_MOVE_ADAPTER | AK_REBALANCE_RESIDENCY | AK_REPACK_SIZE_CLASSES
  | AK_SPLIT_WORKLOAD | AK_SHRINK_ELASTIC_WORKLOAD | AK_WAIT_FOR_RELEASE | AK_REVALIDATE
  | AK_MANUAL_INTERVENTION | AK_NO_BENEFICIAL_ACTION

datatype PlanState =
  PS_DETECTED | PS_ASSESSING | PS_PLAN_READY | PS_BLOCKED | PS_APPROVED | PS_EXECUTING
  | PS_QUIESCING | PS_PRESERVING_STATE | PS_MOVING | PS_REBINDING | PS_VERIFYING
  | PS_COMPLETED | PS_PARTIALLY_COMPLETED | PS_FAILED | PS_ABORTED | PS_CANCELLED
  | PS_SUPERSEDED | PS_REVALIDATION_REQUIRED | PS_RETIRED

datatype ReservationImpact =
  RI_NONE | RI_SHIFT_ELIGIBLE | RI_WOULD_VIOLATE | RI_UNKNOWN

datatype VerificationOutcome =
  VO_IMPROVED | VO_TARGET_FIT_ACHIEVED | VO_PARTIAL_IMPROVEMENT | VO_NO_CHANGE
  | VO_REGRESSION | VO_VERIFICATION_FAILED | VO_REVALIDATION_REQUIRED

datatype MsgType =
  MT_HELLO | MT_REGISTER | MT_PUBLISH_RESOURCE | MT_PUBLISH_LAYOUT | MT_PUBLISH_ALLOCATION
  | MT_INVALIDATE_ALLOCATION | MT_QUERY_FRAGMENTATION | MT_QUERY_FIT | MT_CREATE_PLAN
  | MT_PLAN_RESULT | MT_APPROVE_PLAN | MT_BEGIN_ACTION | MT_ACTION_COMPLETE | MT_VERIFY
  | MT_CANCEL_PLAN | MT_ADVANCE_GENERATION | MT_REVALIDATE | MT_SAVE | MT_SHUTDOWN
  | MT_ERROR

fun domain_to_string :: "Domain \<Rightarrow> string" where
  "domain_to_string D_CUDA_DEVICE_MEMORY = ''CUDA_DEVICE_MEMORY''"
| "domain_to_string D_ACCELERATOR_MEMORY_POOL = ''ACCELERATOR_MEMORY_POOL''"
| "domain_to_string D_PINNED_HOST_MEMORY = ''PINNED_HOST_MEMORY''"
| "domain_to_string D_HOST_MEMORY = ''HOST_MEMORY''"
| "domain_to_string D_NUMA_NODE_MEMORY = ''NUMA_NODE_MEMORY''"
| "domain_to_string D_SHARED_MEMORY_POOL = ''SHARED_MEMORY_POOL''"
| "domain_to_string D_STORAGE_CAPACITY = ''STORAGE_CAPACITY''"
| "domain_to_string D_STORAGE_BANDWIDTH = ''STORAGE_BANDWIDTH''"
| "domain_to_string D_PCIe_BANDWIDTH = ''PCIe_BANDWIDTH''"
| "domain_to_string D_NETWORK_BANDWIDTH = ''NETWORK_BANDWIDTH''"
| "domain_to_string D_ACCELERATOR_SLOT = ''ACCELERATOR_SLOT''"
| "domain_to_string D_MODEL_RESIDENCY = ''MODEL_RESIDENCY''"
| "domain_to_string D_ADAPTER_RESIDENCY = ''ADAPTER_RESIDENCY''"
| "domain_to_string D_KV_OR_TENSOR_RESIDENCY = ''KV_OR_TENSOR_RESIDENCY''"
| "domain_to_string D_RESERVATION_TIMELINE = ''RESERVATION_TIMELINE''"
| "domain_to_string D_PLACEMENT_TOPOLOGY = ''PLACEMENT_TOPOLOGY''"
| "domain_to_string D_COMPOSITE_RESOURCE = ''COMPOSITE_RESOURCE''"
| "domain_to_string D_UNKNOWN = ''UNKNOWN''"

fun category_to_string :: "FragmentationCategory \<Rightarrow> string" where
  "category_to_string FC_SPATIAL = ''SPATIAL''"
| "category_to_string FC_CONTIGUITY = ''CONTIGUITY''"
| "category_to_string FC_SIZE_CLASS = ''SIZE_CLASS''"
| "category_to_string FC_ALLOCATOR = ''ALLOCATOR''"
| "category_to_string FC_INTERNAL = ''INTERNAL''"
| "category_to_string FC_EXTERNAL = ''EXTERNAL''"
| "category_to_string FC_TOPOLOGY = ''TOPOLOGY''"
| "category_to_string FC_LOCALITY = ''LOCALITY''"
| "category_to_string FC_RESERVATION = ''RESERVATION''"
| "category_to_string FC_TEMPORAL = ''TEMPORAL''"
| "category_to_string FC_PLACEMENT = ''PLACEMENT''"
| "category_to_string FC_CAPABILITY = ''CAPABILITY''"
| "category_to_string FC_OWNERSHIP = ''OWNERSHIP''"
| "category_to_string FC_PINNING = ''PINNING''"
| "category_to_string FC_IMMOBILITY = ''IMMOBILITY''"
| "category_to_string FC_RESIDENCY = ''RESIDENCY''"
| "category_to_string FC_BANDWIDTH = ''BANDWIDTH''"
| "category_to_string FC_COMPOSITE = ''COMPOSITE''"
| "category_to_string FC_POLICY = ''POLICY''"
| "category_to_string FC_UNKNOWN = ''UNKNOWN''"

fun provenance_to_string :: "Provenance \<Rightarrow> string" where
  "provenance_to_string PV_MEASURED = ''MEASURED''"
| "provenance_to_string PV_REPORTED = ''REPORTED''"
| "provenance_to_string PV_DERIVED = ''DERIVED''"
| "provenance_to_string PV_ESTIMATED = ''ESTIMATED''"
| "provenance_to_string PV_RECONSTRUCTED = ''RECONSTRUCTED''"
| "provenance_to_string PV_SYNTHETIC = ''SYNTHETIC''"
| "provenance_to_string PV_UNKNOWN = ''UNKNOWN''"

fun evidence_kind_to_string :: "EvidenceKind \<Rightarrow> string" where
  "evidence_kind_to_string EK_REAL = ''REAL''"
| "evidence_kind_to_string EK_DERIVED = ''DERIVED''"
| "evidence_kind_to_string EK_ESTIMATED = ''ESTIMATED''"
| "evidence_kind_to_string EK_SYNTHETIC = ''SYNTHETIC''"
| "evidence_kind_to_string EK_UNKNOWN = ''UNKNOWN''"
| "evidence_kind_to_string EK_UNSUPPORTED = ''UNSUPPORTED''"

fun movability_to_string :: "Movability \<Rightarrow> string" where
  "movability_to_string MV_IMMOVABLE = ''IMMOVABLE''"
| "movability_to_string MV_MOVABLE_LIVE = ''MOVABLE_LIVE''"
| "movability_to_string MV_MOVABLE_AFTER_QUIESCE = ''MOVABLE_AFTER_QUIESCE''"
| "movability_to_string MV_MOVABLE_AFTER_CHECKPOINT = ''MOVABLE_AFTER_CHECKPOINT''"
| "movability_to_string MV_RECOMPUTABLE = ''RECOMPUTABLE''"
| "movability_to_string MV_EVICTABLE = ''EVICTABLE''"
| "movability_to_string MV_RELEASEABLE = ''RELEASEABLE''"
| "movability_to_string MV_RESERVATION_PROTECTED = ''RESERVATION_PROTECTED''"
| "movability_to_string MV_POLICY_PROTECTED = ''POLICY_PROTECTED''"
| "movability_to_string MV_UNKNOWN = ''UNKNOWN''"

fun fit_outcome_to_string :: "FitOutcome \<Rightarrow> string" where
  "fit_outcome_to_string FO_FIT_NOW = ''FIT_NOW''"
| "fit_outcome_to_string FO_NO_FIT_RAW_CAPACITY = ''NO_FIT_RAW_CAPACITY''"
| "fit_outcome_to_string FO_NO_FIT_FRAGMENTATION = ''NO_FIT_FRAGMENTATION''"
| "fit_outcome_to_string FO_NO_FIT_CONTIGUITY = ''NO_FIT_CONTIGUITY''"
| "fit_outcome_to_string FO_NO_FIT_TOPOLOGY = ''NO_FIT_TOPOLOGY''"
| "fit_outcome_to_string FO_NO_FIT_LOCALITY = ''NO_FIT_LOCALITY''"
| "fit_outcome_to_string FO_NO_FIT_RESERVATION = ''NO_FIT_RESERVATION''"
| "fit_outcome_to_string FO_NO_FIT_TEMPORAL = ''NO_FIT_TEMPORAL''"
| "fit_outcome_to_string FO_NO_FIT_PROTECTED_STATE = ''NO_FIT_PROTECTED_STATE''"
| "fit_outcome_to_string FO_FIT_AFTER_RECLAIM = ''FIT_AFTER_RECLAIM''"
| "fit_outcome_to_string FO_FIT_AFTER_RELOCATION = ''FIT_AFTER_RELOCATION''"
| "fit_outcome_to_string FO_FIT_AFTER_RESERVATION_CHANGE = ''FIT_AFTER_RESERVATION_CHANGE''"
| "fit_outcome_to_string FO_FIT_AFTER_PREEMPTION = ''FIT_AFTER_PREEMPTION''"
| "fit_outcome_to_string FO_FIT_AFTER_REVALIDATION = ''FIT_AFTER_REVALIDATION''"
| "fit_outcome_to_string FO_REVALIDATION_REQUIRED = ''REVALIDATION_REQUIRED''"
| "fit_outcome_to_string FO_INSUFFICIENT_EVIDENCE = ''INSUFFICIENT_EVIDENCE''"
| "fit_outcome_to_string FO_UNKNOWN = ''UNKNOWN''"

fun action_kind_to_string :: "ActionKind \<Rightarrow> string" where
  "action_kind_to_string AK_MOVE_ALLOCATION = ''MOVE_ALLOCATION''"
| "action_kind_to_string AK_COMPACT_POOL = ''COMPACT_POOL''"
| "action_kind_to_string AK_RELEASE_UNUSED = ''RELEASE_UNUSED''"
| "action_kind_to_string AK_EVICT_RECOMPUTABLE = ''EVICT_RECOMPUTABLE''"
| "action_kind_to_string AK_MIGRATE_STATE = ''MIGRATE_STATE''"
| "action_kind_to_string AK_REBIND_RESERVATION = ''REBIND_RESERVATION''"
| "action_kind_to_string AK_SHIFT_RESERVATION_WINDOW = ''SHIFT_RESERVATION_WINDOW''"
| "action_kind_to_string AK_REPLACE_PLACEMENT = ''REPLACE_PLACEMENT''"
| "action_kind_to_string AK_PREEMPT_FOR_RECLAIM = ''PREEMPT_FOR_RECLAIM''"
| "action_kind_to_string AK_RELOAD_MODEL_ELSEWHERE = ''RELOAD_MODEL_ELSEWHERE''"
| "action_kind_to_string AK_MOVE_ADAPTER = ''MOVE_ADAPTER''"
| "action_kind_to_string AK_REBALANCE_RESIDENCY = ''REBALANCE_RESIDENCY''"
| "action_kind_to_string AK_REPACK_SIZE_CLASSES = ''REPACK_SIZE_CLASSES''"
| "action_kind_to_string AK_SPLIT_WORKLOAD = ''SPLIT_WORKLOAD''"
| "action_kind_to_string AK_SHRINK_ELASTIC_WORKLOAD = ''SHRINK_ELASTIC_WORKLOAD''"
| "action_kind_to_string AK_WAIT_FOR_RELEASE = ''WAIT_FOR_RELEASE''"
| "action_kind_to_string AK_REVALIDATE = ''REVALIDATE''"
| "action_kind_to_string AK_MANUAL_INTERVENTION = ''MANUAL_INTERVENTION''"
| "action_kind_to_string AK_NO_BENEFICIAL_ACTION = ''NO_BENEFICIAL_ACTION''"

fun plan_state_to_string :: "PlanState \<Rightarrow> string" where
  "plan_state_to_string PS_DETECTED = ''DETECTED''"
| "plan_state_to_string PS_ASSESSING = ''ASSESSING''"
| "plan_state_to_string PS_PLAN_READY = ''PLAN_READY''"
| "plan_state_to_string PS_BLOCKED = ''BLOCKED''"
| "plan_state_to_string PS_APPROVED = ''APPROVED''"
| "plan_state_to_string PS_EXECUTING = ''EXECUTING''"
| "plan_state_to_string PS_QUIESCING = ''QUIESCING''"
| "plan_state_to_string PS_PRESERVING_STATE = ''PRESERVING_STATE''"
| "plan_state_to_string PS_MOVING = ''MOVING''"
| "plan_state_to_string PS_REBINDING = ''REBINDING''"
| "plan_state_to_string PS_VERIFYING = ''VERIFYING''"
| "plan_state_to_string PS_COMPLETED = ''COMPLETED''"
| "plan_state_to_string PS_PARTIALLY_COMPLETED = ''PARTIALLY_COMPLETED''"
| "plan_state_to_string PS_FAILED = ''FAILED''"
| "plan_state_to_string PS_ABORTED = ''ABORTED''"
| "plan_state_to_string PS_CANCELLED = ''CANCELLED''"
| "plan_state_to_string PS_SUPERSEDED = ''SUPERSEDED''"
| "plan_state_to_string PS_REVALIDATION_REQUIRED = ''REVALIDATION_REQUIRED''"
| "plan_state_to_string PS_RETIRED = ''RETIRED''"

fun reservation_impact_to_string :: "ReservationImpact \<Rightarrow> string" where
  "reservation_impact_to_string RI_NONE = ''NONE''"
| "reservation_impact_to_string RI_SHIFT_ELIGIBLE = ''SHIFT_ELIGIBLE''"
| "reservation_impact_to_string RI_WOULD_VIOLATE = ''WOULD_VIOLATE''"
| "reservation_impact_to_string RI_UNKNOWN = ''UNKNOWN''"

fun verification_outcome_to_string :: "VerificationOutcome \<Rightarrow> string" where
  "verification_outcome_to_string VO_IMPROVED = ''IMPROVED''"
| "verification_outcome_to_string VO_TARGET_FIT_ACHIEVED = ''TARGET_FIT_ACHIEVED''"
| "verification_outcome_to_string VO_PARTIAL_IMPROVEMENT = ''PARTIAL_IMPROVEMENT''"
| "verification_outcome_to_string VO_NO_CHANGE = ''NO_CHANGE''"
| "verification_outcome_to_string VO_REGRESSION = ''REGRESSION''"
| "verification_outcome_to_string VO_VERIFICATION_FAILED = ''VERIFICATION_FAILED''"
| "verification_outcome_to_string VO_REVALIDATION_REQUIRED = ''REVALIDATION_REQUIRED''"

fun msg_type_to_string :: "MsgType \<Rightarrow> string" where
  "msg_type_to_string MT_HELLO = ''HELLO''"
| "msg_type_to_string MT_REGISTER = ''REGISTER''"
| "msg_type_to_string MT_PUBLISH_RESOURCE = ''PUBLISH_RESOURCE''"
| "msg_type_to_string MT_PUBLISH_LAYOUT = ''PUBLISH_LAYOUT''"
| "msg_type_to_string MT_PUBLISH_ALLOCATION = ''PUBLISH_ALLOCATION''"
| "msg_type_to_string MT_INVALIDATE_ALLOCATION = ''INVALIDATE_ALLOCATION''"
| "msg_type_to_string MT_QUERY_FRAGMENTATION = ''QUERY_FRAGMENTATION''"
| "msg_type_to_string MT_QUERY_FIT = ''QUERY_FIT''"
| "msg_type_to_string MT_CREATE_PLAN = ''CREATE_PLAN''"
| "msg_type_to_string MT_PLAN_RESULT = ''PLAN_RESULT''"
| "msg_type_to_string MT_APPROVE_PLAN = ''APPROVE_PLAN''"
| "msg_type_to_string MT_BEGIN_ACTION = ''BEGIN_ACTION''"
| "msg_type_to_string MT_ACTION_COMPLETE = ''ACTION_COMPLETE''"
| "msg_type_to_string MT_VERIFY = ''VERIFY''"
| "msg_type_to_string MT_CANCEL_PLAN = ''CANCEL_PLAN''"
| "msg_type_to_string MT_ADVANCE_GENERATION = ''ADVANCE_GENERATION''"
| "msg_type_to_string MT_REVALIDATE = ''REVALIDATE''"
| "msg_type_to_string MT_SAVE = ''SAVE''"
| "msg_type_to_string MT_SHUTDOWN = ''SHUTDOWN''"
| "msg_type_to_string MT_ERROR = ''ERROR''"

subsection \<open>Enumerators as bytes\<close>

text \<open>
  \<open>static_cast<std::uint8_t>\<close> of an enumerator is its position; the inverse cast is only used
  by the source after a range check, so it is the lookup of a position here.
\<close>

definition all_domain :: "Domain list" where
  "all_domain =
   [D_CUDA_DEVICE_MEMORY, D_ACCELERATOR_MEMORY_POOL, D_PINNED_HOST_MEMORY, D_HOST_MEMORY,
    D_NUMA_NODE_MEMORY, D_SHARED_MEMORY_POOL, D_STORAGE_CAPACITY, D_STORAGE_BANDWIDTH,
    D_PCIe_BANDWIDTH, D_NETWORK_BANDWIDTH, D_ACCELERATOR_SLOT, D_MODEL_RESIDENCY,
    D_ADAPTER_RESIDENCY, D_KV_OR_TENSOR_RESIDENCY, D_RESERVATION_TIMELINE,
    D_PLACEMENT_TOPOLOGY, D_COMPOSITE_RESOURCE, D_UNKNOWN]"

definition all_provenance :: "Provenance list" where
  "all_provenance =
   [PV_MEASURED, PV_REPORTED, PV_DERIVED, PV_ESTIMATED, PV_RECONSTRUCTED, PV_SYNTHETIC,
    PV_UNKNOWN]"

definition all_movability :: "Movability list" where
  "all_movability =
   [MV_IMMOVABLE, MV_MOVABLE_LIVE, MV_MOVABLE_AFTER_QUIESCE, MV_MOVABLE_AFTER_CHECKPOINT,
    MV_RECOMPUTABLE, MV_EVICTABLE, MV_RELEASEABLE, MV_RESERVATION_PROTECTED,
    MV_POLICY_PROTECTED, MV_UNKNOWN]"

definition all_fit_outcome :: "FitOutcome list" where
  "all_fit_outcome =
   [FO_FIT_NOW, FO_NO_FIT_RAW_CAPACITY, FO_NO_FIT_FRAGMENTATION, FO_NO_FIT_CONTIGUITY,
    FO_NO_FIT_TOPOLOGY, FO_NO_FIT_LOCALITY, FO_NO_FIT_RESERVATION, FO_NO_FIT_TEMPORAL,
    FO_NO_FIT_PROTECTED_STATE, FO_FIT_AFTER_RECLAIM, FO_FIT_AFTER_RELOCATION,
    FO_FIT_AFTER_RESERVATION_CHANGE, FO_FIT_AFTER_PREEMPTION, FO_FIT_AFTER_REVALIDATION,
    FO_REVALIDATION_REQUIRED, FO_INSUFFICIENT_EVIDENCE, FO_UNKNOWN]"

definition all_action_kind :: "ActionKind list" where
  "all_action_kind =
   [AK_MOVE_ALLOCATION, AK_COMPACT_POOL, AK_RELEASE_UNUSED, AK_EVICT_RECOMPUTABLE,
    AK_MIGRATE_STATE, AK_REBIND_RESERVATION, AK_SHIFT_RESERVATION_WINDOW,
    AK_REPLACE_PLACEMENT, AK_PREEMPT_FOR_RECLAIM, AK_RELOAD_MODEL_ELSEWHERE, AK_MOVE_ADAPTER,
    AK_REBALANCE_RESIDENCY, AK_REPACK_SIZE_CLASSES, AK_SPLIT_WORKLOAD,
    AK_SHRINK_ELASTIC_WORKLOAD, AK_WAIT_FOR_RELEASE, AK_REVALIDATE, AK_MANUAL_INTERVENTION,
    AK_NO_BENEFICIAL_ACTION]"

definition all_plan_state :: "PlanState list" where
  "all_plan_state =
   [PS_DETECTED, PS_ASSESSING, PS_PLAN_READY, PS_BLOCKED, PS_APPROVED, PS_EXECUTING,
    PS_QUIESCING, PS_PRESERVING_STATE, PS_MOVING, PS_REBINDING, PS_VERIFYING, PS_COMPLETED,
    PS_PARTIALLY_COMPLETED, PS_FAILED, PS_ABORTED, PS_CANCELLED, PS_SUPERSEDED,
    PS_REVALIDATION_REQUIRED, PS_RETIRED]"

definition all_reservation_impact :: "ReservationImpact list" where
  "all_reservation_impact =
   [RI_NONE, RI_SHIFT_ELIGIBLE, RI_WOULD_VIOLATE, RI_UNKNOWN]"

definition all_verification_outcome :: "VerificationOutcome list" where
  "all_verification_outcome =
   [VO_IMPROVED, VO_TARGET_FIT_ACHIEVED, VO_PARTIAL_IMPROVEMENT, VO_NO_CHANGE, VO_REGRESSION,
    VO_VERIFICATION_FAILED, VO_REVALIDATION_REQUIRED]"

definition all_msg_type :: "MsgType list" where
  "all_msg_type =
   [MT_HELLO, MT_REGISTER, MT_PUBLISH_RESOURCE, MT_PUBLISH_LAYOUT, MT_PUBLISH_ALLOCATION,
    MT_INVALIDATE_ALLOCATION, MT_QUERY_FRAGMENTATION, MT_QUERY_FIT, MT_CREATE_PLAN,
    MT_PLAN_RESULT, MT_APPROVE_PLAN, MT_BEGIN_ACTION, MT_ACTION_COMPLETE, MT_VERIFY,
    MT_CANCEL_PLAN, MT_ADVANCE_GENERATION, MT_REVALIDATE, MT_SAVE, MT_SHUTDOWN, MT_ERROR]"

fun position_of :: "'a \<Rightarrow> 'a list \<Rightarrow> nat" where
  "position_of x [] = 0"
| "position_of x (y # ys) = (if x = y then 0 else Suc (position_of x ys))"

definition enum_byte :: "'a list \<Rightarrow> 'a \<Rightarrow> u8" where
  "enum_byte all x = of_nat (position_of x all)"

definition enum_of_byte :: "'a list \<Rightarrow> u8 \<Rightarrow> 'a option" where
  "enum_of_byte all b = (if unat b < length all then Some (all ! unat b) else None)"

section \<open>Facts\<close>

lemma TypedId_le_simps [simp]:
  "(TypedId x \<le> TypedId y) = (x \<le> y)" "(TypedId x < TypedId y) = (x < y)"
  by (simp_all add: less_eq_TypedId_def less_TypedId_def)

lemma Generation_le_simps [simp]:
  "(Generation x \<le> Generation y) = (x \<le> y)" "(Generation x < Generation y) = (x < y)"
  by (simp_all add: less_eq_Generation_def less_Generation_def)

text \<open>
  A generation only ever moves forward: \<open>next\<close> is the successor below the maximum and
  saturates there, so it never wraps back to the null generation.
\<close>

lemma gen_next_value:
  "unat (gen_value (gen_next g)) = min (unat (gen_value g) + 1) (2 ^ 64 - 1)"
proof (cases "gen_value g = 0xFFFFFFFFFFFFFFFF")
  case True
  then show ?thesis by (simp add: gen_next_def)
next
  case False
  then have "unat (gen_value g) \<noteq> unat (0xFFFFFFFFFFFFFFFF :: u64)"
    by (simp add: word_unat_eq_iff)
  with unat_u64_le [of "gen_value g"] have *: "unat (gen_value g) + 1 < 2 ^ 64" by simp
  with False show ?thesis
    using unat_add_no_overflow [of "gen_value g" 1] by (simp add: gen_next_def)
qed

lemma gen_next_mono: "g \<le> gen_next g"
  using unat_u64_less [of "gen_value g"]
  by (simp add: less_eq_Generation_def word_le_nat_alt gen_next_value)

lemma gen_next_valid [simp]: "gen_is_valid (gen_next g)"
proof -
  have "unat (gen_value (gen_next g)) \<noteq> 0" by (simp add: gen_next_value)
  then show ?thesis by (auto simp: gen_is_valid_def)
qed

lemma position_of_less: "x \<in> set xs \<Longrightarrow> position_of x xs < length xs"
  by (induction xs) auto

lemma nth_position_of: "x \<in> set xs \<Longrightarrow> xs ! position_of x xs = x"
  by (induction xs) auto

text \<open>The cast to a byte and the checked cast back are inverse on an enumeration of at most 256 values.\<close>

lemma enum_of_byte_enum_byte:
  assumes "x \<in> set all" and "length all \<le> 256"
  shows "enum_of_byte all (enum_byte all x) = Some x"
proof -
  from assms have "position_of x all < 256"
    using position_of_less [of x all] by simp
  then have "unat (of_nat (position_of x all) :: u8) = position_of x all"
    by (simp add: unsigned_of_nat take_bit_nat_eq_self)
  with assms(1) show ?thesis
    by (simp add: enum_of_byte_def enum_byte_def position_of_less nth_position_of)
qed

lemma all_domain_complete [simp]: "x \<in> set all_domain"
  by (cases x) (simp_all add: all_domain_def)

lemma all_provenance_complete [simp]: "x \<in> set all_provenance"
  by (cases x) (simp_all add: all_provenance_def)

lemma all_movability_complete [simp]: "x \<in> set all_movability"
  by (cases x) (simp_all add: all_movability_def)

lemma all_fit_outcome_complete [simp]: "x \<in> set all_fit_outcome"
  by (cases x) (simp_all add: all_fit_outcome_def)

lemma all_action_kind_complete [simp]: "x \<in> set all_action_kind"
  by (cases x) (simp_all add: all_action_kind_def)

lemma all_plan_state_complete [simp]: "x \<in> set all_plan_state"
  by (cases x) (simp_all add: all_plan_state_def)

lemma all_reservation_impact_complete [simp]: "x \<in> set all_reservation_impact"
  by (cases x) (simp_all add: all_reservation_impact_def)

lemma all_verification_outcome_complete [simp]: "x \<in> set all_verification_outcome"
  by (cases x) (simp_all add: all_verification_outcome_def)

lemma all_msg_type_complete [simp]: "x \<in> set all_msg_type"
  by (cases x) (simp_all add: all_msg_type_def)

end
