(* ===== verification/Wire.thy ===== *)
theory Wire
  imports Core_Types
begin

text \<open>
  The bounded byte writers and readers that \<open>persistence/codec.cpp\<close> (\<open>Writer\<close>, \<open>Reader\<close>) and
  \<open>protocol/protocol.cpp\<close> (\<open>PWriter\<close>, \<open>PReader\<close>) define in the same way.  A writer only appends, so a
  call is the bytes it appends.  A reader is a buffer with a position and an error flag: a read past
  the end clears the flag, returns zero and does not move, and the code goes on until it looks at
  the flag.  A function that reads and may return early is a function of the reader whose \<open>Inl\<close>
  is the early return.

  The locale \<open>wire_codec\<close> is the contract between a \<open>put_...\<close> and its \<open>get_...\<close>; every pair of the
  two files is an instance of it, and lists and optional fields inherit it.
\<close>

unbundle bit_operations_syntax

section \<open>Writers\<close>

definition le_bytes :: "nat \<Rightarrow> 'a :: len word \<Rightarrow> u8 list" where
  "le_bytes n v = map (\<lambda>i. ucast (drop_bit (8 * i) v AND 0xFF)) [0 ..< n]"

definition w_u8 :: "u8 \<Rightarrow> u8 list" where
  "w_u8 v = [v]"

definition w_u32 :: "u32 \<Rightarrow> u8 list" where
  "w_u32 v = le_bytes 4 v"

definition w_u64 :: "u64 \<Rightarrow> u8 list" where
  "w_u64 v = le_bytes 8 v"

definition w_bool :: "bool \<Rightarrow> u8 list" where
  "w_bool b = w_u8 (if b then 1 else 0)"

text \<open>\<open>static_cast<std::uint32_t>\<close> of a size truncates.\<close>

definition w_size :: "nat \<Rightarrow> u8 list" where
  "w_size n = w_u32 (of_nat n)"

definition char_byte :: "char \<Rightarrow> u8" where
  "char_byte c = of_nat (of_char c)"

definition byte_char :: "u8 \<Rightarrow> char" where
  "byte_char b = char_of (unat b)"

definition w_str :: "string \<Rightarrow> u8 list" where
  "w_str s = w_size (length s) @ map char_byte s"

definition w_opt :: "('a \<Rightarrow> u8 list) \<Rightarrow> 'a option \<Rightarrow> u8 list" where
  "w_opt w x = (case x of None \<Rightarrow> w_bool False | Some y \<Rightarrow> w_bool True @ w y)"

definition w_list :: "('a \<Rightarrow> u8 list) \<Rightarrow> 'a list \<Rightarrow> u8 list" where
  "w_list w xs = concat (map w xs)"

section \<open>Readers\<close>

record Reader =
  rd_p :: "u8 list"
  rd_pos :: nat
  rd_ok :: bool
  rd_err :: string

definition mk_Reader :: "u8 list \<Rightarrow> Reader" where
  "mk_Reader data = \<lparr>rd_p = data, rd_pos = 0, rd_ok = True, rd_err = ''''\<rparr>"

definition rd_range :: "nat \<Rightarrow> Reader \<Rightarrow> bool \<times> Reader" where
  "rd_range n r =
    (if n > length (rd_p r) - rd_pos r
     then (False, r\<lparr>rd_ok := False, rd_err := ''truncated/oversized length''\<rparr>) else (True, r))"

type_synonym ('e, 'a) rd = "Reader \<Rightarrow> 'e + ('a \<times> Reader)"

definition rd_return :: "'a \<Rightarrow> ('e, 'a) rd" where
  "rd_return x r = Inr (x, r)"

definition rd_bind :: "('e, 'a) rd \<Rightarrow> ('a \<Rightarrow> ('e, 'b) rd) \<Rightarrow> ('e, 'b) rd" where
  "rd_bind m f r = (case m r of Inl e \<Rightarrow> Inl e | Inr (x, r') \<Rightarrow> f x r')"

definition rd_stop :: "'e \<Rightarrow> ('e, 'a) rd" where
  "rd_stop e r = Inl e"

definition le_value :: "u8 list \<Rightarrow> 'a :: len word" where
  "le_value bs = fold (\<lambda>(i, b) v. v OR push_bit (8 * i) (ucast b)) (zip [0 ..< length bs] bs) 0"

definition rd_word :: "nat \<Rightarrow> ('e, 'a :: len word) rd" where
  "rd_word n r =
    (case rd_range n r of
       (False, r') \<Rightarrow> Inr (0, r')
     | (True, r') \<Rightarrow> Inr (le_value (take n (drop (rd_pos r') (rd_p r'))), r'\<lparr>rd_pos := rd_pos r' + n\<rparr>))"

definition rd_u8 :: "('e, u8) rd" where
  "rd_u8 r =
    (case rd_range 1 r of
       (False, r') \<Rightarrow> Inr (0, r')
     | (True, r') \<Rightarrow> Inr (rd_p r' ! rd_pos r', r'\<lparr>rd_pos := rd_pos r' + 1\<rparr>))"

definition rd_u32 :: "('e, u32) rd" where
  "rd_u32 = rd_word 4"

definition rd_u64 :: "('e, u64) rd" where
  "rd_u64 = rd_word 8"

definition rd_b1 :: "('e, bool) rd" where
  "rd_b1 = rd_bind rd_u8 (\<lambda>b. rd_return (b \<noteq> 0))"

definition rd_str :: "('e, string) rd" where
  "rd_str =
    rd_bind rd_u32 (\<lambda>n r.
      if \<not> rd_ok r then Inr ('''', r)
      else case rd_range (unat n) r of
             (False, r') \<Rightarrow> Inr ('''', r')
           | (True, r') \<Rightarrow> Inr (map byte_char (take (unat n) (drop (rd_pos r') (rd_p r'))),
                                r'\<lparr>rd_pos := rd_pos r' + unat n\<rparr>))"

text \<open>\<open>if (!r.ok) return ...\<close>; the value returned may mention \<open>r.err\<close>.\<close>

definition rd_check :: "(Reader \<Rightarrow> 'e) \<Rightarrow> ('e, unit) rd" where
  "rd_check e r = (if \<not> rd_ok r then Inl (e r) else Inr ((), r))"

text \<open>\<open>if (cond) return ...\<close>\<close>

definition rd_guard :: "bool \<Rightarrow> 'e \<Rightarrow> ('e, unit) rd" where
  "rd_guard b e r = (if b then Inl e else Inr ((), r))"

text \<open>A byte that is range checked and cast to an enumeration.\<close>

definition rd_enum :: "'a list \<Rightarrow> u8 \<Rightarrow> 'e \<Rightarrow> ('e, 'a) rd" where
  "rd_enum all hi e = rd_bind rd_u8 (\<lambda>v. if v > hi then rd_stop e else rd_return (all ! unat v))"

text \<open>\<open>if (r.b1()) x = ...\<close>\<close>

definition rd_opt :: "('e, 'a) rd \<Rightarrow> ('e, 'a option) rd" where
  "rd_opt p = rd_bind rd_b1 (\<lambda>b. if b then rd_bind p (\<lambda>x. rd_return (Some x)) else rd_return None)"

text \<open>A counted loop that collects what its body reads.\<close>

fun rd_times :: "nat \<Rightarrow> ('e, 'a) rd \<Rightarrow> ('e, 'a list) rd" where
  "rd_times 0 p = rd_return []"
| "rd_times (Suc n) p = rd_bind p (\<lambda>x. rd_bind (rd_times n p) (\<lambda>xs. rd_return (x # xs)))"

section \<open>Little-endian words\<close>

lemma length_le_bytes [simp]: "length (le_bytes n v) = n"
  by (simp add: le_bytes_def)

lemma le_value_snoc:
  "(le_value (bs @ [b]) :: 'a :: len word) = le_value bs OR push_bit (8 * length bs) (ucast b)"
  by (simp add: le_value_def)

lemma bit_le_value:
  "bit (le_value bs :: 'a :: len word) i \<longleftrightarrow>
     i < LENGTH('a) \<and> i < 8 * length bs \<and> bit (bs ! (i div 8)) (i mod 8)"
proof (induction bs rule: rev_induct)
  case Nil
  then show ?case by (simp add: le_value_def)
next
  case (snoc b bs)
  have *: "bit (push_bit (8 * length bs) (ucast b) :: 'a word) i \<longleftrightarrow>
      i < LENGTH('a) \<and> 8 * length bs \<le> i \<and> i < 8 * length bs + 8 \<and> bit b (i - 8 * length bs)"
    by (auto simp: bit_simps dest: bit_imp_le_length)
  consider "i < 8 * length bs" | "8 * length bs \<le> i" "i < 8 * length bs + 8" | "8 * length bs + 8 \<le> i"
    by linarith
  then show ?case
  proof cases
    case 1
    then have "i div 8 < length bs" by auto
    then show ?thesis using 1 by (simp add: le_value_snoc bit_or_iff snoc * nth_append)
  next
    case 2
    then have "i div 8 = length bs" "i mod 8 = i - 8 * length bs"
      by (auto simp: div_nat_eqI modulo_nat_def)
    then show ?thesis using 2 by (simp add: le_value_snoc bit_or_iff snoc *)
  next
    case 3
    then show ?thesis by (simp add: le_value_snoc bit_or_iff snoc *)
  qed
qed

lemma byte_mask: "(0xFF :: 'a :: len word) = mask 8"
  by (simp add: mask_eq_exp_minus_1)

lemma bit_le_bytes:
  "k < n \<Longrightarrow> bit (le_bytes n (v :: 'a :: len word) ! k) j \<longleftrightarrow> j < 8 \<and> bit v (8 * k + j)"
  by (auto simp: le_bytes_def byte_mask bit_simps ac_simps dest: bit_imp_le_length)

lemma le_value_le_bytes:
  assumes "LENGTH('a :: len) \<le> 8 * n"
  shows "le_value (le_bytes n (v :: 'a word)) = v"
proof (rule bit_word_eqI)
  fix i assume i: "i < LENGTH('a)"
  with assms have "i div 8 < n" "i < 8 * n" by auto
  then show "bit (le_value (le_bytes n v) :: 'a word) i = bit v i"
    using i by (simp add: bit_le_value bit_le_bytes)
qed

lemma le_bytes_le_value:
  assumes "8 * length bs \<le> LENGTH('a :: len)"
  shows "le_bytes (length bs) (le_value bs :: 'a word) = bs"
proof (rule nth_equalityI)
  fix k assume "k < length (le_bytes (length bs) (le_value bs :: 'a word))"
  then have k: "k < length bs" by simp
  show "le_bytes (length bs) (le_value bs :: 'a word) ! k = bs ! k"
  proof (rule bit_word_eqI)
    fix j :: nat assume "j < LENGTH(8)"
    then have j: "j < 8" by simp
    with k have "8 * k + j < 8 * length bs" by linarith
    with j k assms show "bit (le_bytes (length bs) (le_value bs :: 'a word) ! k) j = bit (bs ! k) j"
      by (simp add: bit_le_bytes bit_le_value)
  qed
qed simp

lemma length_writers [simp]:
  "length (w_u8 b) = 1" "length (w_u32 v) = 4" "length (w_u64 x) = 8" "length (w_bool c) = 1"
  "length (w_size n) = 4"
  by (simp_all add: w_u8_def w_u32_def w_u64_def w_bool_def w_size_def)

section \<open>Reading back what was written\<close>

text \<open>A reader that has consumed \<open>pre\<close> without error and has \<open>bs\<close> before it.\<close>

definition reader_at :: "u8 list \<Rightarrow> u8 list \<Rightarrow> Reader" where
  "reader_at pre bs = \<lparr>rd_p = pre @ bs, rd_pos = length pre, rd_ok = True, rd_err = ''''\<rparr>"

lemma mk_Reader_at: "mk_Reader data = reader_at [] data"
  by (simp add: mk_Reader_def reader_at_def)

lemma reader_at_simps [simp]:
  "rd_p (reader_at pre bs) = pre @ bs" "rd_pos (reader_at pre bs) = length pre" "rd_ok (reader_at pre bs)"
  by (simp_all add: reader_at_def)

lemma rd_bind_return [simp]: "rd_bind (rd_return x) f = f x"
  by (simp add: rd_bind_def rd_return_def fun_eq_iff)

lemma rd_bind_Inr: "m r = Inr (x, r') \<Longrightarrow> rd_bind m f r = f x r'"
  by (simp add: rd_bind_def)

lemma rd_simps [wire_simps]:
  "rd_return x r = Inr (x, r)"
  "rd_guard b e r = (if b then Inl e else Inr ((), r))"
  "rd_check g (reader_at pre bs) = Inr ((), reader_at pre bs)"
  by (simp_all add: rd_return_def rd_guard_def rd_check_def)

lemma rd_word_at:
  assumes "LENGTH('a :: len) = 8 * n"
  shows "rd_word n (reader_at pre (le_bytes n v @ rest)) = Inr (v :: 'a word, reader_at (pre @ le_bytes n v) rest)"
  using assms by (simp add: rd_word_def rd_range_def reader_at_def le_value_le_bytes)

lemma rd_u8_at [wire_simps]: "rd_u8 (reader_at pre (w_u8 b @ rest)) = Inr (b, reader_at (pre @ w_u8 b) rest)"
  by (simp add: rd_u8_def rd_range_def reader_at_def w_u8_def)

lemma rd_u32_at [wire_simps]: "rd_u32 (reader_at pre (w_u32 v @ rest)) = Inr (v, reader_at (pre @ w_u32 v) rest)"
  by (simp add: rd_u32_def w_u32_def rd_word_at)

lemma rd_u64_at [wire_simps]: "rd_u64 (reader_at pre (w_u64 v @ rest)) = Inr (v, reader_at (pre @ w_u64 v) rest)"
  by (simp add: rd_u64_def w_u64_def rd_word_at)

lemma rd_b1_at [wire_simps]: "rd_b1 (reader_at pre (w_bool b @ rest)) = Inr (b, reader_at (pre @ w_bool b) rest)"
  by (simp add: rd_b1_def w_bool_def rd_bind_def rd_u8_at rd_simps)

lemma rd_size_at:
  "rd_u32 (reader_at pre (w_size n @ rest)) = Inr (of_nat n, reader_at (pre @ w_size n) rest)"
  by (simp add: w_size_def rd_u32_at)

lemma unat_size: "n < 2 ^ 32 \<Longrightarrow> unat (of_nat n :: u32) = n"
  by (simp add: unsigned_of_nat take_bit_nat_eq_self)

lemma byte_char_byte [simp]: "byte_char (char_byte c) = c"
proof -
  have "unat (of_nat (of_char c) :: u8) = (of_char c :: nat)"
    using nat_of_char_less_256 [of c] by (simp add: unsigned_of_nat take_bit_nat_eq_self)
  then show ?thesis by (simp add: byte_char_def char_byte_def)
qed

lemma length_w_str [simp]: "length (w_str s) = 4 + length s"
  by (simp add: w_str_def)

lemma rd_str_at:
  assumes "length s < 2 ^ 32"
  shows "rd_str (reader_at pre (w_str s @ rest)) = Inr (s, reader_at (pre @ w_str s) rest)"
proof -
  have "unat (of_nat (length s) :: u32) = length s" by (rule unat_size [OF assms])
  then show ?thesis
    by (simp add: rd_str_def w_str_def rd_bind_def rd_size_at rd_range_def comp_def)
       (simp add: reader_at_def)
qed

lemma rd_enum_at:
  assumes "x \<in> set all" and "length all \<le> Suc (unat hi)"
  shows "rd_enum all hi e (reader_at pre (w_u8 (enum_byte all x) @ rest)) =
    Inr (x, reader_at (pre @ w_u8 (enum_byte all x)) rest)"
proof -
  have "unat hi < 256" using unsigned_less [of hi] by simp
  with assms have "enum_of_byte all (enum_byte all x) = Some x" by (intro enum_of_byte_enum_byte) auto
  then have "unat (enum_byte all x) < length all" "all ! unat (enum_byte all x) = x"
    by (auto simp: enum_of_byte_def split: if_splits)
  moreover from this(1) assms(2) have "\<not> enum_byte all x > hi" by (simp add: word_less_nat_alt)
  ultimately show ?thesis by (simp add: rd_enum_def rd_bind_def rd_u8_at rd_simps)
qed

lemma enum_lengths [simp]:
  "length all_domain = 18" "length all_provenance = 7" "length all_movability = 10"
  "length all_fit_outcome = 17" "length all_action_kind = 19" "length all_plan_state = 19"
  "length all_reservation_impact = 4" "length all_verification_outcome = 7" "length all_msg_type = 20"
  by (simp_all add: all_domain_def all_provenance_def all_movability_def all_fit_outcome_def
      all_action_kind_def all_plan_state_def all_reservation_impact_def all_verification_outcome_def
      all_msg_type_def)

text \<open>The range checks of the two files are the sizes of the enumerations.\<close>

lemma rd_enums_at [wire_simps]:
  "rd_enum all_domain 17 e (reader_at pre (w_u8 (enum_byte all_domain a) @ rest)) =
    Inr (a, reader_at (pre @ w_u8 (enum_byte all_domain a)) rest)"
  "rd_enum all_provenance 6 e (reader_at pre (w_u8 (enum_byte all_provenance b) @ rest)) =
    Inr (b, reader_at (pre @ w_u8 (enum_byte all_provenance b)) rest)"
  "rd_enum all_movability 9 e (reader_at pre (w_u8 (enum_byte all_movability c) @ rest)) =
    Inr (c, reader_at (pre @ w_u8 (enum_byte all_movability c)) rest)"
  "rd_enum all_fit_outcome 16 e (reader_at pre (w_u8 (enum_byte all_fit_outcome d) @ rest)) =
    Inr (d, reader_at (pre @ w_u8 (enum_byte all_fit_outcome d)) rest)"
  "rd_enum all_action_kind 18 e (reader_at pre (w_u8 (enum_byte all_action_kind f) @ rest)) =
    Inr (f, reader_at (pre @ w_u8 (enum_byte all_action_kind f)) rest)"
  "rd_enum all_plan_state 18 e (reader_at pre (w_u8 (enum_byte all_plan_state g) @ rest)) =
    Inr (g, reader_at (pre @ w_u8 (enum_byte all_plan_state g)) rest)"
  "rd_enum all_reservation_impact 3 e (reader_at pre (w_u8 (enum_byte all_reservation_impact h) @ rest)) =
    Inr (h, reader_at (pre @ w_u8 (enum_byte all_reservation_impact h)) rest)"
  "rd_enum all_verification_outcome 6 e (reader_at pre (w_u8 (enum_byte all_verification_outcome i) @ rest)) =
    Inr (i, reader_at (pre @ w_u8 (enum_byte all_verification_outcome i)) rest)"
  "rd_enum all_msg_type 19 e (reader_at pre (w_u8 (enum_byte all_msg_type j) @ rest)) =
    Inr (j, reader_at (pre @ w_u8 (enum_byte all_msg_type j)) rest)"
  by (simp_all add: rd_enum_at)

section \<open>The contract of a pair of codec functions\<close>

locale wire_codec =
  fixes put :: "'a \<Rightarrow> u8 list"
    and get :: "Reader \<Rightarrow> 'e + ('b \<times> Reader)"
    and fit :: "'a \<Rightarrow> bool"
    and view :: "'a \<Rightarrow> 'b"
  assumes get_put: "fit x \<Longrightarrow> get (reader_at pre (put x @ rest)) = Inr (view x, reader_at (pre @ put x) rest)"
begin

lemma get_opt:
  assumes "\<forall>y \<in> set_option x. fit y"
  shows "rd_opt get (reader_at pre (w_opt put x @ rest)) =
    Inr (map_option view x, reader_at (pre @ w_opt put x) rest)"
  using assms by (cases x) (simp_all add: rd_opt_def w_opt_def rd_bind_def rd_b1_at get_put rd_simps)

lemma get_times:
  assumes "\<forall>x \<in> set xs. fit x"
  shows "rd_times (length xs) get (reader_at pre (w_list put xs @ rest)) =
    Inr (map view xs, reader_at (pre @ w_list put xs) rest)"
  using assms
proof (induction xs arbitrary: pre)
  case Nil
  then show ?case by (simp add: w_list_def rd_simps)
next
  case (Cons x xs)
  then have "rd_times (length xs) get (reader_at (pre @ put x) (w_list put xs @ rest)) =
      Inr (map view xs, reader_at (pre @ put x @ w_list put xs) rest)" by simp
  then show ?case using Cons.prems by (simp add: w_list_def rd_bind_def get_put rd_simps)
qed

text \<open>Distinct values stay distinct on the wire.\<close>

lemma put_prefix_free:
  assumes "fit x" "fit y" and "put x @ r = put y @ s"
  shows "view x = view y \<and> r = s"
proof -
  have "get (reader_at [] (put x @ r)) = Inr (view x, reader_at ([] @ put x) r)" by (rule get_put [OF assms(1)])
  moreover have "get (reader_at [] (put x @ r)) = Inr (view y, reader_at ([] @ put y) s)"
    unfolding assms(3) by (rule get_put [OF assms(2)])
  ultimately show ?thesis using assms(3) by (auto simp: reader_at_def)
qed

end

interpretation wire_u64: wire_codec w_u64 rd_u64 "\<lambda>_. True" "\<lambda>x. x"
  by unfold_locales (rule rd_u64_at)

interpretation wire_str: wire_codec w_str rd_str "\<lambda>s. length s < 2 ^ 32" "\<lambda>s. s"
  by unfold_locales (rule rd_str_at)

interpretation wire_verification: wire_codec "\<lambda>v. w_u8 (enum_byte all_verification_outcome v)"
  "rd_enum all_verification_outcome 6 e" "\<lambda>_. True" "\<lambda>v. v" for e
  by unfold_locales (rule rd_enums_at)

interpretation wire_action_kind: wire_codec "\<lambda>v. w_u8 (enum_byte all_action_kind v)"
  "rd_enum all_action_kind 18 e" "\<lambda>_. True" "\<lambda>v. v" for e
  by unfold_locales (rule rd_enums_at)

section \<open>Inverting a successful read\<close>

lemma rd_bind_InrE:
  assumes "rd_bind m f r = Inr y"
  obtains x r' where "m r = Inr (x, r')" "f x r' = Inr y"
  using assms by (auto simp: rd_bind_def split: sum.splits)

lemma rd_guard_InrE:
  assumes "rd_guard b e r = Inr (x, r')"
  obtains "\<not> b" "r' = r"
  using assms by (auto simp: rd_guard_def split: if_splits)

lemma rd_check_InrE:
  assumes "rd_check e r = Inr (x, r')"
  obtains "rd_ok r" "r' = r"
  using assms by (auto simp: rd_check_def split: if_splits)

lemma rd_word_InrE:
  assumes "rd_word n r = Inr (v, r')" and "rd_ok r'"
  obtains "v = le_value (take n (drop (rd_pos r) (rd_p r)))" "r' = r\<lparr>rd_pos := rd_pos r + n\<rparr>"
    "n \<le> length (rd_p r) - rd_pos r"
  using assms by (auto simp: rd_word_def rd_range_def split: if_splits)

section \<open>What every reader keeps\<close>

text \<open>
  A reader never changes the buffer, never moves backwards or past its end, and never clears an
  error.
\<close>

definition rd_keeps :: "('e, 'a) rd \<Rightarrow> bool" where
  "rd_keeps m \<longleftrightarrow> (\<forall>r x r'. m r = Inr (x, r') \<longrightarrow> rd_pos r \<le> length (rd_p r) \<longrightarrow>
     rd_p r' = rd_p r \<and> rd_pos r \<le> rd_pos r' \<and> rd_pos r' \<le> length (rd_p r) \<and> (rd_ok r' \<longrightarrow> rd_ok r))"

named_theorems keeps_intros

lemma rd_keeps_return [keeps_intros]: "rd_keeps (rd_return x)"
  by (simp add: rd_keeps_def rd_return_def)

lemma rd_keeps_stop [keeps_intros]: "rd_keeps (rd_stop e)"
  by (simp add: rd_keeps_def rd_stop_def)

lemma rd_keeps_check [keeps_intros]: "rd_keeps (rd_check e)"
  by (simp add: rd_keeps_def rd_check_def)

lemma rd_keeps_guard [keeps_intros]: "rd_keeps (rd_guard b e)"
  by (simp add: rd_keeps_def rd_guard_def)

lemma rd_keeps_bind [keeps_intros]:
  assumes "rd_keeps m" and "\<And>x. rd_keeps (f x)"
  shows "rd_keeps (rd_bind m f)"
  unfolding rd_keeps_def
proof (intro allI impI)
  fix r y r' assume "rd_bind m f r = Inr (y, r')" and pos: "rd_pos r \<le> length (rd_p r)"
  then obtain x r1 where 1: "m r = Inr (x, r1)" "f x r1 = Inr (y, r')"
    by (auto simp: rd_bind_def split: sum.splits)
  with assms(1) pos have 2: "rd_p r1 = rd_p r" "rd_pos r \<le> rd_pos r1" "rd_pos r1 \<le> length (rd_p r)" "rd_ok r1 \<longrightarrow> rd_ok r"
    unfolding rd_keeps_def by blast+
  with assms(2) [of x] 1(2) show "rd_p r' = rd_p r \<and> rd_pos r \<le> rd_pos r' \<and> rd_pos r' \<le> length (rd_p r) \<and>
      (rd_ok r' \<longrightarrow> rd_ok r)"
    unfolding rd_keeps_def by (metis order_trans)
qed

lemma rd_keeps_if [keeps_intros]: "rd_keeps a \<Longrightarrow> rd_keeps b \<Longrightarrow> rd_keeps (if c then a else b)"
  by simp

lemma rd_keeps_u8 [keeps_intros]: "rd_keeps rd_u8"
  by (auto simp: rd_keeps_def rd_u8_def rd_range_def)

lemma rd_keeps_word: "rd_keeps (rd_word n)"
  by (auto simp: rd_keeps_def rd_word_def rd_range_def)

lemma rd_keeps_u32 [keeps_intros]: "rd_keeps rd_u32"
  by (simp add: rd_u32_def rd_keeps_word)

lemma rd_keeps_u64 [keeps_intros]: "rd_keeps rd_u64"
  by (simp add: rd_u64_def rd_keeps_word)

lemma rd_keeps_b1 [keeps_intros]: "rd_keeps rd_b1"
  unfolding rd_b1_def by (intro keeps_intros)

lemma rd_keeps_str [keeps_intros]: "rd_keeps rd_str"
  unfolding rd_str_def
  by (rule rd_keeps_bind [OF rd_keeps_u32]) (auto simp: rd_keeps_def rd_range_def split: if_splits)

lemma rd_keeps_enum [keeps_intros]: "rd_keeps (rd_enum all hi e)"
  unfolding rd_enum_def by (intro keeps_intros)

lemma rd_keeps_opt [keeps_intros]: "rd_keeps p \<Longrightarrow> rd_keeps (rd_opt p)"
  unfolding rd_opt_def by (intro keeps_intros)

lemma rd_keeps_times [keeps_intros]: "rd_keeps p \<Longrightarrow> rd_keeps (rd_times n p)"
  by (induction n) (auto intro!: keeps_intros)

end
