(* ===== verification/Checksum.thy ===== *)
theory Checksum
  imports Wire
begin

text \<open>
  The CRC-32 that \<open>persistence/codec.cpp\<close> and \<open>protocol/protocol.cpp\<close> append to what they write: the
  table driven routine, its equality with the bit-serial definition, and what the receiver may
  rely on.  The locale \<open>burst_check\<close> is that promise: a seal that no change confined to four
  consecutive bytes survives.
\<close>

section \<open>The table driven routine\<close>

definition crc_shift :: "u32 \<Rightarrow> u32" where
  "crc_shift c = (if c AND 1 \<noteq> 0 then 0xEDB88320 XOR drop_bit 1 c else drop_bit 1 c)"

definition crc_table :: "u32 list" where
  "crc_table = map (\<lambda>i. (crc_shift ^^ 8) (of_nat i)) [0 ..< 256]"

definition crc_step :: "u32 \<Rightarrow> u8 \<Rightarrow> u32" where
  "crc_step crc b = crc_table ! unat ((crc XOR ucast b) AND 0xFF) XOR drop_bit 8 crc"

definition crc32 :: "u8 list \<Rightarrow> u32" where
  "crc32 data = foldl crc_step 0xFFFFFFFF data XOR 0xFFFFFFFF"

text \<open>The bit-serial reference: one shift of the register per bit of input.\<close>

definition crc32_serial :: "u8 list \<Rightarrow> u32" where
  "crc32_serial data =
    foldl (\<lambda>crc b. (crc_shift ^^ 8) (crc XOR ucast b)) 0xFFFFFFFF data XOR 0xFFFFFFFF"

section \<open>The shift register is linear and reversible\<close>

lemma xor_cancel:
  "(a XOR b = c XOR b) = (a = (c :: 'a :: len word))" "(b XOR a = b XOR c) = (a = (c :: 'a :: len word))"
  by (auto simp: bit_eq_iff bit_xor_iff)

lemma xor_eq_shift: "(a XOR b = c) = (b = a XOR (c :: 'a :: len word))"
  by (auto simp: bit_eq_iff bit_xor_iff)

lemma and_one_bit: "(c AND 1 \<noteq> (0 :: u32)) = bit c 0"
  by (simp add: bit_0 and_one_eq odd_iff_mod_2_eq_one)

lemma crc_shift_bit: "crc_shift c = (if bit c 0 then 0xEDB88320 else 0) XOR drop_bit 1 c"
  by (simp add: crc_shift_def and_one_bit)

lemma crc_shift_xor: "crc_shift (a XOR b) = crc_shift a XOR crc_shift b"
  by (auto simp: crc_shift_bit bit_xor_iff drop_bit_xor ac_simps)

lemma crc_shift_0 [simp]: "crc_shift 0 = 0"
  by (simp add: crc_shift_bit)

lemma crc_shifts_xor: "(crc_shift ^^ n) (a XOR b) = (crc_shift ^^ n) a XOR (crc_shift ^^ n) b"
  by (induction n) (simp_all add: crc_shift_xor)

lemma crc_shifts_0 [simp]: "(crc_shift ^^ n) 0 = 0"
  by (induction n) simp_all

lemma crc_shift_top: "bit (crc_shift c) 31 = bit c 0"
  using bit_imp_le_length [of c 32] by (auto simp: crc_shift_bit bit_xor_iff bit_drop_bit_eq bit_numeral_rec)

lemma crc_shift_inject: "crc_shift a = crc_shift b \<longleftrightarrow> a = b"
proof
  assume eq: "crc_shift a = crc_shift b"
  then have low: "bit a 0 = bit b 0" using crc_shift_top by metis
  with eq have high: "drop_bit 1 a = drop_bit 1 b" by (simp add: crc_shift_bit xor_cancel)
  show "a = b"
  proof (rule bit_word_eqI)
    fix i
    show "bit a i = bit b i"
    proof (cases i)
      case 0
      then show ?thesis using low by simp
    next
      case (Suc j)
      have "bit (drop_bit 1 a) j = bit (drop_bit 1 b) j" by (simp only: high)
      then show ?thesis using Suc by (simp add: bit_drop_bit_eq)
    qed
  qed
qed simp

lemma crc_shifts_inject: "(crc_shift ^^ n) a = (crc_shift ^^ n) b \<longleftrightarrow> a = b"
  by (induction n arbitrary: a b) (auto simp: crc_shift_inject)

lemma crc_shifts_drop:
  assumes "take_bit n c = 0"
  shows "(crc_shift ^^ n) c = drop_bit n c"
  using assms
proof (induction n arbitrary: c)
  case (Suc n)
  have bits: "\<not> bit c i" if "i < Suc n" for i
    using Suc.prems that by (metis bit_0_eq bit_take_bit_iff bot_apply bot_bool_def)
  then have "crc_shift c = drop_bit 1 c" by (simp add: crc_shift_bit)
  moreover have "take_bit n (drop_bit 1 c) = 0"
    using bits by (intro bit_word_eqI) (auto simp: bit_take_bit_iff bit_drop_bit_eq)
  ultimately show ?case using Suc.IH [of "drop_bit 1 c"] by (simp add: funpow_swap1)
qed simp

lemma crc_shifts_push:
  assumes "n + 8 \<le> 32"
  shows "(crc_shift ^^ n) (push_bit n (ucast (b :: u8))) = ucast b"
proof -
  have "take_bit n (push_bit n (ucast b :: u32)) = 0" by (simp add: take_bit_push_bit)
  then have "(crc_shift ^^ n) (push_bit n (ucast b)) = drop_bit n (push_bit n (ucast b))" by (rule crc_shifts_drop)
  also have "\<dots> = ucast b"
    using assms by (intro bit_word_eqI) (auto simp: bit_simps dest: bit_imp_le_length)
  finally show ?thesis .
qed

section \<open>Table and shift register agree\<close>

lemma crc_table_entry: "crc_table ! unat (x AND 0xFF) = (crc_shift ^^ 8) (x AND 0xFF)"
proof -
  have "unat (x AND 0xFF) < 256"
    using take_bit_nat_less_exp [of 8 "unat x"]
    by (simp add: byte_mask take_bit_eq_mask [symmetric] unsigned_take_bit_eq)
  then show ?thesis by (simp add: crc_table_def del: funpow.simps)
qed

lemma crc_step_serial: "crc_step crc b = (crc_shift ^^ 8) (crc XOR ucast b)"
proof -
  let ?x = "crc XOR ucast b"
  have low: "(crc XOR ucast b) AND 0xFF = take_bit 8 ?x" by (simp add: byte_mask take_bit_eq_mask)
  have split: "?x = take_bit 8 ?x XOR push_bit 8 (drop_bit 8 ?x)"
  proof (rule bit_word_eqI)
    fix n show "bit ?x n = bit (take_bit 8 ?x XOR push_bit 8 (drop_bit 8 ?x)) n" if "n < LENGTH(32)"
      using that by (cases "n < 8") (auto simp: bit_simps)
  qed
  have "take_bit 8 (push_bit 8 (drop_bit 8 ?x)) = 0" by (simp add: take_bit_push_bit)
  then have "(crc_shift ^^ 8) (push_bit 8 (drop_bit 8 ?x)) = drop_bit 8 (push_bit 8 (drop_bit 8 ?x))"
    by (rule crc_shifts_drop)
  also have "\<dots> = drop_bit 8 crc"
    by (intro bit_word_eqI) (auto simp: bit_simps dest: bit_imp_le_length)
  finally have "(crc_shift ^^ 8) ?x = (crc_shift ^^ 8) (take_bit 8 ?x) XOR drop_bit 8 crc"
    by (subst split) (simp only: crc_shifts_xor)
  moreover have "crc_step crc b = (crc_shift ^^ 8) (take_bit 8 ?x) XOR drop_bit 8 crc"
    unfolding crc_step_def crc_table_entry unfolding low ..
  ultimately show ?thesis by simp
qed

lemma crc_step_inject: "crc_step a b = crc_step c b \<longleftrightarrow> a = c"
  by (simp add: crc_step_serial crc_shifts_inject xor_cancel del: funpow.simps)

lemma crc_fold_inject: "foldl crc_step a bs = foldl crc_step c bs \<longleftrightarrow> a = c"
  by (induction bs arbitrary: a c) (auto simp: crc_step_inject)

text \<open>Up to four bytes enter the register as one little-endian word.\<close>

lemma crc_window:
  assumes "length bs \<le> 4"
  shows "foldl crc_step s bs = (crc_shift ^^ (8 * length bs)) (s XOR le_value bs)"
  using assms
proof (induction bs rule: rev_induct)
  case Nil
  then show ?case by (simp add: le_value_def)
next
  case (snoc b bs)
  let ?n = "8 * length bs"
  have n: "?n + 8 \<le> 32" using snoc.prems by simp
  have "foldl crc_step s bs = (crc_shift ^^ ?n) (s XOR le_value bs)" using snoc by simp
  then have "foldl crc_step s (bs @ [b]) = (crc_shift ^^ 8) ((crc_shift ^^ ?n) (s XOR le_value bs) XOR ucast b)"
    by (simp only: foldl_append foldl.simps crc_step_serial)
  also have "\<dots> = (crc_shift ^^ 8) ((crc_shift ^^ ?n) (s XOR le_value bs XOR push_bit ?n (ucast b)))"
    using crc_shifts_push [OF n] by (simp add: crc_shifts_xor xor.assoc del: funpow.simps)
  also have "\<dots> = (crc_shift ^^ (8 + ?n)) (s XOR le_value bs XOR push_bit ?n (ucast b))"
    by (simp add: funpow_add)
  also have "s XOR le_value bs XOR push_bit ?n (ucast b) = s XOR le_value (bs @ [b])"
  proof -
    have "le_value bs OR push_bit ?n (ucast b) = le_value bs XOR (push_bit ?n (ucast b) :: u32)"
      by (intro bit_word_eqI) (auto simp: bit_simps bit_le_value)
    then show ?thesis by (simp add: le_value_snoc xor.assoc)
  qed
  finally show ?case by (simp add: add.commute)
qed

section \<open>The seal\<close>

text \<open>A buffer whose last four bytes are the checksum of the rest.\<close>

definition crc_sealed :: "u8 list \<Rightarrow> bool" where
  "crc_sealed bs \<longleftrightarrow> 4 \<le> length bs \<and>
     le_value (drop (length bs - 4) bs) = crc32 (take (length bs - 4) bs)"

lemma crc_sealed_append: "crc_sealed (p @ w_u32 (crc32 p))"
  by (simp add: crc_sealed_def w_u32_def le_value_le_bytes)

lemma crc_sealed_residue:
  assumes "4 \<le> length bs"
  shows "crc_sealed bs \<longleftrightarrow> foldl crc_step 0xFFFFFFFF bs = (crc_shift ^^ 32) 0xFFFFFFFF"
proof -
  let ?p = "take (length bs - 4) bs" and ?t = "drop (length bs - 4) bs"
  have "foldl crc_step 0xFFFFFFFF bs = foldl crc_step 0xFFFFFFFF (?p @ ?t)" by simp
  also have "\<dots> = (crc_shift ^^ 32) (foldl crc_step 0xFFFFFFFF ?p XOR le_value ?t)"
    using crc_window [of ?t] assms by (simp del: append_take_drop_id funpow.simps)
  finally have "foldl crc_step 0xFFFFFFFF bs = (crc_shift ^^ 32) 0xFFFFFFFF \<longleftrightarrow>
      foldl crc_step 0xFFFFFFFF ?p XOR le_value ?t = 0xFFFFFFFF"
    by (simp add: crc_shifts_inject del: funpow.simps)
  also have "\<dots> \<longleftrightarrow> le_value ?t = foldl crc_step 0xFFFFFFFF ?p XOR 0xFFFFFFFF"
    by (rule xor_eq_shift)
  finally show ?thesis using assms by (auto simp: crc_sealed_def crc32_def)
qed

locale burst_check =
  fixes seal_ok :: "u8 list \<Rightarrow> bool" and width :: nat
  assumes burst: "seal_ok (u @ w @ v) \<Longrightarrow> seal_ok (u @ w' @ v) \<Longrightarrow> length w = length w' \<Longrightarrow> length w \<le> width \<Longrightarrow> w = w'"
begin

text \<open>A receiver that only accepts sealed buffers rejects every burst.\<close>

lemma receiver_rejects:
  assumes "\<And>bs. accepts bs \<Longrightarrow> seal_ok bs" and "accepts (u @ w @ v)"
    and "length w = length w'" "length w \<le> width" "w \<noteq> w'"
  shows "\<not> accepts (u @ w' @ v)"
  using assms burst by blast

lemma receiver_rejects_byte:
  assumes "\<And>bs. accepts bs \<Longrightarrow> seal_ok bs" and "accepts bs" and "i < length bs" and "b \<noteq> bs ! i" and "1 \<le> width"
  shows "\<not> accepts (bs[i := b])"
proof -
  have "accepts (take i bs @ [bs ! i] @ drop (Suc i) bs)" using assms(2,3) by (simp add: id_take_nth_drop [symmetric])
  then have "\<not> accepts (take i bs @ [b] @ drop (Suc i) bs)"
    using assms(1,4,5) burst [of "take i bs" "[bs ! i]" "drop (Suc i) bs" "[b]"] by auto
  then show ?thesis using assms(3) by (simp add: upd_conv_take_nth_drop)
qed

end

lemma crc_sealed_burst:
  assumes "crc_sealed (u @ w @ v)" "crc_sealed (u @ w' @ v)" and "length w = length w'" "length w \<le> 4"
  shows "w = w'"
proof -
  have len: "4 \<le> length (u @ w @ v)" "4 \<le> length (u @ w' @ v)" using assms by (simp_all add: crc_sealed_def)
  have "foldl crc_step 0xFFFFFFFF (u @ w @ v) = foldl crc_step 0xFFFFFFFF (u @ w' @ v)"
    using assms(1,2) crc_sealed_residue [OF len(1)] crc_sealed_residue [OF len(2)] by simp
  then have "foldl crc_step (foldl crc_step 0xFFFFFFFF u) w = foldl crc_step (foldl crc_step 0xFFFFFFFF u) w'"
    by (simp add: crc_fold_inject)
  then have "foldl crc_step 0xFFFFFFFF u XOR le_value w = foldl crc_step 0xFFFFFFFF u XOR le_value w'"
    using crc_window [of w] crc_window [of w'] assms(3,4) by (simp add: crc_shifts_inject del: funpow.simps)
  then have "(le_value w :: u32) = le_value w'" by (simp only: xor_cancel)
  then have "le_bytes (length w) (le_value w :: u32) = le_bytes (length w') (le_value w' :: u32)"
    using assms(3) by simp
  moreover have "8 * length w \<le> LENGTH(32)" "8 * length w' \<le> LENGTH(32)" using assms(3,4) by simp_all
  ultimately show "w = w'" by (metis le_bytes_le_value)
qed

interpretation crc_seal: burst_check crc_sealed 4
  by unfold_locales (rule crc_sealed_burst)

section \<open>Properties\<close>

text \<open>
  C40: The table driven CRC-32 of the source equals the bit-serial CRC-32 with the reflected
  polynomial \<open>0xEDB88320\<close>, on every input.
\<close>

theorem crc32_is_serial: "crc32 data = crc32_serial data"
  unfolding crc32_def crc32_serial_def crc_step_serial [abs_def] ..

end
