(* ===== verification/Binary64.thy ===== *)
theory Binary64
  imports FG_Prelude "HOL-Library.Log_Nat"
begin

text \<open>
  The C++ type \<open>double\<close>: IEEE 754 binary64.  A double is its 64-bit pattern, so that
  \<open>std::bit_cast\<close> is the identity and \<open>std::isfinite\<close> a test of the exponent field.  The
  arithmetic used by the program (\<open>+\<close>, \<open>-\<close>, \<open>*\<close>, \<open>/\<close>, comparison, conversion of unsigned
  integers and of literals) takes the exact rational value of its finite operands and rounds
  the exact result to nearest, ties to even.  Every operand in the program is finite: the
  scores come from constructors that reject anything outside \<open>[0, 1]\<close> and the rest are
  literals and converted integers.  A zero result is \<open>+0\<close>.
\<close>

section \<open>Patterns and values\<close>

type_synonym double = u64

definition d_sign :: "double \<Rightarrow> bool" where
  "d_sign d = (2 ^ 63 \<le> uint d)"

definition d_exponent :: "double \<Rightarrow> int" where
  "d_exponent d = (uint d div 2 ^ 52) mod 2 ^ 11"

definition d_fraction :: "double \<Rightarrow> int" where
  "d_fraction d = uint d mod 2 ^ 52"

definition d_isfinite :: "double \<Rightarrow> bool" where
  "d_isfinite d = (d_exponent d \<noteq> 2047)"

definition pow2 :: "int \<Rightarrow> rat" where
  "pow2 k = (if 0 \<le> k then 2 ^ nat k else 1 / 2 ^ nat (- k))"

definition d_val :: "double \<Rightarrow> rat" where
  "d_val d =
    (let m = (if d_exponent d = 0 then d_fraction d else 2 ^ 52 + d_fraction d);
         e = (if d_exponent d = 0 then - 1074 else d_exponent d - 1075);
         v = of_int m * pow2 e
     in if d_sign d then - v else v)"

section \<open>Rounding\<close>

text \<open>\<open>round_half_even\<close> is the nearest integer, the even one of two equally near ones.\<close>

definition round_half_even :: "rat \<Rightarrow> int" where
  "round_half_even x =
    (let n = \<lfloor>x\<rfloor>; d = x - of_int n
     in if d < 1 / 2 then n else if 1 / 2 < d then n + 1 else if even n then n else n + 1)"

text \<open>The binary order of magnitude of a positive rational, from the lengths of its fraction.\<close>

definition d_magnitude :: "rat \<Rightarrow> int" where
  "d_magnitude x =
    (case quotient_of x of (p, q) \<Rightarrow>
       let k = int (floorlog 2 (nat p)) - int (floorlog 2 (nat q))
       in if pow2 k \<le> x then k else k - 1)"

definition d_ulp_exponent :: "rat \<Rightarrow> int" where
  "d_ulp_exponent x = max (d_magnitude x - 52) (- 1074)"

text \<open>
  The pattern of a non-negative rational: with unit in the last place \<open>2 ^ e\<close> and rounded
  significand \<open>m\<close> the pattern is \<open>(e + 1074) * 2 ^ 52 + m\<close>, for subnormal and normal numbers
  and for a significand that rounds up to the next binade alike; \<open>0x7FF0...\<close> is infinity.
\<close>

definition d_round_nonneg :: "rat \<Rightarrow> int" where
  "d_round_nonneg x =
    (if x = 0 then 0
     else let e = d_ulp_exponent x
          in min ((e + 1074) * 2 ^ 52 + round_half_even (x * pow2 (- e))) (2047 * 2 ^ 52))"

definition d_round :: "rat \<Rightarrow> double" where
  "d_round x =
    (if 0 \<le> x then word_of_int (d_round_nonneg x)
     else word_of_int (2 ^ 63 + d_round_nonneg (- x)))"

section \<open>Arithmetic\<close>

definition d_add :: "double \<Rightarrow> double \<Rightarrow> double" where
  "d_add a b = d_round (d_val a + d_val b)"

definition d_sub :: "double \<Rightarrow> double \<Rightarrow> double" where
  "d_sub a b = d_round (d_val a - d_val b)"

definition d_mul :: "double \<Rightarrow> double \<Rightarrow> double" where
  "d_mul a b = d_round (d_val a * d_val b)"

definition d_div :: "double \<Rightarrow> double \<Rightarrow> double" where
  "d_div a b = d_round (d_val a / d_val b)"

definition d_of_u64 :: "u64 \<Rightarrow> double" where
  "d_of_u64 w = d_round (of_nat (unat w))"

definition d_lit :: "rat \<Rightarrow> double" where
  "d_lit x = d_round x"

definition d_less :: "double \<Rightarrow> double \<Rightarrow> bool" where
  "d_less a b = (d_val a < d_val b)"

text \<open>\<open>std::min\<close> and \<open>std::max\<close> return their first argument unless the second is better.\<close>

definition d_min :: "double \<Rightarrow> double \<Rightarrow> double" where
  "d_min a b = (if d_less b a then b else a)"

definition d_max :: "double \<Rightarrow> double \<Rightarrow> double" where
  "d_max a b = (if d_less a b then b else a)"

end
