(* ===== verification/Units.thy ===== *)
theory Units
  imports Core_Types Binary64
begin

text \<open>
  \<open>core/units.hpp\<close>: the checked quantities.  \<open>Bytes\<close>, \<open>Count\<close> and \<open>Duration\<close> wrap a 64-bit
  unsigned integer; their \<open>+\<close> and \<open>-\<close> throw \<open>ValueError\<close> instead of wrapping around.
  \<open>Fraction\<close>, \<open>Score\<close> and \<open>HealthyScore\<close> wrap a double their constructor has checked.
\<close>

section \<open>Checked quantities\<close>

type_synonym Bytes = u64
type_synonym Count = u64
type_synonym Duration = u64

definition Bytes_add :: "Bytes \<Rightarrow> Bytes \<Rightarrow> Bytes res" where
  "Bytes_add a b =
    (if b > 0xFFFFFFFFFFFFFFFF - a then throw ''Bytes add overflow'' else Inr (a + b))"

definition Bytes_sub :: "Bytes \<Rightarrow> Bytes \<Rightarrow> Bytes res" where
  "Bytes_sub a b = (if b > a then throw ''Bytes subtract underflow'' else Inr (a - b))"

definition Count_add :: "Count \<Rightarrow> Count \<Rightarrow> Count res" where
  "Count_add a b =
    (if b > 0xFFFFFFFFFFFFFFFF - a then throw ''Count add overflow'' else Inr (a + b))"

definition Count_sub :: "Count \<Rightarrow> Count \<Rightarrow> Count res" where
  "Count_sub a b = (if b > a then throw ''Count subtract underflow'' else Inr (a - b))"

definition Duration_add :: "Duration \<Rightarrow> Duration \<Rightarrow> Duration res" where
  "Duration_add a b =
    (if b > 0xFFFFFFFFFFFFFFFF - a then throw ''Duration add overflow'' else Inr (a + b))"

definition Duration_sub :: "Duration \<Rightarrow> Duration \<Rightarrow> Duration res" where
  "Duration_sub a b = (if b > a then throw ''Duration subtract underflow'' else Inr (a - b))"

text \<open>\<open>total = total + x\<close> for every element of a sequence, starting from \<open>acc\<close>.\<close>

definition Bytes_sum :: "Bytes list \<Rightarrow> Bytes \<Rightarrow> Bytes res" where
  "Bytes_sum = fold_res (\<lambda>x acc. Bytes_add acc x)"

subsection \<open>Literal helpers\<close>

definition kibibytes :: "u64 \<Rightarrow> Bytes" where
  "kibibytes n = n * 1024"

definition mebibytes :: "u64 \<Rightarrow> Bytes" where
  "mebibytes n = n * 1024 * 1024"

definition gibibytes :: "u64 \<Rightarrow> Bytes res" where
  "gibibytes n =
    (if n > 0xFFFFFFFFFFFFFFFF div (1024 * 1024 * 1024) then throw ''gibibytes overflow''
     else Inr (n * 1024 * 1024 * 1024))"

definition milliseconds :: "u64 \<Rightarrow> Duration res" where
  "milliseconds n =
    (if n > 0xFFFFFFFFFFFFFFFF div 1000000 then throw ''milliseconds overflow''
     else Inr (n * 1000000))"

definition seconds :: "u64 \<Rightarrow> Duration res" where
  "seconds n = milliseconds (n * 1000)"

section \<open>Checked doubles\<close>

type_synonym Fraction = double
type_synonym HealthyScore = double

record Score =
  score_value :: double
  score_lo :: double
  score_hi :: double

definition mk_Fraction :: "double \<Rightarrow> Fraction res" where
  "mk_Fraction v =
    (if \<not> d_isfinite v then throw ''Fraction must be finite''
     else if d_less v (d_lit 0) \<or> d_less (d_lit 1) v then throw ''Fraction out of [0,1]''
     else Inr v)"

definition mk_Score :: "double \<Rightarrow> double \<Rightarrow> double \<Rightarrow> Score res" where
  "mk_Score v lo hi =
    (if \<not> d_isfinite v then throw ''Score must be finite''
     else if d_less v lo \<or> d_less hi v then throw ''Score out of [lo,hi]''
     else Inr \<lparr>score_value = v, score_lo = lo, score_hi = hi\<rparr>)"

definition mk_HealthyScore :: "double \<Rightarrow> HealthyScore res" where
  "mk_HealthyScore v =
    (if \<not> d_isfinite v then throw ''HealthyScore must be finite''
     else if d_less v (d_lit 0) \<or> d_less (d_lit 1) v then throw ''HealthyScore out of [0,1]''
     else Inr v)"

section \<open>The checked operations on natural numbers\<close>

lemma max_minus_u64: "unat (0xFFFFFFFFFFFFFFFF - a :: u64) = 18446744073709551615 - unat a"
proof -
  have "a \<le> (0xFFFFFFFFFFFFFFFF :: u64)"
    using unat_u64_le [of a] by (simp add: word_le_nat_alt)
  then show ?thesis by (simp add: unat_sub)
qed

lemma add_check_iff: "(b > 0xFFFFFFFFFFFFFFFF - (a :: u64)) = (2 ^ 64 \<le> unat a + unat b)"
proof -
  have "unat a \<le> 18446744073709551615" by (rule unat_u64_le)
  then show ?thesis by (auto simp: word_less_nat_alt max_minus_u64)
qed

lemma Bytes_add_iff [checked_simps]:
  "Bytes_add a b = Inr c \<longleftrightarrow> unat a + unat b < 2 ^ 64 \<and> unat c = unat a + unat b"
  by (auto simp: Bytes_add_def add_check_iff unat_add_no_overflow not_le word_unat_eq_iff)

lemma Bytes_sub_iff [checked_simps]:
  "Bytes_sub a b = Inr c \<longleftrightarrow> unat b \<le> unat a \<and> unat c = unat a - unat b"
  by (auto simp: Bytes_sub_def word_less_nat_alt unat_sub word_le_nat_alt word_unat_eq_iff)

lemma Count_add_iff [checked_simps]:
  "Count_add a b = Inr c \<longleftrightarrow> unat a + unat b < 2 ^ 64 \<and> unat c = unat a + unat b"
  by (auto simp: Count_add_def add_check_iff unat_add_no_overflow not_le word_unat_eq_iff)

lemma Count_sub_iff [checked_simps]:
  "Count_sub a b = Inr c \<longleftrightarrow> unat b \<le> unat a \<and> unat c = unat a - unat b"
  by (auto simp: Count_sub_def word_less_nat_alt unat_sub word_le_nat_alt word_unat_eq_iff)

lemma Duration_add_iff [checked_simps]:
  "Duration_add a b = Inr c \<longleftrightarrow> unat a + unat b < 2 ^ 64 \<and> unat c = unat a + unat b"
  by (auto simp: Duration_add_def add_check_iff unat_add_no_overflow not_le word_unat_eq_iff)

lemma Duration_sub_iff [checked_simps]:
  "Duration_sub a b = Inr c \<longleftrightarrow> unat b \<le> unat a \<and> unat c = unat a - unat b"
  by (auto simp: Duration_sub_def word_less_nat_alt unat_sub word_le_nat_alt word_unat_eq_iff)

lemma Bytes_add_ok: "unat a + unat b < 2 ^ 64 \<Longrightarrow> Bytes_add a b = Inr (a + b)"
  by (simp add: Bytes_add_def add_check_iff)

lemma Bytes_sub_ok: "b \<le> a \<Longrightarrow> Bytes_sub a b = Inr (a - b)"
  by (simp add: Bytes_sub_def)

lemma Count_add_ok: "unat a + unat b < 2 ^ 64 \<Longrightarrow> Count_add a b = Inr (a + b)"
  by (simp add: Count_add_def add_check_iff)

lemma Count_sub_ok: "b \<le> a \<Longrightarrow> Count_sub a b = Inr (a - b)"
  by (simp add: Count_sub_def)

text \<open>A checked sum is the exact sum, and it throws exactly when the exact sum needs more than 64 bits.\<close>

lemma Bytes_sum_simps [simp]:
  "Bytes_sum [] acc = Inr acc"
  "Bytes_sum (x # xs) acc = chain (Bytes_add acc x) (Bytes_sum xs)"
  by (simp_all add: Bytes_sum_def)

lemma Bytes_sum_iff [checked_simps]:
  "Bytes_sum xs acc = Inr s \<longleftrightarrow>
     unat acc + sum_list (map unat xs) < 2 ^ 64 \<and> unat s = unat acc + sum_list (map unat xs)"
proof (induction xs arbitrary: acc)
  case Nil
  have "unat acc < 2 ^ 64" by (rule unat_u64_less)
  then show ?case by (auto simp: word_unat_eq_iff)
next
  case (Cons x xs)
  show ?case
  proof (cases "unat acc + unat x < 2 ^ 64")
    case True
    then show ?thesis
      by (simp add: Cons.IH Bytes_add_ok unat_add_no_overflow add.assoc)
  next
    case False
    then show ?thesis
      by (auto simp: chain_Inr_iff Bytes_add_iff)
  qed
qed

end
