(* ===== verification/Ordered_Map.thy ===== *)
theory Ordered_Map
  imports FG_Prelude
begin

text \<open>
  The ordered containers of the C++ standard library the program uses.  A \<open>std::map\<close> is the
  list of its entries in key order, which is also its iteration order; a \<open>std::multiset\<close> is
  the sorted list of its elements.  An iterator into a map is a position in that list: the
  entries before it, the entry, and the entries after it.

  The locale \<open>ordered_store\<close> is the contract of \<open>std::map\<close> that the layout and the
  coordinator rely on; it is interpreted below on the list operations.
\<close>

section \<open>Operations\<close>

type_synonym ('k, 'v) omap = "('k \<times> 'v) list"

definition om_keys :: "('k, 'v) omap \<Rightarrow> 'k list" where
  "om_keys m = map fst m"

definition om_inv :: "('k :: linorder, 'v) omap \<Rightarrow> bool" where
  "om_inv m = sorted_wrt (<) (om_keys m)"

text \<open>\<open>find\<close> and \<open>count\<close>.\<close>

definition om_find :: "('k, 'v) omap \<Rightarrow> 'k \<Rightarrow> 'v option" where
  "om_find m k = map_of m k"

text \<open>\<open>m[k] = v\<close> (insert or overwrite).\<close>

definition om_put :: "'k :: linorder \<Rightarrow> 'v \<Rightarrow> ('k, 'v) omap \<Rightarrow> ('k, 'v) omap" where
  "om_put k v m = takeWhile (\<lambda>e. fst e < k) m @ (k, v) # dropWhile (\<lambda>e. fst e \<le> k) m"

text \<open>\<open>emplace\<close>: an entry already there is kept.\<close>

definition om_emplace :: "'k :: linorder \<Rightarrow> 'v \<Rightarrow> ('k, 'v) omap \<Rightarrow> ('k, 'v) omap" where
  "om_emplace k v m = (if om_find m k = None then om_put k v m else m)"

definition om_erase :: "'k \<Rightarrow> ('k, 'v) omap \<Rightarrow> ('k, 'v) omap" where
  "om_erase k m = filter (\<lambda>e. fst e \<noteq> k) m"

text \<open>The value of \<open>m[k]\<close> and the map after it: a missing key is inserted with the default.\<close>

definition om_index :: "'v \<Rightarrow> 'k :: linorder \<Rightarrow> ('k, 'v) omap \<Rightarrow> 'v \<times> ('k, 'v) omap" where
  "om_index d k m = (case om_find m k of Some v \<Rightarrow> (v, m) | None \<Rightarrow> (d, om_put k d m))"

text \<open>The iterator \<open>find(k)\<close> with what lies before and after it; \<open>None\<close> is \<open>end()\<close>.\<close>

definition om_locate ::
  "'k :: linorder \<Rightarrow> ('k, 'v) omap \<Rightarrow> (('k, 'v) omap \<times> 'v \<times> ('k, 'v) omap) option" where
  "om_locate k m =
    (case dropWhile (\<lambda>e. fst e < k) m of
       [] \<Rightarrow> None
     | e # after \<Rightarrow>
         if fst e = k then Some (takeWhile (\<lambda>e. fst e < k) m, snd e, after) else None)"

text \<open>The entry before \<open>upper_bound(k)\<close>; \<open>None\<close> when \<open>upper_bound(k)\<close> is \<open>begin()\<close>.\<close>

definition om_before_upper_bound :: "'k :: linorder \<Rightarrow> ('k, 'v) omap \<Rightarrow> ('k \<times> 'v) option" where
  "om_before_upper_bound k m =
    (case takeWhile (\<lambda>e. fst e \<le> k) m of [] \<Rightarrow> None | es \<Rightarrow> Some (last es))"

text \<open>\<open>std::multiset\<close>: \<open>insert\<close>, \<open>erase(find(x))\<close>, \<open>*rbegin()\<close>.\<close>

definition ms_insert :: "'a :: linorder \<Rightarrow> 'a list \<Rightarrow> 'a list" where
  "ms_insert x xs = takeWhile (\<lambda>y. y \<le> x) xs @ x # dropWhile (\<lambda>y. y \<le> x) xs"

definition ms_erase_one :: "'a \<Rightarrow> 'a list \<Rightarrow> 'a list" where
  "ms_erase_one x xs = remove1 x xs"

section \<open>The contract of an ordered store\<close>

lemma keyed_sorted_unique:
  assumes "sorted_wrt (<) (map fst xs)" and "sorted_wrt (<) (map fst ys)" and "set xs = set ys"
  shows "xs = (ys :: ('k :: linorder \<times> 'v) list)"
  using assms
proof (induction xs arbitrary: ys)
  case Nil
  then show ?case by simp
next
  case (Cons x xs)
  then obtain y ys' where ys: "ys = y # ys'" by (cases ys) auto
  have lt: "\<forall>z \<in> set xs. fst x < fst z" "\<forall>z \<in> set ys'. fst y < fst z"
    using Cons.prems ys by auto
  have "x = y"
    using Cons.prems(3) ys lt by (metis list.set_intros(1) not_less_iff_gr_or_eq set_ConsD)
  with Cons.prems(3) ys lt have "set xs = set ys'"
    by (metis insert_ident less_irrefl list.simps(15))
  with Cons ys \<open>x = y\<close> show ?case by auto
qed

locale ordered_store =
  fixes lookup :: "'m \<Rightarrow> 'k :: linorder \<Rightarrow> 'v option"
    and put :: "'k \<Rightarrow> 'v \<Rightarrow> 'm \<Rightarrow> 'm"
    and erase :: "'k \<Rightarrow> 'm \<Rightarrow> 'm"
    and entries :: "'m \<Rightarrow> ('k \<times> 'v) list"
    and invar :: "'m \<Rightarrow> bool"
  assumes lookup_put: "invar m \<Longrightarrow> lookup (put k v m) = (lookup m)(k \<mapsto> v)"
    and lookup_erase: "invar m \<Longrightarrow> lookup (erase k m) = (lookup m)(k := None)"
    and invar_put: "invar m \<Longrightarrow> invar (put k v m)"
    and invar_erase: "invar m \<Longrightarrow> invar (erase k m)"
    and lookup_entries: "invar m \<Longrightarrow> lookup m k = Some v \<longleftrightarrow> (k, v) \<in> set (entries m)"
    and entries_sorted: "invar m \<Longrightarrow> sorted_wrt (<) (map fst (entries m))"
begin

lemma entries_determined:
  assumes "invar m" and "invar n" and "lookup m = lookup n"
  shows "entries m = entries n"
proof -
  have "set (entries m) = set (entries n)"
    using assms lookup_entries by (metis subsetI subset_antisym surj_pair)
  then show ?thesis
    using assms(1,2) by (intro keyed_sorted_unique entries_sorted)
qed

lemma put_erase_entries:
  assumes "invar m" and "lookup m k = None"
  shows "entries (erase k (put k v m)) = entries m"
  using assms
  by (intro entries_determined) (auto simp: lookup_put lookup_erase invar_put invar_erase)

lemma put_commute:
  assumes "invar m" and "j \<noteq> k"
  shows "entries (put j v (put k w m)) = entries (put k w (put j v m))"
  using assms
  by (intro entries_determined) (auto simp: lookup_put invar_put fun_upd_twist)

lemma erase_commute:
  assumes "invar m"
  shows "entries (erase j (erase k m)) = entries (erase k (erase j m))"
  using assms
  by (intro entries_determined) (auto simp: lookup_erase invar_erase fun_upd_twist)

end

section \<open>The list operations meet the contract\<close>

lemma om_inv_simps [simp]:
  "om_inv []"
  "om_inv (e # m) \<longleftrightarrow> (\<forall>e' \<in> set m. fst e < fst e') \<and> om_inv m"
  by (auto simp: om_inv_def om_keys_def)

lemma om_inv_append:
  "om_inv (m @ n) \<longleftrightarrow> om_inv m \<and> om_inv n \<and> (\<forall>e \<in> set m. \<forall>e' \<in> set n. fst e < fst e')"
  by (auto simp: om_inv_def om_keys_def sorted_wrt_append)

lemma om_inv_distinct: "om_inv m \<Longrightarrow> distinct (map fst m)"
  by (simp add: om_inv_def om_keys_def strict_sorted_iff)

lemma om_find_simps [simp]:
  "om_find [] k = None"
  "om_find (e # m) k = (if fst e = k then Some (snd e) else om_find m k)"
  by (auto simp: om_find_def)

lemma om_find_in_set: "om_inv m \<Longrightarrow> om_find m k = Some v \<longleftrightarrow> (k, v) \<in> set m"
  unfolding om_find_def by (simp add: om_inv_distinct)

lemma om_find_None: "om_find m k = None \<longleftrightarrow> k \<notin> fst ` set m"
  by (simp add: om_find_def map_of_eq_None_iff)

lemma om_find_append:
  "om_find (m @ n) k = (case om_find m k of Some v \<Rightarrow> Some v | None \<Rightarrow> om_find n k)"
  by (induction m) auto

text \<open>
  Where the new key belongs between two parts of the list, \<open>om_put\<close> splices the entry in
  there; every proof about \<open>om_put\<close> goes through this.
\<close>

lemma om_put_splice:
  assumes "\<forall>e \<in> set m. fst e < k" and "\<forall>e \<in> set n. k < fst e"
  shows "om_put k v (m @ n) = m @ (k, v) # n"
proof -
  have "takeWhile (\<lambda>e. fst e < k) (m @ n) = m @ takeWhile (\<lambda>e. fst e < k) n"
    using assms(1) by (simp add: takeWhile_append)
  moreover have "takeWhile (\<lambda>e. fst e < k) n = []"
    using assms(2) by (cases n) auto
  moreover have "dropWhile (\<lambda>e. fst e \<le> k) (m @ n) = dropWhile (\<lambda>e. fst e \<le> k) n"
    using assms(1) by (induction m) auto
  moreover have "dropWhile (\<lambda>e. fst e \<le> k) n = n"
    using assms(2) by (cases n) auto
  ultimately show ?thesis by (simp add: om_put_def)
qed

lemma om_put_overwrite:
  assumes "\<forall>e \<in> set m. fst e < k" and "\<forall>e \<in> set n. k < fst e"
  shows "om_put k v (m @ (k, w) # n) = m @ (k, v) # n"
proof -
  have "takeWhile (\<lambda>e. fst e < k) (m @ (k, w) # n) = m"
    using assms(1) by (intro takeWhile_dropWhile_split) auto
  moreover have "dropWhile (\<lambda>e. fst e \<le> k) (m @ (k, w) # n) = dropWhile (\<lambda>e. fst e \<le> k) n"
    using assms(1) by (induction m) auto
  moreover have "dropWhile (\<lambda>e. fst e \<le> k) n = n"
    using assms(2) by (cases n) auto
  ultimately show ?thesis by (simp add: om_put_def)
qed

text \<open>Every ordered map splits at a key into the smaller part, the entry if any, and the larger part.\<close>

lemma om_split_at:
  assumes "om_inv m"
  obtains (absent) lo hi where "m = lo @ hi" "\<forall>e \<in> set lo. fst e < k" "\<forall>e \<in> set hi. k < fst e"
      "om_find m k = None"
  | (present) lo v hi where "m = lo @ (k, v) # hi" "\<forall>e \<in> set lo. fst e < k"
      "\<forall>e \<in> set hi. k < fst e" "om_find m k = Some v"
proof (cases "om_find m k")
  case None
  define lo where "lo = filter (\<lambda>e. fst e < k) m"
  define hi where "hi = filter (\<lambda>e. k < fst e) m"
  have m: "m = lo @ hi"
    using assms None unfolding lo_def hi_def
  proof (induction m)
    case (Cons e m)
    show ?case
    proof (cases "fst e < k")
      case True
      with Cons show ?thesis by (auto split: if_splits)
    next
      case False
      with Cons.prems have "k < fst e" by (auto split: if_splits)
      with Cons.prems have "\<forall>e' \<in> set m. k < fst e'" by auto
      then have "filter (\<lambda>e. fst e < k) m = []" and "filter (\<lambda>e. k < fst e) m = m"
        by (auto simp: filter_empty_conv filter_id_conv)
      with \<open>k < fst e\<close> show ?thesis by auto
    qed
  qed simp
  have "\<forall>e \<in> set lo. fst e < k" and "\<forall>e \<in> set hi. k < fst e"
    by (simp_all add: lo_def hi_def)
  with m show thesis using None by (rule absent)
next
  case (Some v)
  with assms have "(k, v) \<in> set m" by (simp add: om_find_in_set)
  then obtain lo hi where m: "m = lo @ (k, v) # hi" by (meson split_list)
  with assms have "\<forall>e \<in> set lo. fst e < k" "\<forall>e \<in> set hi. k < fst e"
    by (auto simp: om_inv_append)
  with present m Some show thesis by blast
qed

lemma om_inv_put:
  assumes "om_inv m"
  shows "om_inv (om_put k v m)"
proof (cases rule: om_split_at [OF assms, of k])
  case (1 lo hi)
  with assms show ?thesis by (auto simp: om_put_splice om_inv_append)
next
  case (2 lo w hi)
  with assms show ?thesis by (auto simp: om_put_overwrite om_inv_append)
qed

lemma om_find_put:
  assumes "om_inv m"
  shows "om_find (om_put k v m) = (om_find m)(k \<mapsto> v)"
proof (cases rule: om_split_at [OF assms, of k])
  case (1 lo hi)
  then have "om_find lo k = None" by (auto simp: om_find_None)
  with 1 show ?thesis
    by (auto simp: om_put_splice fun_eq_iff om_find_append split: option.splits)
next
  case (2 lo w hi)
  then have "om_find lo k = None" by (auto simp: om_find_None)
  with 2 show ?thesis
    by (auto simp: om_put_overwrite fun_eq_iff om_find_append split: option.splits)
qed

lemma om_inv_erase: "om_inv m \<Longrightarrow> om_inv (om_erase k m)"
  by (auto simp: om_inv_def om_keys_def om_erase_def sorted_wrt_map intro: sorted_wrt_filter)

lemma om_find_erase: "om_find (om_erase k m) = (om_find m)(k := None)"
  by (induction m) (auto simp: om_erase_def fun_eq_iff)

lemma om_inv_keys: "om_inv m \<Longrightarrow> sorted_wrt (<) (map fst m)"
  by (simp add: om_inv_def om_keys_def)

interpretation std_map: ordered_store om_find om_put om_erase "\<lambda>m. m" om_inv
  by unfold_locales
    (simp_all add: om_find_put om_find_erase om_inv_put om_inv_erase om_find_in_set om_inv_keys)

subsection \<open>Consequences the components use\<close>

lemma om_erase_absent: "om_find m k = None \<Longrightarrow> om_erase k m = m"
  by (auto simp: om_erase_def om_find_None filter_id_conv)

lemma om_erase_middle:
  "om_inv (m @ (k, v) # n) \<Longrightarrow> om_erase k (m @ (k, v) # n) = m @ n"
  by (auto simp: om_erase_def om_inv_append filter_id_conv intro!: arg_cong2 [where f = "(@)"])

lemma om_find_map_values: "om_find (map (\<lambda>e. (fst e, f (snd e))) m) k = map_option f (om_find m k)"
  by (induction m) auto

lemma om_put_mset:
  assumes "om_inv m" and "om_find m k = None"
  shows "mset (om_put k v m) = add_mset (k, v) (mset m)"
  using assms(2) by (cases rule: om_split_at [OF assms(1), of k]) (auto simp: om_put_splice)

lemma om_erase_mset:
  assumes "om_inv m" and "om_find m k = Some v"
  shows "mset m = add_mset (k, v) (mset (om_erase k m))"
proof (cases rule: om_split_at [OF assms(1), of k])
  case 1
  with assms(2) show ?thesis by simp
next
  case (2 lo w hi)
  with assms have "om_erase k m = lo @ hi" by (simp add: om_erase_middle)
  with 2 assms(2) show ?thesis by simp
qed

lemma om_emplace_fresh: "om_find m k = None \<Longrightarrow> om_emplace k v m = om_put k v m"
  by (simp add: om_emplace_def)

lemma om_emplace_splice:
  assumes "\<forall>e \<in> set m. fst e < k" and "\<forall>e \<in> set n. k < fst e"
  shows "om_emplace k v (m @ n) = m @ (k, v) # n"
proof -
  have "om_find (m @ n) k = None" using assms by (auto simp: om_find_None)
  then show ?thesis by (simp add: om_emplace_fresh om_put_splice [OF assms])
qed

lemma om_locate_middle:
  assumes "om_inv (m @ (k, v) # n)"
  shows "om_locate k (m @ (k, v) # n) = Some (m, v, n)"
proof -
  have "\<forall>e \<in> set m. fst e < k" using assms by (auto simp: om_inv_append)
  then have "takeWhile (\<lambda>e. fst e < k) (m @ (k, v) # n) = m"
    "dropWhile (\<lambda>e. fst e < k) (m @ (k, v) # n) = (k, v) # n"
    by (intro takeWhile_dropWhile_split; simp)+
  then show ?thesis by (simp add: om_locate_def)
qed

lemma om_index_present: "om_find m k = Some v \<Longrightarrow> om_index d k m = (v, m)"
  by (simp add: om_index_def)

lemma om_before_upper_bound_middle:
  assumes "om_inv (m @ (j, v) # n)" and "j \<le> k" and "\<forall>e \<in> set n. k < fst e"
  shows "om_before_upper_bound k (m @ (j, v) # n) = Some (j, v)"
proof -
  have "\<forall>e \<in> set (m @ [(j, v)]). fst e \<le> k"
    using assms(1,2) by (auto simp: om_inv_append)
  moreover have "takeWhile (\<lambda>e. fst e \<le> k) n = []"
    using assms(3) by (cases n) auto
  ultimately have "takeWhile (\<lambda>e. fst e \<le> k) ((m @ [(j, v)]) @ n) = m @ [(j, v)]"
    by (subst takeWhile_append2) auto
  then have "takeWhile (\<lambda>e. fst e \<le> k) (m @ (j, v) # n) = m @ [(j, v)]"
    by simp
  then show ?thesis
    by (cases m) (simp_all add: om_before_upper_bound_def)
qed

lemma ms_insert_mset [simp]: "mset (ms_insert x xs) = add_mset x (mset xs)"
proof -
  have "mset xs = mset (takeWhile (\<lambda>y. y \<le> x) xs) + mset (dropWhile (\<lambda>y. y \<le> x) xs)"
    by (metis mset_append takeWhile_dropWhile_id)
  then show ?thesis by (simp add: ms_insert_def)
qed

lemma ms_insert_sorted: "sorted xs \<Longrightarrow> sorted (ms_insert x xs)"
proof -
  assume s: "sorted xs"
  have "\<forall>y \<in> set (dropWhile (\<lambda>y. y \<le> x) xs). x \<le> y"
  proof (cases "dropWhile (\<lambda>y. y \<le> x) xs")
    case (Cons z zs)
    then have "\<not> z \<le> x" by (metis hd_dropWhile list.distinct(1) list.sel(1))
    moreover have "sorted (z # zs)" using s Cons by (metis sorted_dropWhile)
    ultimately show ?thesis using Cons by auto
  next
    case Nil
    show ?thesis by (subst Nil) simp
  qed
  moreover have "\<forall>y \<in> set (takeWhile (\<lambda>y. y \<le> x) xs). y \<le> x"
    by (auto dest: set_takeWhileD)
  ultimately show ?thesis
    using s unfolding ms_insert_def
    by (auto simp: sorted_append sorted_takeWhile sorted_dropWhile intro: order_trans)
qed

lemma ms_erase_one_mset [simp]: "mset (ms_erase_one x xs) = mset xs - {#x#}"
  by (simp add: ms_erase_one_def)

lemma ms_erase_one_sorted: "sorted xs \<Longrightarrow> sorted (ms_erase_one x xs)"
  by (simp add: ms_erase_one_def sorted_remove1)

end
