(* ===== verification/Layout.thy ===== *)
theory Layout
  imports Units Ordered_Map
begin

text \<open>
  \<open>resource/allocation.hpp\<close>, \<open>resource/movability.hpp\<close> and \<open>resource/layout.hpp\<close>: the
  canonical block layout of one resource as an interval map.

  \<open>insert_allocation\<close>, \<open>update_allocation\<close> and \<open>remove_allocation\<close> return a boolean, an
  error text and the mutated layout; here \<open>(None, l')\<close> is \<open>true\<close> with the new layout and
  \<open>(Some err, l')\<close> is \<open>false\<close> with the error.  A \<open>ValueError\<close> of the checked arithmetic is
  \<open>Inl\<close>.  The invariant \<open>layout_inv\<close>, the fact that every operation keeps it and never
  throws under it, and the meaning of the queries are in \<open>Layout_Correct\<close>.
\<close>

section \<open>Allocations\<close>

record Allocation =
  al_id :: AllocationId
  al_generation :: AllocationGeneration
  al_owner :: AllocationOwnerId
  al_offset :: Bytes
  al_length :: Bytes
  al_movability :: Movability
  al_reservation :: "ReservationId option"
  al_policy_protected :: bool
  al_workload :: "WorkloadId option"
  al_provenance :: Provenance

definition al_end :: "Allocation \<Rightarrow> Bytes res" where
  "al_end a = Bytes_add (al_offset a) (al_length a)"

fun may_move :: "Movability \<Rightarrow> bool" where
  "may_move MV_MOVABLE_LIVE = True"
| "may_move MV_MOVABLE_AFTER_QUIESCE = True"
| "may_move MV_MOVABLE_AFTER_CHECKPOINT = True"
| "may_move MV_RECOMPUTABLE = True"
| "may_move MV_EVICTABLE = True"
| "may_move MV_RELEASEABLE = True"
| "may_move MV_IMMOVABLE = False"
| "may_move MV_RESERVATION_PROTECTED = False"
| "may_move MV_POLICY_PROTECTED = False"
| "may_move MV_UNKNOWN = False"

section \<open>The layout\<close>

record Region =
  rg_kind :: RegionKind
  rg_offset :: Bytes
  rg_length :: Bytes
  rg_alloc_id :: "AllocationId option"

record ResourceLayout =
  lay_capacity :: Bytes
  lay_regions :: "(Bytes, Region) omap"
  lay_free_lengths :: "Bytes list"
  lay_alloc_offsets :: "(AllocationId, Bytes) omap"
  lay_allocations :: "(AllocationId, Allocation) omap"
  lay_free_capacity :: Bytes
  lay_alloc_count :: Count

definition free_region :: "Bytes \<Rightarrow> Bytes \<Rightarrow> Region" where
  "free_region off len =
    \<lparr>rg_kind = RK_FREE, rg_offset = off, rg_length = len, rg_alloc_id = None\<rparr>"

definition allocated_region :: "Bytes \<Rightarrow> Bytes \<Rightarrow> AllocationId \<Rightarrow> Region" where
  "allocated_region off len i =
    \<lparr>rg_kind = RK_ALLOCATED, rg_offset = off, rg_length = len, rg_alloc_id = Some i\<rparr>"

definition empty_layout :: ResourceLayout where
  "empty_layout = \<lparr>lay_capacity = 0, lay_regions = [], lay_free_lengths = [], lay_alloc_offsets = [],
     lay_allocations = [], lay_free_capacity = 0, lay_alloc_count = 0\<rparr>"

definition mk_layout :: "Bytes \<Rightarrow> ResourceLayout" where
  "mk_layout capacity =
    (let l = empty_layout\<lparr>lay_capacity := capacity\<rparr>
     in if capacity = 0 then l
        else l\<lparr>lay_regions := om_emplace 0 (free_region 0 capacity) (lay_regions l),
               lay_free_lengths := ms_insert capacity (lay_free_lengths l),
               lay_free_capacity := capacity\<rparr>)"

subsection \<open>Queries\<close>

definition total_capacity :: "ResourceLayout \<Rightarrow> Bytes" where
  "total_capacity l = lay_capacity l"

definition free_capacity :: "ResourceLayout \<Rightarrow> Bytes" where
  "free_capacity l = lay_free_capacity l"

definition used_capacity :: "ResourceLayout \<Rightarrow> Bytes res" where
  "used_capacity l = Bytes_sub (lay_capacity l) (lay_free_capacity l)"

definition largest_free_block :: "ResourceLayout \<Rightarrow> Bytes" where
  "largest_free_block l =
    (if lay_free_lengths l = [] then 0 else last (lay_free_lengths l))"

definition allocation_count :: "ResourceLayout \<Rightarrow> Count" where
  "allocation_count l = lay_alloc_count l"

definition free_block_count :: "ResourceLayout \<Rightarrow> Count" where
  "free_block_count l = of_nat (length (lay_free_lengths l))"

definition find_allocation :: "ResourceLayout \<Rightarrow> AllocationId \<Rightarrow> Allocation option" where
  "find_allocation l i = om_find (lay_allocations l) i"

subsection \<open>Private helpers\<close>

text \<open>\<open>off.value() + len.value()\<close> is a plain 64-bit addition: it wraps.\<close>

definition validate_geometry :: "ResourceLayout \<Rightarrow> Bytes \<Rightarrow> Bytes \<Rightarrow> string option" where
  "validate_geometry l off len =
    (if len = 0 then Some ''zero-length allocation''
     else if off + len > lay_capacity l \<or> off > lay_capacity l
       then Some ''allocation out of bounds''
     else if len > lay_capacity l - off then Some ''allocation end overflow''
     else None)"

definition consume_free :: "Bytes \<Rightarrow> ResourceLayout \<Rightarrow> ResourceLayout" where
  "consume_free len l = l\<lparr>lay_free_lengths := ms_erase_one len (lay_free_lengths l)\<rparr>"

definition region_containing :: "ResourceLayout \<Rightarrow> Bytes \<Rightarrow> (Bytes \<times> Region) option res" where
  "region_containing l off =
    (case om_before_upper_bound off (lay_regions l) of
       None \<Rightarrow> Inr None
     | Some (k, r) \<Rightarrow>
         if rg_offset r \<le> off
         then chain (Bytes_add (rg_offset r) (rg_length r))
                (\<lambda>e. Inr (if off < e then Some (k, r) else None))
         else Inr None)"

subsection \<open>Operations\<close>

definition insert_allocation ::
  "ResourceLayout \<Rightarrow> Allocation \<Rightarrow> (string option \<times> ResourceLayout) res" where
  "insert_allocation l a =
    (case validate_geometry l (al_offset a) (al_length a) of
       Some err \<Rightarrow> Inr (Some err, l)
     | None \<Rightarrow>
       if om_find (lay_allocations l) (al_id a) \<noteq> None
       then Inr (Some ''duplicate allocation id'', l)
       else chain (region_containing l (al_offset a)) (\<lambda>it.
         case it of
           None \<Rightarrow> Inr (Some ''no region contains allocation offset'', l)
         | Some (k, r) \<Rightarrow>
           if rg_kind r \<noteq> RK_FREE
           then Inr (Some ''allocation overlaps an existing allocation'', l)
           else let free_start = rg_offset r; free_len = rg_length r in
             chain (Bytes_add free_start free_len) (\<lambda>free_end.
             chain (Bytes_add (al_offset a) (al_length a)) (\<lambda>a_end.
             if a_end > free_end then Inr (Some ''allocation exceeds free region'', l)
             else
               let l1 = consume_free free_len l;
                   l2 = l1\<lparr>lay_regions := om_erase k (lay_regions l1)\<rparr>
               in
               chain (if al_offset a > free_start
                      then chain (Bytes_sub (al_offset a) free_start) (\<lambda>left.
                        Inr (l2\<lparr>lay_regions :=
                                 om_emplace free_start (free_region free_start left) (lay_regions l2),
                               lay_free_lengths := ms_insert left (lay_free_lengths l2)\<rparr>))
                      else Inr l2) (\<lambda>l3.
               let l4 = l3\<lparr>lay_regions :=
                             om_emplace (al_offset a)
                               (allocated_region (al_offset a) (al_length a) (al_id a))
                               (lay_regions l3)\<rparr>
               in
               chain (if a_end < free_end
                      then chain (Bytes_sub free_end a_end) (\<lambda>right.
                        Inr (l4\<lparr>lay_regions :=
                                 om_emplace a_end (free_region a_end right) (lay_regions l4),
                               lay_free_lengths := ms_insert right (lay_free_lengths l4)\<rparr>))
                      else Inr l4) (\<lambda>l5.
               chain (Bytes_sub (lay_free_capacity l5) (al_length a)) (\<lambda>fc.
               chain (Count_add (lay_alloc_count l5) 1) (\<lambda>n.
               Inr (None,
                 l5\<lparr>lay_allocations := om_emplace (al_id a) a (lay_allocations l5),
                    lay_alloc_offsets := om_put (al_id a) (al_offset a) (lay_alloc_offsets l5),
                    lay_free_capacity := fc,
                    lay_alloc_count := n\<rparr>)))))))))"

definition update_allocation ::
  "ResourceLayout \<Rightarrow> Allocation \<Rightarrow> string option \<times> ResourceLayout" where
  "update_allocation l a =
    (case om_find (lay_allocations l) (al_id a) of
       None \<Rightarrow> (Some ''allocation not found'', l)
     | Some b \<Rightarrow>
       if al_offset b \<noteq> al_offset a \<or> al_length b \<noteq> al_length a
       then (Some ''geometry change requires remove+insert'', l)
       else (None, l\<lparr>lay_allocations := om_put (al_id a) a (lay_allocations l),
                     lay_alloc_offsets := om_put (al_id a) (al_offset a) (lay_alloc_offsets l)\<rparr>))"

definition remove_allocation ::
  "ResourceLayout \<Rightarrow> AllocationId \<Rightarrow> (string option \<times> ResourceLayout) res" where
  "remove_allocation l i =
    (case om_find (lay_allocations l) i of
       None \<Rightarrow> Inr (Some ''allocation not found'', l)
     | Some a \<Rightarrow>
       case om_index 0 i (lay_alloc_offsets l) of (off, offsets) \<Rightarrow>
       let len = al_length a; l0 = l\<lparr>lay_alloc_offsets := offsets\<rparr> in
       case om_locate off (lay_regions l0) of
         None \<Rightarrow> Inr (Some ''layout inconsistent with allocation registry'', l0)
       | Some (before, r, after) \<Rightarrow>
         if rg_kind r \<noteq> RK_ALLOCATED \<or> rg_alloc_id r \<noteq> Some i
         then Inr (Some ''layout inconsistent with allocation registry'', l0)
         else
           chain (Bytes_add off len) (\<lambda>own_end.
           let (new_start, l1) =
             (if before \<noteq> [] \<and> rg_kind (snd (last before)) = RK_FREE
              then (rg_offset (snd (last before)),
                    let l' = consume_free (rg_length (snd (last before))) l0
                    in l'\<lparr>lay_regions := om_erase (fst (last before)) (lay_regions l')\<rparr>)
              else (off, l0))
           in
           chain (if after \<noteq> [] \<and> rg_kind (snd (hd after)) = RK_FREE
                  then chain (Bytes_add (rg_offset (snd (hd after))) (rg_length (snd (hd after))))
                    (\<lambda>e. Inr (e,
                       let l' = consume_free (rg_length (snd (hd after))) l1
                       in l'\<lparr>lay_regions := om_erase (fst (hd after)) (lay_regions l')\<rparr>))
                  else Inr (own_end, l1)) (\<lambda>(new_end, l2).
           let l3 = l2\<lparr>lay_regions := om_erase off (lay_regions l2)\<rparr> in
           chain (Bytes_sub new_end new_start) (\<lambda>merged.
           let l4 = l3\<lparr>lay_regions :=
                         om_emplace new_start (free_region new_start merged) (lay_regions l3),
                       lay_free_lengths := ms_insert merged (lay_free_lengths l3)\<rparr>
           in
           chain (Bytes_add (lay_free_capacity l4) len) (\<lambda>fc.
           chain (Count_sub (lay_alloc_count l4) 1) (\<lambda>n.
           Inr (None,
             l4\<lparr>lay_free_capacity := fc,
                lay_alloc_count := n,
                lay_allocations := om_erase i (lay_allocations l4),
                lay_alloc_offsets := om_erase i (lay_alloc_offsets l4)\<rparr>)))))))"

end
