(* ===== verification/Domain_Model.thy ===== *)
theory Domain_Model
  imports Layout
begin

text \<open>
  The plain data of the program: \<open>resource/resource.hpp\<close>, \<open>domain/generations.hpp\<close>,
  \<open>fit/demand.hpp\<close>, \<open>snapshot/reservation.hpp\<close>, \<open>metrics/metrics.hpp\<close>, \<open>snapshot/snapshot.hpp\<close>,
  \<open>policy/policy.hpp\<close>, \<open>planner/plan.hpp\<close>, \<open>fit/fit.hpp\<close> and \<open>verification/verification.hpp\<close>.
  A struct is a record with the members in the order of the source; a value-initialised struct
  is a constant \<open>default_...\<close>.  An \<open>int64_t\<close> that is only compared and transmitted is its
  64-bit pattern, a \<open>time_point\<close> its tick count.
\<close>

type_synonym i64 = "64 word"

section \<open>Resources and generations\<close>

record Resource =
  res_id :: ResourceId
  res_generation :: ResourceGeneration
  res_pool :: ResourcePoolId
  res_device :: DeviceId
  res_node :: NodeId
  res_memory_domain :: MemoryDomainId
  res_topology_group :: "i64 option"
  res_domain :: Domain
  res_capacity :: Bytes
  res_provenance :: Provenance

record ResourcePool =
  pool_id :: ResourcePoolId
  pool_generation :: ResourcePoolGeneration
  pool_name :: string
  pool_domain :: Domain

record KnownResourceGenerations =
  kg_resource :: ResourceGeneration
  kg_allocation :: AllocationGeneration
  kg_reservation :: ReservationGeneration
  kg_topology :: TopologyGeneration
  kg_capacity :: CapacityModelGeneration
  kg_capability :: CapabilityGeneration
  kg_placement :: PlacementGeneration
  kg_health :: HealthGeneration
  kg_policy :: PolicyGeneration

definition generations_complete :: "KnownResourceGenerations \<Rightarrow> bool" where
  "generations_complete g \<longleftrightarrow>
     gen_is_valid (kg_resource g) \<and> gen_is_valid (kg_allocation g) \<and>
     gen_is_valid (kg_reservation g) \<and> gen_is_valid (kg_topology g) \<and>
     gen_is_valid (kg_capacity g)"

definition default_generations :: KnownResourceGenerations where
  "default_generations = \<lparr>kg_resource = Generation 0, kg_allocation = Generation 0,
     kg_reservation = Generation 0, kg_topology = Generation 0, kg_capacity = Generation 0,
     kg_capability = Generation 0, kg_placement = Generation 0, kg_health = Generation 0,
     kg_policy = Generation 0\<rparr>"

section \<open>Demands and reservations\<close>

record WorkloadDemand =
  dem_id :: WorkloadDemandId
  dem_generation :: WorkloadDemandGeneration
  dem_accelerator_count :: Count
  dem_per_device_memory :: Bytes
  dem_aggregate_memory :: Bytes
  dem_contiguous_memory :: Bytes
  dem_pinned_memory :: Bytes
  dem_topology_group :: "i64 option"
  dem_locality_group :: "i64 option"
  dem_requires_highspeed_comm_path :: bool
  dem_reservation_duration :: "Duration option"
  dem_requires_model_residency :: bool
  dem_requires_adapter_residency :: bool
  dem_elastic_min :: "Bytes option"
  dem_elastic_max :: "Bytes option"

definition default_demand :: WorkloadDemand where
  "default_demand = \<lparr>dem_id = TypedId 0, dem_generation = Generation 0, dem_accelerator_count = 0,
     dem_per_device_memory = 0, dem_aggregate_memory = 0, dem_contiguous_memory = 0,
     dem_pinned_memory = 0, dem_topology_group = None, dem_locality_group = None,
     dem_requires_highspeed_comm_path = False, dem_reservation_duration = None,
     dem_requires_model_residency = False, dem_requires_adapter_residency = False,
     dem_elastic_min = None, dem_elastic_max = None\<rparr>"

record Reservation =
  rv_id :: ReservationId
  rv_generation :: ReservationGeneration
  rv_resource :: ResourceId
  rv_start :: Duration
  rv_end :: Duration
  rv_amount :: Bytes
  rv_hard :: bool
  rv_policy_protected :: bool
  rv_provenance :: Provenance

definition intervals_overlap :: "Duration \<Rightarrow> Duration \<Rightarrow> Duration \<Rightarrow> Duration \<Rightarrow> bool" where
  "intervals_overlap a_start a_end b_start b_end =
    (if a_end \<le> b_start then False else if b_end \<le> a_start then False else True)"

section \<open>Metrics and snapshots\<close>

record FragmentationMetrics =
  met_total_capacity :: Bytes
  met_used_capacity :: Bytes
  met_free_capacity :: Bytes
  met_allocation_count :: Count
  met_block_count :: Count
  met_largest_free_block :: Bytes
  met_external_fragmentation_ratio :: double
  met_usable_fraction :: double
  met_protected_capacity :: Bytes
  met_movable_capacity :: Bytes
  met_reclaimable_capacity :: Bytes
  met_stranded_capacity :: Bytes
  met_has_workload :: bool
  met_workload_usable_capacity :: Bytes
  met_workload_stranded_capacity :: Bytes
  met_reclaimable_opportunity :: Bytes
  met_workload_fits :: bool
  met_dominant_categories :: "FragmentationCategory list"

definition default_metrics :: FragmentationMetrics where
  "default_metrics = \<lparr>met_total_capacity = 0, met_used_capacity = 0, met_free_capacity = 0,
     met_allocation_count = 0, met_block_count = 0, met_largest_free_block = 0,
     met_external_fragmentation_ratio = d_lit 0, met_usable_fraction = d_lit 1,
     met_protected_capacity = 0, met_movable_capacity = 0, met_reclaimable_capacity = 0,
     met_stranded_capacity = 0, met_has_workload = False, met_workload_usable_capacity = 0,
     met_workload_stranded_capacity = 0, met_reclaimable_opportunity = 0,
     met_workload_fits = False, met_dominant_categories = []\<rparr>"

record DeviceState =
  dev_resource :: Resource
  dev_layout :: ResourceLayout

record FragmentationSnapshot =
  snap_id :: FragmentationSnapshotId
  snap_generation :: FragmentationSnapshotGeneration
  snap_domain_id :: FragmentationDomainId
  snap_domain_generation :: FragmentationDomainGeneration
  snap_pool :: ResourcePoolId
  snap_pool_generation :: ResourcePoolGeneration
  snap_domain :: Domain
  snap_generations :: KnownResourceGenerations
  snap_source_worker :: WorkerBootId
  snap_epoch :: CoordinatorEpoch
  snap_policy_generation :: PolicyGeneration
  snap_capacity_generation :: CapacityModelGeneration
  snap_topology_generation :: TopologyGeneration
  snap_evidence_time :: i64
  snap_provenance :: Provenance
  snap_devices :: "DeviceState list"
  snap_reservations :: "Reservation list"
  snap_metrics :: "FragmentationMetrics list"

definition default_snapshot :: FragmentationSnapshot where
  "default_snapshot = \<lparr>snap_id = TypedId 0, snap_generation = Generation 0,
     snap_domain_id = TypedId 0, snap_domain_generation = Generation 0, snap_pool = TypedId 0,
     snap_pool_generation = Generation 0, snap_domain = D_UNKNOWN,
     snap_generations = default_generations, snap_source_worker = Generation 0,
     snap_epoch = Generation 0, snap_policy_generation = Generation 0,
     snap_capacity_generation = Generation 0, snap_topology_generation = Generation 0,
     snap_evidence_time = 0, snap_provenance = PV_UNKNOWN, snap_devices = [],
     snap_reservations = [], snap_metrics = []\<rparr>"

section \<open>Policies and plans\<close>

record Policy =
  pol_generation :: PolicyGeneration
  pol_allow_release :: bool
  pol_allow_eviction :: bool
  pol_allow_preemption :: bool
  pol_allow_reservation_shift :: bool
  pol_require_verification :: bool
  pol_max_disruption :: HealthyScore

definition default_policy :: Policy where
  "default_policy = \<lparr>pol_generation = Generation 0, pol_allow_release = True,
     pol_allow_eviction = False, pol_allow_preemption = False,
     pol_allow_reservation_shift = False, pol_require_verification = True,
     pol_max_disruption = d_lit 1\<rparr>"

record PlanningWeights =
  w_workload_priority :: HealthyScore
  w_urgency :: HealthyScore
  w_reclaim_value :: HealthyScore
  w_displacement_cost_weight :: HealthyScore
  w_migration_cost_weight :: HealthyScore
  w_disruption_limit :: HealthyScore

definition default_weights :: PlanningWeights where
  "default_weights = \<lparr>w_workload_priority = d_lit (1/2), w_urgency = d_lit (1/2),
     w_reclaim_value = d_lit (6/10), w_displacement_cost_weight = d_lit (1/2),
     w_migration_cost_weight = d_lit (1/2), w_disruption_limit = d_lit 1\<rparr>"

record PlanAction =
  act_kind :: ActionKind
  act_target_resource :: ResourceId
  act_affected_owner :: AllocationOwnerId
  act_source_allocation :: "AllocationId option"
  act_destination :: "ResourceId option"
  act_affected_allocations :: "AllocationId list"
  act_required_authority :: AuthorityGeneration
  act_required_preconditions :: "string list"
  act_proof_obligations :: "string list"
  act_expected_capacity_recovered :: Bytes
  act_expected_fit_improvement :: HealthyScore
  act_cost :: HealthyScore
  act_risk :: HealthyScore
  act_disruption :: HealthyScore
  act_reversible :: bool
  act_state_preservation_required :: bool
  act_preemption_required :: bool
  act_reservation_impact :: ReservationImpact
  act_generations :: KnownResourceGenerations

definition default_action :: PlanAction where
  "default_action = \<lparr>act_kind = AK_NO_BENEFICIAL_ACTION, act_target_resource = TypedId 0,
     act_affected_owner = TypedId 0, act_source_allocation = None, act_destination = None,
     act_affected_allocations = [], act_required_authority = Generation 0,
     act_required_preconditions = [], act_proof_obligations = [],
     act_expected_capacity_recovered = 0, act_expected_fit_improvement = d_lit 0,
     act_cost = d_lit 0, act_risk = d_lit 0, act_disruption = d_lit 0, act_reversible = False,
     act_state_preservation_required = False, act_preemption_required = False,
     act_reservation_impact = RI_NONE, act_generations = default_generations\<rparr>"

record RemediationPlan =
  plan_id :: FragmentationPlanId
  plan_generation :: FragmentationPlanGeneration
  plan_domain_id :: FragmentationDomainId
  plan_based_on_snapshot :: FragmentationSnapshotGeneration
  plan_policy_generation :: PolicyGeneration
  plan_epoch :: CoordinatorEpoch
  plan_actions :: "PlanAction list"
  plan_expected_capacity_recovered :: Bytes
  plan_expected_fit_improvement :: HealthyScore
  plan_benefit :: HealthyScore
  plan_cost :: HealthyScore
  plan_risk :: HealthyScore
  plan_disruption :: HealthyScore
  plan_factor_explanation :: "string list"
  plan_state :: PlanState
  plan_verification :: "VerificationOutcome option"
  plan_precondition_failures :: "string list"

definition default_plan :: RemediationPlan where
  "default_plan = \<lparr>plan_id = TypedId 0, plan_generation = Generation 0, plan_domain_id = TypedId 0,
     plan_based_on_snapshot = Generation 0, plan_policy_generation = Generation 0,
     plan_epoch = Generation 0, plan_actions = [], plan_expected_capacity_recovered = 0,
     plan_expected_fit_improvement = d_lit 0, plan_benefit = d_lit 0, plan_cost = d_lit 0,
     plan_risk = d_lit 0, plan_disruption = d_lit 0, plan_factor_explanation = [],
     plan_state = PS_DETECTED, plan_verification = None, plan_precondition_failures = []\<rparr>"

section \<open>Results\<close>

record FitResult =
  fr_outcome :: FitOutcome
  fr_category :: FragmentationCategory
  fr_block_diagnostics :: "string list"
  fr_aggregate_metrics :: FragmentationMetrics
  fr_matching_devices :: Count
  fr_required_devices :: Count
  fr_evidence :: EvidenceKind

definition default_fit_result :: FitResult where
  "default_fit_result = \<lparr>fr_outcome = FO_UNKNOWN, fr_category = FC_UNKNOWN,
     fr_block_diagnostics = [], fr_aggregate_metrics = default_metrics, fr_matching_devices = 0,
     fr_required_devices = 0, fr_evidence = EK_UNKNOWN\<rparr>"

record VerificationResult =
  vr_generation :: VerificationGeneration
  vr_outcome :: VerificationOutcome
  vr_before_stranded :: Bytes
  vr_after_stranded :: Bytes
  vr_before_fit :: bool
  vr_after_fit :: bool
  vr_before_largest :: Bytes
  vr_after_largest :: Bytes
  vr_exact_accounting_closed :: bool
  vr_failed_stale_removed :: bool
  vr_current_generations :: bool
  vr_no_protected_violation :: bool
  vr_diagnostics :: "string list"

definition default_verification :: VerificationResult where
  "default_verification = \<lparr>vr_generation = Generation 0, vr_outcome = VO_REVALIDATION_REQUIRED,
     vr_before_stranded = 0, vr_after_stranded = 0, vr_before_fit = False, vr_after_fit = False,
     vr_before_largest = 0, vr_after_largest = 0, vr_exact_accounting_closed = False,
     vr_failed_stale_removed = False, vr_current_generations = False,
     vr_no_protected_violation = False, vr_diagnostics = []\<rparr>"

section \<open>Overlap of intervals\<close>

lemma intervals_overlap_iff:
  assumes "a_start < a_end" and "b_start < b_end"
  shows "intervals_overlap a_start a_end b_start b_end \<longleftrightarrow>
         {a_start ..< a_end} \<inter> {b_start ..< b_end} \<noteq> {}"
proof
  assume "intervals_overlap a_start a_end b_start b_end"
  then have "b_start < a_end" "a_start < b_end" by (auto simp: intervals_overlap_def split: if_splits)
  with assms have "max a_start b_start \<in> {a_start ..< a_end} \<inter> {b_start ..< b_end}" by (auto simp: max_def)
  then show "{a_start ..< a_end} \<inter> {b_start ..< b_end} \<noteq> {}" by blast
qed (auto simp: intervals_overlap_def)

end
