(* ===== verification/Codec.thy ===== *)
theory Codec
  imports Checksum Domain_Model
begin

text \<open>
  \<open>persistence/state.hpp\<close> and \<open>persistence/codec.cpp\<close>: the durable state and its encoder, validating
  decoder, atomic save and load.  A \<open>CodecResult\<close> is a sum: \<open>Inl\<close> the error text of a failure,
  \<open>Inr\<close> the result.  What a failed call leaves in its out parameter is not part of the model, no
  caller looks at it.
\<close>

section \<open>The durable state\<close>

record VerificationResultStub =
  vs_plan :: FragmentationPlanId
  vs_outcome :: VerificationOutcome
  vs_generation :: VerificationGeneration

record PersistedPlan =
  pp_id :: FragmentationPlanId
  pp_generation :: FragmentationPlanGeneration
  pp_domain :: FragmentationDomainId
  pp_state :: PlanState
  pp_verification :: "VerificationOutcome option"
  pp_policy_generation :: PolicyGeneration
  pp_epoch :: CoordinatorEpoch
  pp_based_on_snapshot :: FragmentationSnapshotGeneration
  pp_expected_capacity_recovered :: Bytes
  pp_benefit :: double
  pp_cost :: double
  pp_risk :: double
  pp_disruption :: double
  pp_action_count :: Count
  pp_action_kinds :: "ActionKind list"

record PersistedState =
  ps_plans :: "PersistedPlan list"
  ps_reservations :: "Reservation list"
  ps_verification_history :: "VerificationResultStub list"
  ps_resource_generation :: ResourceGeneration
  ps_allocation_generation :: AllocationGeneration
  ps_reservation_generation :: ReservationGeneration
  ps_policy_generation :: PolicyGeneration
  ps_epoch :: CoordinatorEpoch
  ps_next_plan_id :: u64
  ps_carried_live_dynamic_state :: bool
  ps_needs_revalidation :: bool

definition default_persisted_state :: PersistedState where
  "default_persisted_state = \<lparr>ps_plans = [], ps_reservations = [], ps_verification_history = [],
     ps_resource_generation = Generation 0, ps_allocation_generation = Generation 0,
     ps_reservation_generation = Generation 0, ps_policy_generation = Generation 0,
     ps_epoch = Generation 0, ps_next_plan_id = 1, ps_carried_live_dynamic_state = False,
     ps_needs_revalidation = True\<rparr>"

section \<open>Encoding\<close>

definition persistence_magic :: u32 where
  "persistence_magic = 0x464747"

definition persistence_version :: u32 where
  "persistence_version = 0x00010000"

text \<open>
  The four scores are written as zeros and the 32 bytes then overwritten in place; \<open>buf\<close> is the
  buffer of the writer.
\<close>

definition overwrite_scores :: "u64 list \<Rightarrow> u8 list \<Rightarrow> u8 list" where
  "overwrite_scores bits buf =
    (let base = length buf - 32 in
     fold (\<lambda>i buf. fold (\<lambda>k buf. buf[base + i * 8 + k := ucast (drop_bit (8 * k) (bits ! i) AND 0xFF)])
       [0 ..< 8] buf) [0 ..< 4] buf)"

definition put_scores :: "double \<Rightarrow> double \<Rightarrow> double \<Rightarrow> double \<Rightarrow> u8 list \<Rightarrow> u8 list" where
  "put_scores benefit cost risk disruption buf =
    overwrite_scores [benefit, cost, risk, disruption] (buf @ w_u64 0 @ w_u64 0 @ w_u64 0 @ w_u64 0)"

definition put_persisted_plan :: "PersistedPlan \<Rightarrow> u8 list \<Rightarrow> u8 list" where
  "put_persisted_plan p buf =
    put_scores (pp_benefit p) (pp_cost p) (pp_risk p) (pp_disruption p)
      (buf @ w_u64 (id_value (pp_id p)) @ w_u64 (gen_value (pp_generation p)) @
       w_u64 (id_value (pp_domain p)) @ w_u8 (enum_byte all_plan_state (pp_state p)) @
       w_opt (\<lambda>v. w_u8 (enum_byte all_verification_outcome v)) (pp_verification p) @
       w_u64 (gen_value (pp_policy_generation p)) @ w_u64 (gen_value (pp_epoch p)) @
       w_u64 (gen_value (pp_based_on_snapshot p)) @ w_u64 (pp_expected_capacity_recovered p)) @
    w_u32 (ucast (pp_action_count p)) @ w_size (length (pp_action_kinds p)) @
    w_list (\<lambda>k. w_u8 (enum_byte all_action_kind k)) (pp_action_kinds p)"

definition put_persisted_reservation :: "Reservation \<Rightarrow> u8 list" where
  "put_persisted_reservation r =
    w_u64 (id_value (rv_id r)) @ w_u64 (gen_value (rv_generation r)) @ w_u64 (id_value (rv_resource r)) @
    w_u64 (rv_start r) @ w_u64 (rv_end r) @ w_u64 (rv_amount r) @ w_bool (rv_hard r) @
    w_bool (rv_policy_protected r)"

definition put_verification_stub :: "VerificationResultStub \<Rightarrow> u8 list" where
  "put_verification_stub v =
    w_u64 (id_value (vs_plan v)) @ w_u8 (enum_byte all_verification_outcome (vs_outcome v)) @
    w_u64 (gen_value (vs_generation v))"

text \<open>The validation of \<open>encode_state\<close> before it writes: the error, if any.\<close>

definition plan_objection :: "PersistedPlan \<Rightarrow> string option" where
  "plan_objection p =
    (if pp_state p = PS_COMPLETED \<and> pp_verification p = None
     then Some ''persisting COMPLETED plan without verification''
     else if \<not> d_isfinite (pp_benefit p) \<or> \<not> d_isfinite (pp_cost p) \<or> \<not> d_isfinite (pp_risk p) \<or>
             \<not> d_isfinite (pp_disruption p)
     then Some ''plan has non-finite score'' else None)"

definition reservation_objection :: "Reservation \<Rightarrow> string option" where
  "reservation_objection r = (if rv_end r \<le> rv_start r then Some ''reservation has invalid interval'' else None)"

definition first_objection :: "('a \<Rightarrow> string option) \<Rightarrow> 'a list \<Rightarrow> string option" where
  "first_objection f xs = (case List.map_filter f xs of [] \<Rightarrow> None | e # _ \<Rightarrow> Some e)"

definition encode_body :: "PersistedState \<Rightarrow> u8 list" where
  "encode_body st =
    fold put_persisted_plan (ps_plans st)
      (w_u32 persistence_magic @ w_u32 persistence_version @ w_size (length (ps_plans st))) @
    w_size (length (ps_reservations st)) @ w_list put_persisted_reservation (ps_reservations st) @
    w_size (length (ps_verification_history st)) @ w_list put_verification_stub (ps_verification_history st) @
    w_u64 (gen_value (ps_resource_generation st)) @ w_u64 (gen_value (ps_allocation_generation st)) @
    w_u64 (gen_value (ps_reservation_generation st)) @ w_u64 (gen_value (ps_policy_generation st)) @
    w_u64 (gen_value (ps_epoch st)) @ w_u64 (ps_next_plan_id st) @ w_bool (ps_carried_live_dynamic_state st)"

definition encode_bytes :: "PersistedState \<Rightarrow> u8 list" where
  "encode_bytes st = encode_body st @ w_u32 (crc32 (encode_body st))"

definition encode_state :: "PersistedState \<Rightarrow> string + u8 list" where
  "encode_state st =
    (case first_objection plan_objection (ps_plans st) of
       Some e \<Rightarrow> Inl e
     | None \<Rightarrow>
       case first_objection reservation_objection (ps_reservations st) of
         Some e \<Rightarrow> Inl e
       | None \<Rightarrow> Inr (encode_bytes st))"

section \<open>Decoding\<close>

definition check_finite :: "double \<Rightarrow> string \<Rightarrow> (string, double) rd" where
  "check_finite v which r =
    (if \<not> d_isfinite v then Inr (d_lit 0, r\<lparr>rd_ok := False, rd_err := which @ '' non-finite''\<rparr>)
     else Inr (v, r))"

definition get_persisted_plan :: "(string, PersistedPlan) rd" where
  "get_persisted_plan =
    rd_bind rd_u64 (\<lambda>i.
    rd_bind rd_u64 (\<lambda>g.
    rd_bind rd_u64 (\<lambda>dom.
    rd_bind (rd_enum all_plan_state 18 ''invalid plan state enum'') (\<lambda>st.
    rd_bind (rd_opt (rd_enum all_verification_outcome 6 ''invalid verification outcome enum'')) (\<lambda>ver.
    rd_bind rd_u64 (\<lambda>pg.
    rd_bind rd_u64 (\<lambda>ep.
    rd_bind rd_u64 (\<lambda>snap.
    rd_bind rd_u64 (\<lambda>recovered.
    rd_bind rd_u64 (\<lambda>benefit.
    rd_bind rd_u64 (\<lambda>cost.
    rd_bind rd_u64 (\<lambda>risk.
    rd_bind rd_u64 (\<lambda>disruption.
    rd_bind (check_finite benefit ''benefit'') (\<lambda>benefit.
    rd_bind (check_finite cost ''cost'') (\<lambda>cost.
    rd_bind (check_finite risk ''risk'') (\<lambda>risk.
    rd_bind (check_finite disruption ''disruption'') (\<lambda>disruption.
    rd_bind (rd_check rd_err) (\<lambda>_.
    rd_bind rd_u32 (\<lambda>n.
    rd_bind rd_u32 (\<lambda>nkinds.
    rd_bind (rd_guard (nkinds > 1000000) ''action kind list exceeds bound'') (\<lambda>_.
    rd_bind (rd_times (unat nkinds) (rd_enum all_action_kind 18 ''invalid action kind enum'')) (\<lambda>kinds.
    rd_bind (rd_check rd_err) (\<lambda>_.
    rd_return \<lparr>pp_id = TypedId i, pp_generation = Generation g, pp_domain = TypedId dom, pp_state = st,
      pp_verification = ver, pp_policy_generation = Generation pg, pp_epoch = Generation ep,
      pp_based_on_snapshot = Generation snap, pp_expected_capacity_recovered = recovered,
      pp_benefit = benefit, pp_cost = cost, pp_risk = risk, pp_disruption = disruption,
      pp_action_count = ucast n, pp_action_kinds = kinds\<rparr>)))))))))))))))))))))))"

definition get_persisted_reservation :: "(string, Reservation) rd" where
  "get_persisted_reservation =
    rd_bind rd_u64 (\<lambda>i.
    rd_bind rd_u64 (\<lambda>g.
    rd_bind rd_u64 (\<lambda>res.
    rd_bind rd_u64 (\<lambda>start.
    rd_bind rd_u64 (\<lambda>stop.
    rd_bind rd_u64 (\<lambda>amount.
    rd_bind rd_b1 (\<lambda>hard.
    rd_bind rd_b1 (\<lambda>prot.
    rd_bind (rd_check rd_err) (\<lambda>_.
    rd_bind (rd_guard (stop \<le> start) ''reservation malformed interval'') (\<lambda>_.
    rd_return \<lparr>rv_id = TypedId i, rv_generation = Generation g, rv_resource = TypedId res, rv_start = start,
      rv_end = stop, rv_amount = amount, rv_hard = hard, rv_policy_protected = prot,
      rv_provenance = PV_REPORTED\<rparr>))))))))))"

definition get_verification_stub :: "(string, VerificationResultStub) rd" where
  "get_verification_stub =
    rd_bind rd_u64 (\<lambda>p.
    rd_bind (rd_enum all_verification_outcome 6 ''invalid verification outcome enum'') (\<lambda>out.
    rd_bind rd_u64 (\<lambda>g.
    rd_return \<lparr>vs_plan = TypedId p, vs_outcome = out, vs_generation = Generation g\<rparr>)))"

text \<open>A count with its two checks, followed by that many items.\<close>

definition get_counted :: "string \<Rightarrow> string \<Rightarrow> (string, 'a) rd \<Rightarrow> (string, 'a list) rd" where
  "get_counted truncated exceeded p =
    rd_bind rd_u32 (\<lambda>n.
    rd_bind (rd_check (\<lambda>_. truncated)) (\<lambda>_.
    rd_bind (rd_guard (n > 1000000) exceeded) (\<lambda>_. rd_times (unat n) p)))"

definition decode_body :: "(string, PersistedState) rd" where
  "decode_body =
    rd_bind rd_u32 (\<lambda>magic.
    rd_bind rd_u32 (\<lambda>version.
    rd_bind (rd_check (\<lambda>_. ''truncated header'')) (\<lambda>_.
    rd_bind (rd_guard (magic \<noteq> persistence_magic) ''bad magic'') (\<lambda>_.
    rd_bind (rd_guard (version \<noteq> persistence_version) ''bad version'') (\<lambda>_.
    rd_bind (get_counted ''truncated plan count'' ''plan count exceeds bound'' get_persisted_plan) (\<lambda>plans.
    rd_bind (get_counted ''truncated reservation count'' ''reservation count exceeds bound''
              get_persisted_reservation) (\<lambda>reservations.
    rd_bind (get_counted ''truncated verification count'' ''verification count exceeds bound''
              get_verification_stub) (\<lambda>history.
    rd_bind rd_u64 (\<lambda>rg.
    rd_bind rd_u64 (\<lambda>ag.
    rd_bind rd_u64 (\<lambda>vg.
    rd_bind rd_u64 (\<lambda>pg.
    rd_bind rd_u64 (\<lambda>ep.
    rd_bind rd_u64 (\<lambda>next.
    rd_bind rd_b1 (\<lambda>live.
    rd_bind (rd_check (\<lambda>_. ''truncated generations trailer'')) (\<lambda>_.
    rd_return \<lparr>ps_plans = plans, ps_reservations = reservations, ps_verification_history = history,
      ps_resource_generation = Generation rg, ps_allocation_generation = Generation ag,
      ps_reservation_generation = Generation vg, ps_policy_generation = Generation pg,
      ps_epoch = Generation ep, ps_next_plan_id = next, ps_carried_live_dynamic_state = live,
      ps_needs_revalidation = True\<rparr>))))))))))))))))"

fun depends_on_live_state :: "PlanState \<Rightarrow> bool" where
  "depends_on_live_state PS_EXECUTING = True"
| "depends_on_live_state PS_QUIESCING = True"
| "depends_on_live_state PS_PRESERVING_STATE = True"
| "depends_on_live_state PS_MOVING = True"
| "depends_on_live_state PS_REBINDING = True"
| "depends_on_live_state PS_VERIFYING = True"
| "depends_on_live_state PS_APPROVED = True"
| "depends_on_live_state _ = False"

definition degrade_plan :: "PersistedPlan \<Rightarrow> PersistedPlan" where
  "degrade_plan p =
    (if depends_on_live_state (pp_state p) then p\<lparr>pp_state := PS_REVALIDATION_REQUIRED\<rparr> else p)"

definition decode_state :: "u8 list \<Rightarrow> string + PersistedState" where
  "decode_state input =
    map_sum id fst
     (rd_bind decode_body (\<lambda>st.
      rd_bind (rd_guard (\<not> distinct (map pp_id (ps_plans st))) ''duplicate plan id'') (\<lambda>_.
      rd_bind (rd_check rd_err) (\<lambda>_ r.
      rd_bind (rd_guard (rd_pos r > length input) ''oversized frame'') (\<lambda>_.
      rd_bind rd_u32 (\<lambda>stored_crc.
      rd_bind (rd_check (\<lambda>_. ''missing checksum'')) (\<lambda>_ r.
      rd_bind (rd_guard (stored_crc \<noteq> crc32 (take (rd_pos r - 4) input)) ''checksum mismatch'') (\<lambda>_.
      rd_bind (rd_guard (rd_pos r \<noteq> length input) ''trailing garbage'') (\<lambda>_.
      rd_return (st\<lparr>ps_needs_revalidation := True, ps_plans := map degrade_plan (ps_plans st)\<rparr>))) r))) r)))
      (mk_Reader input))"

section \<open>Saving and loading\<close>

text \<open>
  The part of the C library the two functions use: a file system, whether a file can be opened,
  how many of the requested bytes a write or read transfers, and whether \<open>std::rename\<close> replaces an
  existing file, which the C standard leaves to the implementation.  \<open>long\<close> has 32 bits on the
  platform of the source.
\<close>

type_synonym file_system = "string \<Rightarrow> u8 list option"

record host =
  h_can_open :: "string \<Rightarrow> bool"
  h_fwrite :: "nat \<Rightarrow> nat"
  h_fread :: "nat \<Rightarrow> nat"
  h_rename_replaces :: bool

definition h_rename :: "host \<Rightarrow> string \<Rightarrow> string \<Rightarrow> file_system \<Rightarrow> file_system option" where
  "h_rename h old new fs =
    (if fs new \<noteq> None \<and> \<not> h_rename_replaces h then None else Some (fs(new := fs old, old := None)))"

definition save_state :: "host \<Rightarrow> PersistedState \<Rightarrow> string \<Rightarrow> file_system \<Rightarrow> (string + unit) \<times> file_system" where
  "save_state h st path fs =
    (case encode_state st of
       Inl e \<Rightarrow> (Inl e, fs)
     | Inr buf \<Rightarrow>
       let tmp = path @ ''.tmp'' in
       if \<not> h_can_open h tmp then (Inl ''cannot open temp file'', fs)
       else
         let n = min (h_fwrite h (length buf)) (length buf); fs = fs(tmp \<mapsto> take n buf) in
         if n \<noteq> length buf then (Inl ''short write'', fs)
         else case h_rename h tmp path fs of
                None \<Rightarrow> (Inl ''rename failed'', fs)
              | Some fs \<Rightarrow> (Inr (), fs))"

definition load_state :: "host \<Rightarrow> string \<Rightarrow> file_system \<Rightarrow> string + PersistedState" where
  "load_state h path fs =
    (case fs path of
       None \<Rightarrow> Inl ''cannot open file''
     | Some data \<Rightarrow>
       if \<not> h_can_open h path then Inl ''cannot open file''
       else if length data > 2147483647 then Inl ''cannot determine size''
       else let n = min (h_fread h (length data)) (length data) in
         if n \<noteq> length data then Inl ''short read'' else decode_state (take n data))"

end
