(* ===== verification/Protocol.thy ===== *)
theory Protocol
  imports Checksum Domain_Model
begin

text \<open>
  \<open>protocol/protocol.hpp\<close> and \<open>protocol/protocol.cpp\<close>: messages, their payload codec, frames with magic,
  version, length and checksum, and the streaming decoder.  \<open>PWriter\<close>, \<open>PReader\<close> and \<open>crc32\<close> are those of
  the theories \<open>Wire\<close> and \<open>Checksum\<close>; the error text of a \<open>PReader\<close> is never read.

  A \<open>get_...\<close> that returns \<open>false\<close> makes every caller return \<open>std::nullopt\<close>, so both are the early
  exit \<open>Malformed\<close>.  The constructor of \<open>HealthyScore\<close> throws on a value outside \<open>[0, 1]\<close>, and nothing in
  the file catches that: it is the other early exit, \<open>Escaped\<close>.
\<close>

section \<open>Messages\<close>

record Message =
  msg_type :: MsgType
  msg_worker_id :: u64
  msg_worker_boot :: u64
  msg_epoch :: u64
  msg_policy_gen :: u64
  msg_resource_gen :: u64
  msg_resource :: Resource
  msg_allocations :: "Allocation list"
  msg_allocation :: Allocation
  msg_allocation_id :: u64
  msg_demand :: WorkloadDemand
  msg_plan :: RemediationPlan
  msg_plan_id :: u64
  msg_plan_gen :: u64
  msg_action_index :: u32
  msg_action_ok :: bool
  msg_new_generation :: u64
  msg_generation_kind :: u8
  msg_gen_value :: u64
  msg_ok :: bool
  msg_fit_outcome :: FitOutcome
  msg_verification_outcome :: VerificationOutcome
  msg_error :: string
  msg_detail :: string

definition default_resource :: Resource where
  "default_resource = \<lparr>res_id = TypedId 0, res_generation = Generation 0, res_pool = TypedId 0,
     res_device = TypedId 0, res_node = TypedId 0, res_memory_domain = TypedId 0,
     res_topology_group = None, res_domain = D_UNKNOWN, res_capacity = 0, res_provenance = PV_UNKNOWN\<rparr>"

definition default_allocation :: Allocation where
  "default_allocation = \<lparr>al_id = TypedId 0, al_generation = Generation 0, al_owner = TypedId 0,
     al_offset = 0, al_length = 0, al_movability = MV_UNKNOWN, al_reservation = None,
     al_policy_protected = False, al_workload = None, al_provenance = PV_UNKNOWN\<rparr>"

definition default_message :: Message where
  "default_message = \<lparr>msg_type = MT_ERROR, msg_worker_id = 0, msg_worker_boot = 0, msg_epoch = 0,
     msg_policy_gen = 0, msg_resource_gen = 0, msg_resource = default_resource, msg_allocations = [],
     msg_allocation = default_allocation, msg_allocation_id = 0, msg_demand = default_demand,
     msg_plan = default_plan, msg_plan_id = 0, msg_plan_gen = 0, msg_action_index = 0,
     msg_action_ok = False, msg_new_generation = 0, msg_generation_kind = 0, msg_gen_value = 0,
     msg_ok = False, msg_fit_outcome = FO_UNKNOWN,
     msg_verification_outcome = VO_REVALIDATION_REQUIRED, msg_error = '''', msg_detail = ''''\<rparr>"

definition protocol_magic :: u32 where
  "protocol_magic = 0x464247"

definition protocol_version :: u32 where
  "protocol_version = 0x00010000"

definition protocol_max_payload :: u32 where
  "protocol_max_payload = 16 * 1024 * 1024"

section \<open>Writing the parts of a message\<close>

definition put_alloc :: "Allocation \<Rightarrow> u8 list" where
  "put_alloc a =
    w_u64 (id_value (al_id a)) @ w_u64 (gen_value (al_generation a)) @ w_u64 (id_value (al_owner a)) @
    w_u64 (al_offset a) @ w_u64 (al_length a) @ w_u8 (enum_byte all_movability (al_movability a)) @
    w_opt w_u64 (map_option id_value (al_reservation a)) @ w_bool (al_policy_protected a) @
    w_opt w_u64 (map_option id_value (al_workload a)) @ w_u8 (enum_byte all_provenance (al_provenance a))"

definition put_demand :: "WorkloadDemand \<Rightarrow> u8 list" where
  "put_demand d =
    w_u64 (id_value (dem_id d)) @ w_u64 (gen_value (dem_generation d)) @ w_u64 (dem_accelerator_count d) @
    w_u64 (dem_per_device_memory d) @ w_u64 (dem_aggregate_memory d) @ w_u64 (dem_contiguous_memory d) @
    w_u64 (dem_pinned_memory d) @ w_opt w_u64 (dem_topology_group d) @ w_opt w_u64 (dem_locality_group d) @
    w_bool (dem_requires_highspeed_comm_path d) @ w_opt w_u64 (dem_reservation_duration d) @
    w_bool (dem_requires_model_residency d) @ w_bool (dem_requires_adapter_residency d) @
    w_opt w_u64 (dem_elastic_min d) @ w_opt w_u64 (dem_elastic_max d)"

definition put_resource :: "Resource \<Rightarrow> u8 list" where
  "put_resource r =
    w_u64 (id_value (res_id r)) @ w_u64 (gen_value (res_generation r)) @ w_u64 (id_value (res_pool r)) @
    w_u64 (id_value (res_device r)) @ w_u64 (id_value (res_node r)) @ w_u64 (id_value (res_memory_domain r)) @
    w_opt w_u64 (res_topology_group r) @ w_u8 (enum_byte all_domain (res_domain r)) @
    w_u64 (res_capacity r) @ w_u8 (enum_byte all_provenance (res_provenance r))"

definition w_counted :: "('a \<Rightarrow> u8 list) \<Rightarrow> 'a list \<Rightarrow> u8 list" where
  "w_counted w xs = w_size (length xs) @ w_list w xs"

definition put_action :: "PlanAction \<Rightarrow> u8 list" where
  "put_action a =
    w_u8 (enum_byte all_action_kind (act_kind a)) @ w_u64 (id_value (act_target_resource a)) @
    w_u64 (id_value (act_affected_owner a)) @ w_opt w_u64 (map_option id_value (act_source_allocation a)) @
    w_opt w_u64 (map_option id_value (act_destination a)) @
    w_counted w_u64 (map id_value (act_affected_allocations a)) @
    w_u64 (gen_value (act_required_authority a)) @ w_counted w_str (act_required_preconditions a) @
    w_counted w_str (act_proof_obligations a) @ w_u64 (act_expected_capacity_recovered a) @
    w_u64 (act_expected_fit_improvement a) @ w_u64 (act_cost a) @ w_u64 (act_risk a) @
    w_u64 (act_disruption a) @ w_bool (act_reversible a) @ w_bool (act_state_preservation_required a) @
    w_bool (act_preemption_required a) @ w_u8 (enum_byte all_reservation_impact (act_reservation_impact a))"

definition put_plan :: "RemediationPlan \<Rightarrow> u8 list" where
  "put_plan p =
    w_u64 (id_value (plan_id p)) @ w_u64 (gen_value (plan_generation p)) @ w_u64 (id_value (plan_domain_id p)) @
    w_u64 (gen_value (plan_based_on_snapshot p)) @ w_u64 (gen_value (plan_policy_generation p)) @
    w_u64 (gen_value (plan_epoch p)) @ w_counted put_action (plan_actions p) @
    w_u64 (plan_expected_capacity_recovered p) @ w_u64 (plan_expected_fit_improvement p) @
    w_u64 (plan_benefit p) @ w_u64 (plan_cost p) @ w_u64 (plan_risk p) @ w_u64 (plan_disruption p) @
    w_counted w_str (plan_factor_explanation p) @ w_u8 (enum_byte all_plan_state (plan_state p)) @
    w_opt (\<lambda>v. w_u8 (enum_byte all_verification_outcome v)) (plan_verification p) @
    w_counted w_str (plan_precondition_failures p)"

section \<open>Reading them\<close>

datatype decode_stop = Malformed | Escaped exn

text \<open>A count that is checked against a bound, followed by that many items.\<close>

definition rd_counted :: "u32 \<Rightarrow> (decode_stop, 'a) rd \<Rightarrow> (decode_stop, 'a list) rd" where
  "rd_counted bound p =
    rd_bind rd_u32 (\<lambda>n.
    rd_bind (rd_check (\<lambda>_. Malformed)) (\<lambda>_.
    rd_bind (rd_guard (n > bound) Malformed) (\<lambda>_. rd_times (unat n) p)))"

definition rd_score :: "(decode_stop, HealthyScore) rd" where
  "rd_score =
    rd_bind rd_u64 (\<lambda>v. case mk_HealthyScore v of Inl e \<Rightarrow> rd_stop (Escaped e) | Inr x \<Rightarrow> rd_return x)"

definition get_alloc :: "(decode_stop, Allocation) rd" where
  "get_alloc =
    rd_bind rd_u64 (\<lambda>i.
    rd_bind rd_u64 (\<lambda>g.
    rd_bind rd_u64 (\<lambda>owner.
    rd_bind rd_u64 (\<lambda>off.
    rd_bind rd_u64 (\<lambda>len.
    rd_bind (rd_enum all_movability 9 Malformed) (\<lambda>mv.
    rd_bind (rd_opt rd_u64) (\<lambda>res.
    rd_bind rd_b1 (\<lambda>prot.
    rd_bind (rd_opt rd_u64) (\<lambda>wl.
    rd_bind (rd_enum all_provenance 6 Malformed) (\<lambda>prov.
    rd_bind (rd_check (\<lambda>_. Malformed)) (\<lambda>_.
    rd_return \<lparr>al_id = TypedId i, al_generation = Generation g, al_owner = TypedId owner, al_offset = off,
      al_length = len, al_movability = mv, al_reservation = map_option TypedId res,
      al_policy_protected = prot, al_workload = map_option TypedId wl, al_provenance = prov\<rparr>)))))))))))"

definition elastic_inverted :: "Bytes option \<Rightarrow> Bytes option \<Rightarrow> bool" where
  "elastic_inverted emin emax = (case (emin, emax) of (Some a, Some b) \<Rightarrow> a > b | _ \<Rightarrow> False)"

definition get_demand :: "(decode_stop, WorkloadDemand) rd" where
  "get_demand =
    rd_bind rd_u64 (\<lambda>i.
    rd_bind rd_u64 (\<lambda>g.
    rd_bind rd_u64 (\<lambda>n.
    rd_bind rd_u64 (\<lambda>per.
    rd_bind rd_u64 (\<lambda>agg.
    rd_bind rd_u64 (\<lambda>cont.
    rd_bind rd_u64 (\<lambda>pinned.
    rd_bind (rd_opt rd_u64) (\<lambda>topo.
    rd_bind (rd_opt rd_u64) (\<lambda>loc.
    rd_bind rd_b1 (\<lambda>comm.
    rd_bind (rd_opt rd_u64) (\<lambda>dur.
    rd_bind rd_b1 (\<lambda>model.
    rd_bind rd_b1 (\<lambda>adapter.
    rd_bind (rd_opt rd_u64) (\<lambda>emin.
    rd_bind (rd_opt rd_u64) (\<lambda>emax.
    rd_bind (rd_guard (elastic_inverted emin emax) Malformed) (\<lambda>_.
    rd_bind (rd_check (\<lambda>_. Malformed)) (\<lambda>_.
    rd_return \<lparr>dem_id = TypedId i, dem_generation = Generation g, dem_accelerator_count = n,
      dem_per_device_memory = per, dem_aggregate_memory = agg, dem_contiguous_memory = cont,
      dem_pinned_memory = pinned, dem_topology_group = topo, dem_locality_group = loc,
      dem_requires_highspeed_comm_path = comm, dem_reservation_duration = dur,
      dem_requires_model_residency = model, dem_requires_adapter_residency = adapter,
      dem_elastic_min = emin, dem_elastic_max = emax\<rparr>)))))))))))))))))"

definition get_resource :: "(decode_stop, Resource) rd" where
  "get_resource =
    rd_bind rd_u64 (\<lambda>i.
    rd_bind rd_u64 (\<lambda>g.
    rd_bind rd_u64 (\<lambda>pool.
    rd_bind rd_u64 (\<lambda>dev.
    rd_bind rd_u64 (\<lambda>node.
    rd_bind rd_u64 (\<lambda>mem.
    rd_bind (rd_opt rd_u64) (\<lambda>topo.
    rd_bind (rd_enum all_domain 17 Malformed) (\<lambda>dom.
    rd_bind rd_u64 (\<lambda>cap.
    rd_bind (rd_enum all_provenance 6 Malformed) (\<lambda>prov.
    rd_bind (rd_check (\<lambda>_. Malformed)) (\<lambda>_.
    rd_return \<lparr>res_id = TypedId i, res_generation = Generation g, res_pool = TypedId pool, res_device = TypedId dev,
      res_node = TypedId node, res_memory_domain = TypedId mem, res_topology_group = topo,
      res_domain = dom, res_capacity = cap, res_provenance = prov\<rparr>)))))))))))"

definition get_action :: "(decode_stop, PlanAction) rd" where
  "get_action =
    rd_bind (rd_enum all_action_kind 18 Malformed) (\<lambda>k.
    rd_bind rd_u64 (\<lambda>target.
    rd_bind rd_u64 (\<lambda>owner.
    rd_bind (rd_opt rd_u64) (\<lambda>src.
    rd_bind (rd_opt rd_u64) (\<lambda>dst.
    rd_bind (rd_counted 100000 rd_u64) (\<lambda>affected.
    rd_bind rd_u64 (\<lambda>auth.
    rd_bind (rd_counted 1000 rd_str) (\<lambda>pre.
    rd_bind (rd_counted 1000 rd_str) (\<lambda>prf.
    rd_bind rd_u64 (\<lambda>recovered.
    rd_bind rd_score (\<lambda>improvement.
    rd_bind rd_score (\<lambda>cost.
    rd_bind rd_score (\<lambda>risk.
    rd_bind rd_score (\<lambda>disruption.
    rd_bind rd_b1 (\<lambda>rev.
    rd_bind rd_b1 (\<lambda>keep.
    rd_bind rd_b1 (\<lambda>preempt.
    rd_bind (rd_enum all_reservation_impact 3 Malformed) (\<lambda>impact.
    rd_return (default_action\<lparr>act_kind := k, act_target_resource := TypedId target, act_affected_owner := TypedId owner,
      act_source_allocation := map_option TypedId src, act_destination := map_option TypedId dst,
      act_affected_allocations := map TypedId affected, act_required_authority := Generation auth,
      act_required_preconditions := pre, act_proof_obligations := prf,
      act_expected_capacity_recovered := recovered, act_expected_fit_improvement := improvement,
      act_cost := cost, act_risk := risk, act_disruption := disruption, act_reversible := rev,
      act_state_preservation_required := keep, act_preemption_required := preempt,
      act_reservation_impact := impact\<rparr>)))))))))))))))))))"

definition get_plan :: "(decode_stop, RemediationPlan) rd" where
  "get_plan =
    rd_bind rd_u64 (\<lambda>i.
    rd_bind rd_u64 (\<lambda>g.
    rd_bind rd_u64 (\<lambda>dom.
    rd_bind rd_u64 (\<lambda>snap.
    rd_bind rd_u64 (\<lambda>pg.
    rd_bind rd_u64 (\<lambda>ep.
    rd_bind (rd_counted 100000 get_action) (\<lambda>actions.
    rd_bind rd_u64 (\<lambda>recovered.
    rd_bind rd_score (\<lambda>improvement.
    rd_bind rd_score (\<lambda>benefit.
    rd_bind rd_score (\<lambda>cost.
    rd_bind rd_score (\<lambda>risk.
    rd_bind rd_score (\<lambda>disruption.
    rd_bind (rd_counted 1000 rd_str) (\<lambda>factors.
    rd_bind (rd_enum all_plan_state 18 Malformed) (\<lambda>st.
    rd_bind (rd_opt (rd_enum all_verification_outcome 6 Malformed)) (\<lambda>ver.
    rd_bind (rd_counted 1000 rd_str) (\<lambda>failures.
    rd_bind (rd_check (\<lambda>_. Malformed)) (\<lambda>_.
    rd_return \<lparr>plan_id = TypedId i, plan_generation = Generation g, plan_domain_id = TypedId dom,
      plan_based_on_snapshot = Generation snap, plan_policy_generation = Generation pg,
      plan_epoch = Generation ep, plan_actions = actions, plan_expected_capacity_recovered = recovered,
      plan_expected_fit_improvement = improvement, plan_benefit = benefit, plan_cost = cost,
      plan_risk = risk, plan_disruption = disruption, plan_factor_explanation = factors,
      plan_state = st, plan_verification = ver, plan_precondition_failures = failures\<rparr>))))))))))))))))))"

section \<open>Payloads\<close>

fun put_fields :: "MsgType \<Rightarrow> Message \<Rightarrow> u8 list" where
  "put_fields MT_REGISTER m = w_u64 (msg_worker_id m) @ w_u64 (msg_worker_boot m) @ w_u64 (msg_epoch m)"
| "put_fields MT_PUBLISH_RESOURCE m =
    w_u64 (msg_worker_id m) @ w_u64 (msg_worker_boot m) @ w_u64 (msg_epoch m) @ put_resource (msg_resource m)"
| "put_fields MT_PUBLISH_LAYOUT m =
    w_u64 (msg_worker_id m) @ w_u64 (msg_worker_boot m) @ w_u64 (msg_epoch m) @
    w_u64 (id_value (res_id (msg_resource m))) @ w_u64 (msg_resource_gen m) @
    w_counted put_alloc (msg_allocations m)"
| "put_fields MT_PUBLISH_ALLOCATION m =
    w_u64 (msg_worker_id m) @ w_u64 (msg_worker_boot m) @ w_u64 (msg_epoch m) @
    w_u64 (id_value (res_id (msg_resource m))) @ put_alloc (msg_allocation m)"
| "put_fields MT_INVALIDATE_ALLOCATION m =
    w_u64 (msg_worker_id m) @ w_u64 (msg_worker_boot m) @ w_u64 (msg_epoch m) @
    w_u64 (msg_allocation_id m) @ w_u64 (msg_new_generation m)"
| "put_fields MT_QUERY_FRAGMENTATION m = w_u64 (msg_epoch m)"
| "put_fields MT_QUERY_FIT m = w_u64 (msg_epoch m) @ put_demand (msg_demand m)"
| "put_fields MT_CREATE_PLAN m = w_u64 (msg_epoch m) @ w_u64 (msg_policy_gen m) @ put_demand (msg_demand m)"
| "put_fields MT_PLAN_RESULT m = put_plan (msg_plan m)"
| "put_fields MT_APPROVE_PLAN m = w_u64 (msg_plan_id m) @ w_u64 (msg_plan_gen m) @ w_u64 (msg_policy_gen m)"
| "put_fields MT_BEGIN_ACTION m =
    w_u64 (msg_plan_id m) @ w_u64 (msg_plan_gen m) @ w_u32 (msg_action_index m) @ w_u64 (msg_epoch m) @
    w_u64 (msg_policy_gen m)"
| "put_fields MT_ACTION_COMPLETE m =
    w_u64 (msg_plan_id m) @ w_u32 (msg_action_index m) @ w_bool (msg_action_ok m) @ w_u64 (msg_new_generation m)"
| "put_fields MT_VERIFY m = w_u64 (msg_plan_id m) @ w_u64 (msg_plan_gen m)"
| "put_fields MT_CANCEL_PLAN m = w_u64 (msg_plan_id m) @ w_u64 (msg_plan_gen m)"
| "put_fields MT_ADVANCE_GENERATION m = w_u8 (msg_generation_kind m) @ w_u64 (msg_gen_value m)"
| "put_fields MT_REVALIDATE m = w_u64 (msg_plan_id m) @ w_u64 (msg_plan_gen m)"
| "put_fields MT_ERROR m = w_str (msg_error m)"
| "put_fields MT_HELLO m = []"
| "put_fields MT_SAVE m = []"
| "put_fields MT_SHUTDOWN m = []"

definition encode_payload :: "Message \<Rightarrow> u8 list" where
  "encode_payload m =
    w_u8 (enum_byte all_msg_type (msg_type m)) @ put_fields (msg_type m) m @
    w_bool (msg_ok m) @ w_u8 (enum_byte all_fit_outcome (msg_fit_outcome m)) @
    w_u8 (enum_byte all_verification_outcome (msg_verification_outcome m)) @ w_str (msg_detail m)"

fun get_fields :: "MsgType \<Rightarrow> (decode_stop, Message) rd" where
  "get_fields MT_REGISTER =
    rd_bind rd_u64 (\<lambda>wid.
    rd_bind rd_u64 (\<lambda>boot.
    rd_bind rd_u64 (\<lambda>ep.
    rd_return (default_message\<lparr>msg_type := MT_REGISTER, msg_worker_id := wid, msg_worker_boot := boot, msg_epoch := ep\<rparr>))))"
| "get_fields MT_PUBLISH_RESOURCE =
    rd_bind rd_u64 (\<lambda>wid.
    rd_bind rd_u64 (\<lambda>boot.
    rd_bind rd_u64 (\<lambda>ep.
    rd_bind get_resource (\<lambda>res.
    rd_return (default_message\<lparr>msg_type := MT_PUBLISH_RESOURCE, msg_worker_id := wid, msg_worker_boot := boot, msg_epoch := ep, msg_resource := res\<rparr>)))))"
| "get_fields MT_PUBLISH_LAYOUT =
    rd_bind rd_u64 (\<lambda>wid.
    rd_bind rd_u64 (\<lambda>boot.
    rd_bind rd_u64 (\<lambda>ep.
    rd_bind rd_u64 (\<lambda>rid.
    rd_bind rd_u64 (\<lambda>rg.
    rd_bind (rd_counted 100000 get_alloc) (\<lambda>allocs.
    rd_return (default_message\<lparr>msg_type := MT_PUBLISH_LAYOUT, msg_worker_id := wid, msg_worker_boot := boot, msg_epoch := ep, msg_resource := default_resource\<lparr>res_id := TypedId rid\<rparr>, msg_resource_gen := rg, msg_allocations := allocs\<rparr>)))))))"
| "get_fields MT_PUBLISH_ALLOCATION =
    rd_bind rd_u64 (\<lambda>wid.
    rd_bind rd_u64 (\<lambda>boot.
    rd_bind rd_u64 (\<lambda>ep.
    rd_bind rd_u64 (\<lambda>rid.
    rd_bind get_alloc (\<lambda>a.
    rd_return (default_message\<lparr>msg_type := MT_PUBLISH_ALLOCATION, msg_worker_id := wid, msg_worker_boot := boot, msg_epoch := ep, msg_resource := default_resource\<lparr>res_id := TypedId rid\<rparr>, msg_allocation := a\<rparr>))))))"
| "get_fields MT_INVALIDATE_ALLOCATION =
    rd_bind rd_u64 (\<lambda>wid.
    rd_bind rd_u64 (\<lambda>boot.
    rd_bind rd_u64 (\<lambda>ep.
    rd_bind rd_u64 (\<lambda>aid.
    rd_bind rd_u64 (\<lambda>ng.
    rd_return (default_message\<lparr>msg_type := MT_INVALIDATE_ALLOCATION, msg_worker_id := wid, msg_worker_boot := boot, msg_epoch := ep, msg_allocation_id := aid, msg_new_generation := ng\<rparr>))))))"
| "get_fields MT_QUERY_FRAGMENTATION =
    rd_bind rd_u64 (\<lambda>ep.
    rd_return (default_message\<lparr>msg_type := MT_QUERY_FRAGMENTATION, msg_epoch := ep\<rparr>))"
| "get_fields MT_QUERY_FIT =
    rd_bind rd_u64 (\<lambda>ep.
    rd_bind get_demand (\<lambda>d.
    rd_return (default_message\<lparr>msg_type := MT_QUERY_FIT, msg_epoch := ep, msg_demand := d\<rparr>)))"
| "get_fields MT_CREATE_PLAN =
    rd_bind rd_u64 (\<lambda>ep.
    rd_bind rd_u64 (\<lambda>pg.
    rd_bind get_demand (\<lambda>d.
    rd_return (default_message\<lparr>msg_type := MT_CREATE_PLAN, msg_epoch := ep, msg_policy_gen := pg, msg_demand := d\<rparr>))))"
| "get_fields MT_PLAN_RESULT =
    rd_bind get_plan (\<lambda>p.
    rd_return (default_message\<lparr>msg_type := MT_PLAN_RESULT, msg_plan := p\<rparr>))"
| "get_fields MT_APPROVE_PLAN =
    rd_bind rd_u64 (\<lambda>pid.
    rd_bind rd_u64 (\<lambda>gen.
    rd_bind rd_u64 (\<lambda>pg.
    rd_return (default_message\<lparr>msg_type := MT_APPROVE_PLAN, msg_plan_id := pid, msg_plan_gen := gen, msg_policy_gen := pg\<rparr>))))"
| "get_fields MT_BEGIN_ACTION =
    rd_bind rd_u64 (\<lambda>pid.
    rd_bind rd_u64 (\<lambda>gen.
    rd_bind rd_u32 (\<lambda>idx.
    rd_bind rd_u64 (\<lambda>ep.
    rd_bind rd_u64 (\<lambda>pg.
    rd_return (default_message\<lparr>msg_type := MT_BEGIN_ACTION, msg_plan_id := pid, msg_plan_gen := gen, msg_action_index := idx, msg_epoch := ep, msg_policy_gen := pg\<rparr>))))))"
| "get_fields MT_ACTION_COMPLETE =
    rd_bind rd_u64 (\<lambda>pid.
    rd_bind rd_u32 (\<lambda>idx.
    rd_bind rd_b1 (\<lambda>done.
    rd_bind rd_u64 (\<lambda>ng.
    rd_return (default_message\<lparr>msg_type := MT_ACTION_COMPLETE, msg_plan_id := pid, msg_action_index := idx, msg_action_ok := done, msg_new_generation := ng\<rparr>)))))"
| "get_fields MT_VERIFY =
    rd_bind rd_u64 (\<lambda>pid.
    rd_bind rd_u64 (\<lambda>gen.
    rd_return (default_message\<lparr>msg_type := MT_VERIFY, msg_plan_id := pid, msg_plan_gen := gen\<rparr>)))"
| "get_fields MT_CANCEL_PLAN =
    rd_bind rd_u64 (\<lambda>pid.
    rd_bind rd_u64 (\<lambda>gen.
    rd_return (default_message\<lparr>msg_type := MT_CANCEL_PLAN, msg_plan_id := pid, msg_plan_gen := gen\<rparr>)))"
| "get_fields MT_ADVANCE_GENERATION =
    rd_bind rd_u8 (\<lambda>kind.
    rd_bind rd_u64 (\<lambda>v.
    rd_return (default_message\<lparr>msg_type := MT_ADVANCE_GENERATION, msg_generation_kind := kind, msg_gen_value := v\<rparr>)))"
| "get_fields MT_REVALIDATE =
    rd_bind rd_u64 (\<lambda>pid.
    rd_bind rd_u64 (\<lambda>gen.
    rd_return (default_message\<lparr>msg_type := MT_REVALIDATE, msg_plan_id := pid, msg_plan_gen := gen\<rparr>)))"
| "get_fields MT_ERROR =
    rd_bind rd_str (\<lambda>e.
    rd_return (default_message\<lparr>msg_type := MT_ERROR, msg_error := e\<rparr>))"
| "get_fields MT_HELLO =
    rd_return (default_message\<lparr>msg_type := MT_HELLO\<rparr>)"
| "get_fields MT_SAVE =
    rd_return (default_message\<lparr>msg_type := MT_SAVE\<rparr>)"
| "get_fields MT_SHUTDOWN =
    rd_return (default_message\<lparr>msg_type := MT_SHUTDOWN\<rparr>)"

text \<open>The uniform footer; the payload has to end with it.\<close>

definition get_footer :: "Message \<Rightarrow> (decode_stop, Message) rd" where
  "get_footer m =
    rd_bind rd_b1 (\<lambda>ok.
    rd_bind (rd_enum all_fit_outcome 16 Malformed) (\<lambda>fo.
    rd_bind (rd_enum all_verification_outcome 6 Malformed) (\<lambda>vo.
    rd_bind rd_str (\<lambda>detail.
    rd_bind (rd_check (\<lambda>_. Malformed)) (\<lambda>_ r.
    rd_bind (rd_guard (rd_pos r \<noteq> length (rd_p r)) Malformed) (\<lambda>_.
    rd_return (m\<lparr>msg_ok := ok, msg_fit_outcome := fo, msg_verification_outcome := vo,
      msg_detail := detail\<rparr>)) r)))))"

definition get_message :: "(decode_stop, Message) rd" where
  "get_message =
    rd_bind rd_u8 (\<lambda>t.
    rd_bind (rd_check (\<lambda>_. Malformed)) (\<lambda>_.
    rd_bind (rd_guard (t > 19) Malformed) (\<lambda>_.
    rd_bind (get_fields (all_msg_type ! unat t)) (\<lambda>m.
    rd_bind (rd_check (\<lambda>_. Malformed)) (\<lambda>_. get_footer m)))))"

text \<open>The outcome of a decoder: \<open>Inr None\<close> is \<open>std::nullopt\<close>, \<open>Inl\<close> an escaping exception.\<close>

definition decode_outcome :: "decode_stop + ('a \<times> Reader) \<Rightarrow> 'a option res" where
  "decode_outcome d =
    (case d of Inl Malformed \<Rightarrow> Inr None | Inl (Escaped e) \<Rightarrow> Inl e | Inr (x, _) \<Rightarrow> Inr (Some x))"

definition decode_payload :: "u8 list \<Rightarrow> Message option res" where
  "decode_payload data = decode_outcome (get_message (mk_Reader data))"

section \<open>Frames\<close>

definition frame_encode :: "Message \<Rightarrow> u8 list" where
  "frame_encode m =
    (let payload = encode_payload m;
         out = w_u32 protocol_magic @ w_u32 protocol_version @ w_size (length payload) @ payload
     in out @ w_u32 (crc32 out))"

definition get_frame :: "u8 list \<Rightarrow> (decode_stop, u8 list) rd" where
  "get_frame data =
    rd_bind rd_u32 (\<lambda>magic.
    rd_bind (rd_guard (magic \<noteq> protocol_magic) Malformed) (\<lambda>_.
    rd_bind rd_u32 (\<lambda>version.
    rd_bind (rd_guard (version \<noteq> protocol_version) Malformed) (\<lambda>_.
    rd_bind rd_u32 (\<lambda>plen.
    rd_bind (rd_check (\<lambda>_. Malformed)) (\<lambda>_.
    rd_bind (rd_guard (plen > protocol_max_payload) Malformed) (\<lambda>_.
    rd_bind (rd_guard (length data \<noteq> unat (12 + plen + 4)) Malformed) (\<lambda>_.
    rd_bind (rd_times (unat plen) rd_u8) (\<lambda>payload.
    rd_bind rd_u32 (\<lambda>stored.
    rd_bind (rd_check (\<lambda>_. Malformed)) (\<lambda>_.
    rd_bind (rd_guard (stored \<noteq> crc32 (take (unat (12 + plen)) data)) Malformed) (\<lambda>_.
    rd_return payload))))))))))))"

definition frame_decode :: "u8 list \<Rightarrow> Message option res" where
  "frame_decode data =
    (if length data < 16 then Inr None
     else chain (decode_outcome (get_frame data (mk_Reader data))) (\<lambda>payload.
       case payload of None \<Rightarrow> Inr None | Some p \<Rightarrow> decode_payload p))"

text \<open>
  \<open>FrameDecoder::feed\<close>: the buffer and the chunk to the result and the new buffer.  The body of the
  \<open>while\<close> loop always returns.  When \<open>frame_decode\<close> throws, the frame has not been erased yet.
\<close>

definition feed :: "u8 list \<Rightarrow> u8 list \<Rightarrow> Message option res \<times> u8 list" where
  "feed buf data =
    (let buf = buf @ data in
     if length buf < 16 then (Inr None, buf)
     else let plen = (le_value (take 4 (drop 8 buf)) :: u32) in
       if plen > protocol_max_payload then (Inr None, [])
       else let frame_len = unat (12 + plen + 4) in
         if length buf < frame_len then (Inr None, buf)
         else case frame_decode (take frame_len buf) of
                Inl e \<Rightarrow> (Inl e, buf)
              | Inr m \<Rightarrow> (Inr m, drop frame_len buf))"

end
