(* ===== verification/Layout_Correct.thy ===== *)
theory Layout_Correct
  imports Layout
begin

text \<open>
  Correctness of the layout: the class invariant documented in \<open>layout.hpp\<close> (the regions tile
  \<open>[0, capacity)\<close>, free regions are maximal, allocated regions are backed by the registry, the
  incremental counters are exact), every operation keeps it and cannot throw under it, and what
  the queries mean in terms of the bytes of the resource.
\<close>

section \<open>The invariant\<close>

definition is_free :: "Bytes \<times> Region \<Rightarrow> bool" where
  "is_free x = (rg_kind (snd x) = RK_FREE)"

definition region_size :: "Bytes \<times> Region \<Rightarrow> nat" where
  "region_size x = unat (rg_length (snd x))"

fun tiles :: "nat \<Rightarrow> (Bytes, Region) omap \<Rightarrow> nat \<Rightarrow> bool" where
  "tiles s [] e = (s = e)"
| "tiles s (x # rs) e =
    (unat (fst x) = s \<and> rg_offset (snd x) = fst x \<and> 0 < region_size x \<and>
     tiles (s + region_size x) rs e)"

definition coalesced :: "(Bytes, Region) omap \<Rightarrow> bool" where
  "coalesced rs = successively (\<lambda>x y. \<not> (is_free x \<and> is_free y)) rs"

definition region_tag :: "Bytes \<times> Region \<Rightarrow> AllocationId option \<times> Bytes \<times> Bytes" where
  "region_tag x = (rg_alloc_id (snd x), rg_offset (snd x), rg_length (snd x))"

definition alloc_tag :: "AllocationId \<times> Allocation \<Rightarrow> AllocationId option \<times> Bytes \<times> Bytes" where
  "alloc_tag e = (Some (fst e), al_offset (snd e), al_length (snd e))"

definition geometry_inv :: "ResourceLayout \<Rightarrow> bool" where
  "geometry_inv l \<longleftrightarrow> tiles 0 (lay_regions l) (unat (lay_capacity l)) \<and> coalesced (lay_regions l)"

definition free_index_inv :: "ResourceLayout \<Rightarrow> bool" where
  "free_index_inv l \<longleftrightarrow>
     sorted (lay_free_lengths l) \<and>
     mset (lay_free_lengths l) =
       mset (map (\<lambda>x. rg_length (snd x)) (filter is_free (lay_regions l))) \<and>
     unat (lay_free_capacity l) = sum_list (map region_size (filter is_free (lay_regions l)))"

definition registry_inv :: "ResourceLayout \<Rightarrow> bool" where
  "registry_inv l \<longleftrightarrow>
     om_inv (lay_allocations l) \<and>
     (\<forall>e \<in> set (lay_allocations l). al_id (snd e) = fst e) \<and>
     lay_alloc_offsets l = map (\<lambda>e. (fst e, al_offset (snd e))) (lay_allocations l) \<and>
     mset (map alloc_tag (lay_allocations l)) =
       mset (map region_tag (filter (\<lambda>x. \<not> is_free x) (lay_regions l))) \<and>
     unat (lay_alloc_count l) = length (lay_allocations l)"

definition untagged_inv :: "ResourceLayout \<Rightarrow> bool" where
  "untagged_inv l \<longleftrightarrow> (\<forall>x \<in> set (lay_regions l). is_free x \<longrightarrow> rg_alloc_id (snd x) = None)"

definition layout_inv :: "ResourceLayout \<Rightarrow> bool" where
  "layout_inv l \<longleftrightarrow> geometry_inv l \<and> free_index_inv l \<and> registry_inv l \<and> untagged_inv l"

subsection \<open>The bytes of a layout\<close>

definition region_bytes :: "Bytes \<times> Region \<Rightarrow> nat set" where
  "region_bytes x = {unat (fst x) ..< unat (fst x) + region_size x}"

definition alloc_bytes :: "Allocation \<Rightarrow> nat set" where
  "alloc_bytes a = {unat (al_offset a) ..< unat (al_offset a) + unat (al_length a)}"

definition used_bytes :: "ResourceLayout \<Rightarrow> nat set" where
  "used_bytes l = (\<Union>e \<in> set (lay_allocations l). alloc_bytes (snd e))"

definition free_bytes :: "ResourceLayout \<Rightarrow> nat set" where
  "free_bytes l = {0 ..< unat (lay_capacity l)} - used_bytes l"

section \<open>Tilings\<close>

lemma tiles_append: "tiles s (xs @ ys) e \<longleftrightarrow> (\<exists>m. tiles s xs m \<and> tiles m ys e)"
  by (induction xs arbitrary: s) auto

lemma tiles_le: "tiles s xs e \<Longrightarrow> s \<le> e"
  by (induction xs arbitrary: s) fastforce+

lemma tiles_bounds:
  assumes "tiles s xs e" and "x \<in> set xs"
  shows "s \<le> unat (fst x)" and "unat (fst x) + region_size x \<le> e" and "0 < region_size x"
    and "rg_offset (snd x) = fst x"
  using assms by (induction xs arbitrary: s) (auto dest: tiles_le, fastforce+)

lemma tiles_om_inv: "tiles s xs e \<Longrightarrow> om_inv xs"
proof (induction xs arbitrary: s)
  case (Cons x xs)
  then have rest: "tiles (s + region_size x) xs e" by simp
  have "fst x < fst y" if "y \<in> set xs" for y
    using tiles_bounds(1) [OF rest that] Cons.prems by (simp add: word_less_nat_alt)
  with Cons rest show ?case by auto
qed simp

lemma tiles_size: "tiles s xs e \<Longrightarrow> e = s + sum_list (map region_size xs)"
  by (induction xs arbitrary: s) fastforce+

lemma tiles_length: "tiles s xs e \<Longrightarrow> s + length xs \<le> e"
  by (induction xs arbitrary: s) fastforce+

lemma tiles_cover:
  assumes "tiles s xs e" and "s \<le> p" and "p < e"
  obtains ys x zs where "xs = ys @ x # zs" and "unat (fst x) \<le> p" and "p < unat (fst x) + region_size x"
  using assms
proof (induction xs arbitrary: s thesis)
  case Nil
  then show ?case by simp
next
  case (Cons x xs)
  show ?case
  proof (cases "p < s + region_size x")
    case True
    with Cons.prems show ?thesis
      by (intro Cons.prems(1) [of "[]" x xs]) auto
  next
    case False
    with Cons.prems(2,4) have "tiles (s + region_size x) xs e" "s + region_size x \<le> p" "p < e"
      by auto
    then obtain ys y zs where "xs = ys @ y # zs" "unat (fst y) \<le> p" "p < unat (fst y) + region_size y"
      by (rule Cons.IH [rotated])
    then show ?thesis by (intro Cons.prems(1) [of "x # ys" y zs]) auto
  qed
qed

lemma tiles_disjoint:
  assumes "tiles s (xs @ x # ys) e" and "y \<in> set xs \<union> set ys"
  shows "region_bytes x \<inter> region_bytes y = {}"
proof -
  obtain m where m: "tiles s xs m" "unat (fst x) = m" "tiles (m + region_size x) ys e"
    using assms(1) by (auto simp: tiles_append)
  from assms(2) show ?thesis
  proof
    assume "y \<in> set xs"
    from tiles_bounds(2) [OF m(1) this] m(2) show ?thesis by (auto simp: region_bytes_def)
  next
    assume "y \<in> set ys"
    from tiles_bounds(1) [OF m(3) this] m(2) show ?thesis by (auto simp: region_bytes_def)
  qed
qed

lemma tiles_union: "tiles s xs e \<Longrightarrow> (\<Union>x \<in> set xs. region_bytes x) = {s ..< e}"
proof (induction xs arbitrary: s)
  case (Cons x xs)
  then have rest: "tiles (s + region_size x) xs e" and "unat (fst x) = s" by auto
  with tiles_le [OF rest] Cons.IH [OF rest] show ?case
    by (auto simp: region_bytes_def)
qed simp

section \<open>Consequences of the invariant\<close>

lemma layout_inv_tiles: "layout_inv l \<Longrightarrow> tiles 0 (lay_regions l) (unat (lay_capacity l))"
  by (simp add: layout_inv_def geometry_inv_def)

lemma layout_inv_regions: "layout_inv l \<Longrightarrow> om_inv (lay_regions l)"
  by (rule tiles_om_inv [OF layout_inv_tiles])

lemma layout_inv_allocations: "layout_inv l \<Longrightarrow> om_inv (lay_allocations l)"
  by (simp add: layout_inv_def registry_inv_def)

lemma tag_set_eq:
  assumes "layout_inv l"
  shows "alloc_tag ` set (lay_allocations l) =
         region_tag ` {x \<in> set (lay_regions l). \<not> is_free x}"
proof -
  have "set (map alloc_tag (lay_allocations l)) =
        set (map region_tag (filter (\<lambda>x. \<not> is_free x) (lay_regions l)))"
    using assms mset_eq_setD unfolding layout_inv_def registry_inv_def by blast
  then show ?thesis by auto
qed

lemma sum_free_used:
  "sum_list (map region_size rs) =
   sum_list (map region_size (filter is_free rs)) + sum_list (map region_size (filter (\<lambda>x. \<not> is_free x) rs))"
  by (induction rs) auto

text \<open>The registry holds one allocation per allocated region, of the same size.\<close>

lemma registry_sizes:
  assumes "layout_inv l"
  shows "sum_list (map (\<lambda>e. unat (al_length (snd e))) (lay_allocations l)) =
         sum_list (map region_size (filter (\<lambda>x. \<not> is_free x) (lay_regions l)))"
    and "length (lay_allocations l) \<le> length (lay_regions l)"
proof -
  let ?f = "\<lambda>t :: AllocationId option \<times> Bytes \<times> Bytes. unat (snd (snd t))"
  let ?A = "map alloc_tag (lay_allocations l)"
  let ?R = "map region_tag (filter (\<lambda>x. \<not> is_free x) (lay_regions l))"
  have eq: "mset ?A = mset ?R"
    using assms by (simp add: layout_inv_def registry_inv_def)
  then have "sum_list (map ?f ?A) = sum_list (map ?f ?R)"
    by (rule sum_list_map_mset_cong)
  then show "sum_list (map (\<lambda>e. unat (al_length (snd e))) (lay_allocations l)) =
        sum_list (map region_size (filter (\<lambda>x. \<not> is_free x) (lay_regions l)))"
    by (simp add: comp_def alloc_tag_def region_tag_def region_size_def [abs_def])
  from eq have "length ?A = length ?R" by (rule mset_eq_length)
  then show "length (lay_allocations l) \<le> length (lay_regions l)" by simp
qed

lemma free_capacity_le:
  assumes "layout_inv l"
  shows "unat (lay_free_capacity l) \<le> unat (lay_capacity l)"
  using assms tiles_size [OF layout_inv_tiles [OF assms]] sum_free_used [of "lay_regions l"]
  by (simp add: layout_inv_def free_index_inv_def)

lemma capacity_split:
  assumes "layout_inv l"
  shows "unat (lay_capacity l) =
    unat (lay_free_capacity l) + sum_list (map (\<lambda>e. unat (al_length (snd e))) (lay_allocations l))"
  using assms tiles_size [OF layout_inv_tiles [OF assms]] sum_free_used [of "lay_regions l"]
    registry_sizes(1) [OF assms]
  by (simp add: layout_inv_def free_index_inv_def)

lemma alloc_region_unique:
  assumes "layout_inv l" and "(i, a) \<in> set (lay_allocations l)"
  obtains xs r ys where "lay_regions l = xs @ (al_offset a, r) # ys" and "rg_kind r = RK_ALLOCATED"
    and "rg_alloc_id r = Some i" and "rg_offset r = al_offset a" and "rg_length r = al_length a"
proof -
  have "alloc_tag (i, a) \<in> region_tag ` {x \<in> set (lay_regions l). \<not> is_free x}"
    using assms tag_set_eq by blast
  then obtain x where x: "x \<in> set (lay_regions l)" "\<not> is_free x" "region_tag x = alloc_tag (i, a)"
    by auto
  with tiles_bounds(4) [OF layout_inv_tiles [OF assms(1)]] have "fst x = al_offset a"
    by (auto simp: region_tag_def alloc_tag_def)
  moreover obtain xs ys where "lay_regions l = xs @ x # ys" using x(1) by (meson split_list)
  moreover have "rg_kind (snd x) = RK_ALLOCATED" using x(2) by (cases "rg_kind (snd x)") (auto simp: is_free_def)
  ultimately show thesis using x(3) that [of xs "snd x" ys]
    by (cases x) (auto simp: region_tag_def alloc_tag_def)
qed

section \<open>Inserting an allocation\<close>

lemma validate_geometry_None:
  "validate_geometry l off len = None \<longleftrightarrow>
     0 < unat len \<and> unat off + unat len \<le> unat (lay_capacity l)"
proof (cases "unat off \<le> unat (lay_capacity l)")
  case True
  then have d: "unat (lay_capacity l - off) = unat (lay_capacity l) - unat off"
    by (simp add: unat_sub word_le_nat_alt)
  have "unat (off + len) = unat off + unat len" if "unat off + unat len \<le> unat (lay_capacity l)"
    using that unat_u64_less [of "lay_capacity l"] by (intro unat_add_no_overflow) simp
  with True d show ?thesis
    by (auto simp: validate_geometry_def word_less_nat_alt unat_gt_0 split: if_splits)
next
  case False
  then show ?thesis
    by (auto simp: validate_geometry_def word_less_nat_alt)
qed

text \<open>An offset inside a region is found there.\<close>

lemma region_containing_middle:
  assumes inv: "layout_inv l" and regs: "lay_regions l = xs @ (k, r) # ys"
    and off: "unat k \<le> unat off" "unat off < unat k + unat (rg_length r)"
  shows "region_containing l off = Inr (Some (k, r))"
proof -
  note t = layout_inv_tiles [OF inv, unfolded regs]
  have t3: "tiles (unat k + unat (rg_length r)) ys (unat (lay_capacity l))"
    using t by (auto simp: tiles_append region_size_def)
  have "\<forall>e \<in> set ys. off < fst e"
    using tiles_bounds(1) [OF t3] off by (force simp: word_less_nat_alt)
  then have "om_before_upper_bound off (lay_regions l) = Some (k, r)"
    using off layout_inv_regions [OF inv] regs
    by (simp add: om_before_upper_bound_middle word_le_nat_alt)
  moreover have "rg_offset r = k" using t by (auto simp: tiles_append)
  moreover have "unat k + unat (rg_length r) < 2 ^ 64"
    using tiles_le [OF t3] unat_u64_less [of "lay_capacity l"] by simp
  ultimately show ?thesis
    using off
    by (simp add: region_containing_def Bytes_add_ok word_le_nat_alt word_less_nat_alt
        unat_add_no_overflow)
qed

definition left_part :: "Bytes \<Rightarrow> Bytes \<Rightarrow> (Bytes, Region) omap" where
  "left_part k off = (if k < off then [(k, free_region k (off - k))] else [])"

definition right_part :: "Bytes \<Rightarrow> Bytes \<Rightarrow> (Bytes, Region) omap" where
  "right_part ae fe = (if ae < fe then [(ae, free_region ae (fe - ae))] else [])"

definition split_lengths :: "Bytes \<Rightarrow> Bytes \<Rightarrow> Bytes \<Rightarrow> Bytes \<Rightarrow> Bytes list \<Rightarrow> Bytes list" where
  "split_lengths k off ae fe ls =
    (let ls1 = (if k < off then ms_insert (off - k) ls else ls)
     in if ae < fe then ms_insert (fe - ae) ls1 else ls1)"

text \<open>The layout after carving the allocation \<open>a\<close> out of the free region at \<open>k\<close>.\<close>

definition carved ::
  "ResourceLayout \<Rightarrow> Allocation \<Rightarrow> (Bytes, Region) omap \<Rightarrow> Bytes \<Rightarrow> Region \<Rightarrow> (Bytes, Region) omap \<Rightarrow> ResourceLayout"
where
  "carved l a xs k r ys =
    (let off = al_offset a; ae = off + al_length a; fe = k + rg_length r in
     l\<lparr>lay_regions := xs @ left_part k off @
          (off, allocated_region off (al_length a) (al_id a)) # right_part ae fe @ ys,
       lay_free_lengths := split_lengths k off ae fe (ms_erase_one (rg_length r) (lay_free_lengths l)),
       lay_allocations := om_put (al_id a) a (lay_allocations l),
       lay_alloc_offsets := om_put (al_id a) off (lay_alloc_offsets l),
       lay_free_capacity := lay_free_capacity l - al_length a,
       lay_alloc_count := lay_alloc_count l + 1\<rparr>)"

text \<open>The geometric facts every step of the carving uses.\<close>

lemma carve_arith:
  fixes off len :: Bytes
  assumes inv: "layout_inv l" and regs: "lay_regions l = xs @ (k, r) # ys"
    and fit: "unat k \<le> unat off" "unat off + unat len \<le> unat k + unat (rg_length r)" "0 < unat len"
  shows "rg_offset r = k"
    and "unat (k + rg_length r) = unat k + unat (rg_length r)"
    and "unat (off + len) = unat off + unat len"
    and "unat k + unat (rg_length r) < 2 ^ 64"
    and "\<forall>e \<in> set xs. fst e < k"
    and "\<forall>e \<in> set ys. k + rg_length r \<le> fst e"
proof -
  note t = layout_inv_tiles [OF inv, unfolded regs]
  have t1: "tiles 0 xs (unat k)" and t3: "tiles (unat k + unat (rg_length r)) ys (unat (lay_capacity l))"
    and "rg_offset r = k"
    using t by (auto simp: tiles_append region_size_def)
  then show "rg_offset r = k" by simp
  show b: "unat k + unat (rg_length r) < 2 ^ 64"
    using tiles_le [OF t3] unat_u64_less [of "lay_capacity l"] by simp
  then show fe: "unat (k + rg_length r) = unat k + unat (rg_length r)"
    by (rule unat_add_no_overflow)
  from b fit have "unat off + unat len < 2 ^ 64" by linarith
  then show "unat (off + len) = unat off + unat len" by (rule unat_add_no_overflow)
  show "\<forall>e \<in> set xs. fst e < k"
    using layout_inv_regions [OF inv] regs by (auto simp: om_inv_append)
  show "\<forall>e \<in> set ys. k + rg_length r \<le> fst e"
    using tiles_bounds(1) [OF t3] fe by (auto simp: word_le_nat_alt)
qed

lemma insert_allocation_carves:
  assumes inv: "layout_inv l" and regs: "lay_regions l = xs @ (k, r) # ys"
    and free: "rg_kind r = RK_FREE"
    and fit: "unat k \<le> unat (al_offset a)" "0 < unat (al_length a)"
      "unat (al_offset a) + unat (al_length a) \<le> unat k + unat (rg_length r)"
    and fresh: "om_find (lay_allocations l) (al_id a) = None"
  shows "insert_allocation l a = Inr (None, carved l a xs k r ys)"
proof -
  let ?off = "al_offset a" and ?len = "al_length a" and ?fe = "k + rg_length r"
  let ?ae = "al_offset a + al_length a"
  let ?A = "(?off, allocated_region ?off ?len (al_id a))"
  note ar = carve_arith [OF inv regs fit(1,3,2)]
  have cap: "unat k + unat (rg_length r) \<le> unat (lay_capacity l)"
    using tiles_bounds(2) [OF layout_inv_tiles [OF inv], of "(k, r)"] regs
    by (simp add: region_size_def)
  have v: "validate_geometry l ?off ?len = None"
    using fit cap by (simp add: validate_geometry_None)
  have rc: "region_containing l ?off = Inr (Some (k, r))"
    using fit by (intro region_containing_middle [OF inv regs]) auto
  have erased: "om_erase k (lay_regions l) = xs @ ys"
    using om_erase_middle [of xs k r ys] layout_inv_regions [OF inv] regs by simp
  have order: "k \<le> ?off" "?off < ?ae" "?ae \<le> ?fe" "k < ?fe"
    using fit ar(2,3) by (auto simp: word_le_nat_alt word_less_nat_alt)
  have e1: "k < ?off \<Longrightarrow> om_emplace k (free_region k (?off - k)) (xs @ ys) = xs @ left_part k ?off @ ys"
    using ar(5,6) order by (subst om_emplace_splice) (auto simp: left_part_def)
  have lo: "\<forall>e \<in> set (xs @ left_part k ?off). fst e < ?off"
    using ar(5) order by (auto simp: left_part_def)
  have hi: "\<forall>e \<in> set ys. ?off < fst e" "?ae < ?fe \<Longrightarrow> \<forall>e \<in> set ys. ?ae < fst e"
    using ar(6) order by auto
  have lo': "\<forall>e \<in> set (xs @ left_part k ?off @ [?A]). fst e < ?ae"
  proof
    fix e
    assume "e \<in> set (xs @ left_part k ?off @ [?A])"
    with lo have "fst e \<le> ?off" by (auto intro: less_imp_le)
    with order(2) show "fst e < ?ae" by (rule le_less_trans [rotated])
  qed
  have e2: "om_emplace ?off (snd ?A) (xs @ left_part k ?off @ ys) = xs @ left_part k ?off @ ?A # ys"
    using om_emplace_splice [OF lo hi(1), of "snd ?A"] by simp
  have e3: "?ae < ?fe \<Longrightarrow> om_emplace ?ae (free_region ?ae (?fe - ?ae)) (xs @ left_part k ?off @ ?A # ys)
      = xs @ left_part k ?off @ ?A # right_part ?ae ?fe @ ys"
    using om_emplace_splice [OF lo' hi(2), of "free_region ?ae (?fe - ?ae)"]
    by (simp add: right_part_def)
  have left: "\<not> k < ?off \<Longrightarrow> left_part k ?off = []" and right: "\<not> ?ae < ?fe \<Longrightarrow> right_part ?ae ?fe = []"
    by (auto simp: left_part_def right_part_def)
  have "unat ?len \<le> unat (lay_free_capacity l)"
  proof -
    have "unat (rg_length r) \<le> unat (lay_free_capacity l)"
      using inv free regs by (simp add: layout_inv_def free_index_inv_def is_free_def region_size_def)
    with fit show ?thesis by simp
  qed
  then have fc: "Bytes_sub (lay_free_capacity l) ?len = Inr (lay_free_capacity l - ?len)"
    by (simp add: Bytes_sub_ok word_le_nat_alt)
  have n: "Count_add (lay_alloc_count l) 1 = Inr (lay_alloc_count l + 1)"
  proof (rule Count_add_ok)
    have "length (lay_allocations l) < length (lay_regions l)"
    proof -
      have "length (map alloc_tag (lay_allocations l)) =
            length (map region_tag (filter (\<lambda>x. \<not> is_free x) (lay_regions l)))"
        using inv mset_eq_length unfolding layout_inv_def registry_inv_def by blast
      also have "\<dots> < length (lay_regions l)"
        using regs free by (auto simp: is_free_def intro!: le_imp_less_Suc add_mono)
      finally show ?thesis by simp
    qed
    then show "unat (lay_alloc_count l) + unat (1 :: Count) < 2 ^ 64"
      using inv tiles_length [OF layout_inv_tiles [OF inv]] unat_u64_less [of "lay_capacity l"]
      by (simp add: layout_inv_def registry_inv_def)
  qed
  note step = insert_allocation_def carved_def Let_def consume_free_def split_lengths_def
    v rc free fresh ar(1) erased fc n Bytes_add_ok Bytes_sub_ok om_emplace_fresh
  have add1: "Bytes_add k (rg_length r) = Inr ?fe" and add2: "Bytes_add ?off ?len = Inr ?ae"
    using ar(4) fit by (auto intro!: Bytes_add_ok)
  have e2': "om_emplace ?off (allocated_region ?off ?len (al_id a)) (xs @ ys) = xs @ ?A # ys"
    if "\<not> k < ?off" using e2 left [OF that] by simp
  show ?thesis
    using order(3) e1 e2 e2' e3 left right
    by (cases "k < ?off"; cases "?ae < ?fe") (simp_all add: step add1 add2 order less_imp_le not_less)
qed

lemma left_part_tiles:
  "k \<le> off \<Longrightarrow> tiles (unat k) (left_part k off) (unat off)"
  by (auto simp: left_part_def free_region_def region_size_def unat_sub word_le_nat_alt
      word_less_nat_alt not_less)

lemma right_part_tiles:
  "ae \<le> fe \<Longrightarrow> tiles (unat ae) (right_part ae fe) (unat fe)"
  by (auto simp: right_part_def free_region_def region_size_def unat_sub word_le_nat_alt
      word_less_nat_alt not_less)

lemma part_simps [simp]:
  "filter is_free (left_part k off) = left_part k off"
  "filter is_free (right_part k off) = right_part k off"
  "filter (\<lambda>x. \<not> is_free x) (left_part k off) = []"
  "filter (\<lambda>x. \<not> is_free x) (right_part k off) = []"
  by (auto simp: left_part_def right_part_def is_free_def free_region_def)

lemma region_tag_allocated [simp]: "region_tag (k, allocated_region off len i) = (Some i, off, len)"
  by (simp add: region_tag_def allocated_region_def)

lemma is_free_simps [simp]:
  "\<not> is_free (k, allocated_region off len i)"
  "is_free (k, free_region off len)"
  by (auto simp: is_free_def allocated_region_def free_region_def)

lemma free_part_sum:
  assumes "k \<le> off" "off \<le> ae" "ae \<le> fe"
  shows "sum_list (map region_size (left_part k off)) + sum_list (map region_size (right_part ae fe))
    = (unat off - unat k) + (unat fe - unat ae)"
  using tiles_size [OF left_part_tiles [OF assms(1)]] tiles_size [OF right_part_tiles [OF assms(3)]]
  by simp

lemma split_lengths_mset:
  "mset (split_lengths k off ae fe ls) =
   mset ls + mset (map (\<lambda>x. rg_length (snd x)) (left_part k off)) +
   mset (map (\<lambda>x. rg_length (snd x)) (right_part ae fe))"
  by (auto simp: split_lengths_def left_part_def right_part_def Let_def free_region_def)

lemma split_lengths_sorted: "sorted ls \<Longrightarrow> sorted (split_lengths k off ae fe ls)"
  by (auto simp: split_lengths_def Let_def intro: ms_insert_sorted)

lemma coalesced_middle_free:
  assumes "coalesced (xs @ x # ys)" and "is_free x"
  shows "coalesced xs" "coalesced ys" "xs \<noteq> [] \<Longrightarrow> \<not> is_free (last xs)"
    "ys \<noteq> [] \<Longrightarrow> \<not> is_free (hd ys)"
  using assms by (auto simp: coalesced_def successively_append_iff successively_Cons)

lemma carved_coalesced:
  assumes "coalesced (xs @ x # ys)" and "is_free x"
  shows "coalesced (xs @ left_part k off @ (off, allocated_region off len i) # right_part ae fe @ ys)"
  using coalesced_middle_free [OF assms]
  by (auto simp: coalesced_def successively_append_iff successively_Cons left_part_def right_part_def)

text \<open>Registering a fresh allocation puts it into both id-keyed tables at the same place.\<close>

lemma om_put_map_values:
  assumes "om_inv m" and "om_find m k = None"
  shows "om_put k (f v) (map (\<lambda>e. (fst e, f (snd e))) m) =
         map (\<lambda>e. (fst e, f (snd e))) (om_put k v m)"
proof (cases rule: om_split_at [OF assms(1), of k])
  case (1 lo hi)
  let ?g = "\<lambda>e. (fst e, f (snd e))"
  have "om_put k (f v) (map ?g lo @ map ?g hi) = map ?g lo @ (k, f v) # map ?g hi"
    using 1 by (intro om_put_splice) auto
  with 1 show ?thesis by (simp add: om_put_splice)
next
  case 2
  with assms(2) show ?thesis by simp
qed

lemma carved_registry:
  assumes inv: "layout_inv l" and regs: "lay_regions l = xs @ (k, r) # ys"
    and free: "rg_kind r = RK_FREE"
    and fresh: "om_find (lay_allocations l) (al_id a) = None"
    and count: "unat (lay_alloc_count l + 1) = unat (lay_alloc_count l) + 1"
  shows "registry_inv (carved l a xs k r ys)"
proof -
  have reg: "registry_inv l" using inv by (simp add: layout_inv_def)
  have om: "om_inv (lay_allocations l)" using inv by (rule layout_inv_allocations)
  let ?al = "om_put (al_id a) a (lay_allocations l)"
  have m: "mset ?al = add_mset (al_id a, a) (mset (lay_allocations l))"
    using om fresh by (rule om_put_mset)
  then have set: "set ?al = insert (al_id a, a) (set (lay_allocations l))"
    and len: "length ?al = Suc (length (lay_allocations l))"
    by (metis set_mset_add_mset_insert set_mset_mset) (metis m size_add_mset size_mset)
  have tags: "mset (map alloc_tag ?al) = add_mset (alloc_tag (al_id a, a)) (mset (map alloc_tag (lay_allocations l)))"
    using m by (metis image_mset_add_mset mset_map)
  show ?thesis
    using reg om_inv_put [OF om, of "al_id a" a] set len tags count regs free
      om_put_map_values [OF om fresh, of al_offset a]
    by (simp add: registry_inv_def carved_def Let_def is_free_def [of "(k, r)"] alloc_tag_def)
qed

lemma carved_inv:
  assumes inv: "layout_inv l" and regs: "lay_regions l = xs @ (k, r) # ys"
    and free: "rg_kind r = RK_FREE"
    and fit: "unat k \<le> unat (al_offset a)" "0 < unat (al_length a)"
      "unat (al_offset a) + unat (al_length a) \<le> unat k + unat (rg_length r)"
    and fresh: "om_find (lay_allocations l) (al_id a) = None"
    and count: "unat (lay_alloc_count l + 1) = unat (lay_alloc_count l) + 1"
  shows "layout_inv (carved l a xs k r ys)"
proof -
  let ?off = "al_offset a" and ?ae = "al_offset a + al_length a" and ?fe = "k + rg_length r"
  let ?regs = "xs @ left_part k ?off @ (?off, allocated_region ?off (al_length a) (al_id a)) #
    right_part ?ae ?fe @ ys"
  note ar = carve_arith [OF inv regs fit(1,3,2)]
  have t: "tiles 0 xs (unat k)" "tiles (unat ?fe) ys (unat (lay_capacity l))"
    using layout_inv_tiles [OF inv] ar(2) by (auto simp: regs tiles_append region_size_def)
  have order: "k \<le> ?off" "?off \<le> ?ae" "?ae \<le> ?fe"
    using fit ar(2,3) by (auto simp: word_le_nat_alt)
  have fr: "is_free (k, r)" using free by (simp add: is_free_def)
  have "tiles (unat ?off) ((?off, allocated_region ?off (al_length a) (al_id a)) # right_part ?ae ?fe @ ys)
      (unat (lay_capacity l))"
    using right_part_tiles [OF order(3)] t(2) ar(3) fit(2)
    by (auto simp: tiles_append allocated_region_def region_size_def)
  then have "tiles 0 ?regs (unat (lay_capacity l))"
    using t(1) left_part_tiles [OF order(1)] by (auto simp: tiles_append)
  moreover have "coalesced ?regs"
    using inv fr regs by (intro carved_coalesced [where x = "(k, r)"]) (auto simp: layout_inv_def geometry_inv_def)
  ultimately have "geometry_inv (carved l a xs k r ys)"
    by (simp add: geometry_inv_def carved_def Let_def)
  moreover have "free_index_inv (carved l a xs k r ys)"
  proof -
    have fi: "free_index_inv l" using inv by (simp add: layout_inv_def)
    have ms: "mset (lay_free_lengths l) = add_mset (rg_length r)
        (mset (map (\<lambda>x. rg_length (snd x)) (filter is_free xs)) +
         mset (map (\<lambda>x. rg_length (snd x)) (filter is_free ys)))"
      using fi fr by (simp add: free_index_inv_def regs)
    have sum: "unat (lay_free_capacity l) = unat (rg_length r) +
        sum_list (map region_size (filter is_free xs)) + sum_list (map region_size (filter is_free ys))"
      using fi fr by (simp add: free_index_inv_def regs region_size_def)
    have "unat (lay_free_capacity l - al_length a) = unat (lay_free_capacity l) - unat (al_length a)"
      using sum fit by (simp add: unat_sub word_le_nat_alt)
    then have "unat (lay_free_capacity l - al_length a) =
        sum_list (map region_size (filter is_free ?regs))"
      using sum free_part_sum [OF order] ar(2,3) fit by simp
    moreover have "sorted (lay_free_lengths l)" using fi by (simp add: free_index_inv_def)
    ultimately show ?thesis
      using ms by (simp add: free_index_inv_def carved_def Let_def split_lengths_mset
          split_lengths_sorted ms_erase_one_sorted ac_simps)
  qed
  moreover have "registry_inv (carved l a xs k r ys)"
    using inv regs free fresh count by (rule carved_registry)
  moreover have "untagged_inv (carved l a xs k r ys)"
    using inv by (auto simp: layout_inv_def untagged_inv_def carved_def regs Let_def left_part_def
        right_part_def free_region_def split: if_splits)
  ultimately show ?thesis by (simp add: layout_inv_def)
qed

section \<open>Removing an allocation\<close>

text \<open>The free neighbours of a region that its release merges with.\<close>

definition left_free :: "(Bytes, Region) omap \<Rightarrow> (Bytes, Region) omap" where
  "left_free xs = (if xs \<noteq> [] \<and> is_free (last xs) then [last xs] else [])"

definition left_rest :: "(Bytes, Region) omap \<Rightarrow> (Bytes, Region) omap" where
  "left_rest xs = (if xs \<noteq> [] \<and> is_free (last xs) then butlast xs else xs)"

definition right_free :: "(Bytes, Region) omap \<Rightarrow> (Bytes, Region) omap" where
  "right_free ys = (if ys \<noteq> [] \<and> is_free (hd ys) then [hd ys] else [])"

definition right_rest :: "(Bytes, Region) omap \<Rightarrow> (Bytes, Region) omap" where
  "right_rest ys = (if ys \<noteq> [] \<and> is_free (hd ys) then tl ys else ys)"

definition merged_start :: "Bytes \<Rightarrow> (Bytes, Region) omap \<Rightarrow> Bytes" where
  "merged_start off xs = (case left_free xs of [] \<Rightarrow> off | x # _ \<Rightarrow> fst x)"

definition merged_end :: "Bytes \<Rightarrow> (Bytes, Region) omap \<Rightarrow> Bytes" where
  "merged_end e ys = (case right_free ys of [] \<Rightarrow> e | y # _ \<Rightarrow> fst y + rg_length (snd y))"

definition erase_lengths :: "(Bytes, Region) omap \<Rightarrow> Bytes list \<Rightarrow> Bytes list" where
  "erase_lengths xs ls = fold (\<lambda>x. ms_erase_one (rg_length (snd x))) xs ls"

definition released ::
  "ResourceLayout \<Rightarrow> AllocationId \<Rightarrow> Allocation \<Rightarrow> (Bytes, Region) omap \<Rightarrow> (Bytes, Region) omap \<Rightarrow> ResourceLayout"
where
  "released l i a xs ys =
    (let s = merged_start (al_offset a) xs; e = merged_end (al_offset a + al_length a) ys in
     l\<lparr>lay_regions := left_rest xs @ (s, free_region s (e - s)) # right_rest ys,
       lay_free_lengths := ms_insert (e - s)
         (erase_lengths (left_free xs @ right_free ys) (lay_free_lengths l)),
       lay_free_capacity := lay_free_capacity l + al_length a,
       lay_alloc_count := lay_alloc_count l - 1,
       lay_allocations := om_erase i (lay_allocations l),
       lay_alloc_offsets := om_erase i (lay_alloc_offsets l)\<rparr>)"

lemma neighbours_split: "xs = left_rest xs @ left_free xs" "ys = right_free ys @ right_rest ys"
  by (auto simp: left_rest_def left_free_def right_rest_def right_free_def)

lemma neighbours_free:
  "filter is_free (left_free xs) = left_free xs" "filter is_free (right_free ys) = right_free ys"
  "filter (\<lambda>x. \<not> is_free x) (left_free xs) = []" "filter (\<lambda>x. \<not> is_free x) (right_free ys) = []"
  by (auto simp: left_free_def right_free_def)

lemma release_arith:
  assumes "tiles 0 (xs @ (off, r) # ys) cap" and "cap < 2 ^ 64"
  shows "tiles 0 (left_rest xs) (unat (merged_start off xs))"
    and "tiles (unat (merged_start off xs)) (left_free xs) (unat off)"
    and "unat (off + rg_length r) = unat off + unat (rg_length r)"
    and "tiles (unat (off + rg_length r)) (right_free ys) (unat (merged_end (off + rg_length r) ys))"
    and "tiles (unat (merged_end (off + rg_length r) ys)) (right_rest ys) cap"
proof -
  obtain m where left: "tiles 0 (left_rest xs) m" "tiles m (left_free xs) (unat off)"
    and right: "tiles (unat off + unat (rg_length r)) (right_free ys @ right_rest ys) cap"
    using assms(1) neighbours_split(1) [of xs] neighbours_split(2) [of ys]
    by (metis (no_types, lifting) fst_conv region_size_def snd_conv tiles.simps(2) tiles_append)
  have "m = unat (merged_start off xs)"
    using left(2) by (auto simp: merged_start_def split: list.splits)
  with left show "tiles 0 (left_rest xs) (unat (merged_start off xs))"
    and "tiles (unat (merged_start off xs)) (left_free xs) (unat off)" by simp_all
  have "unat off + unat (rg_length r) < 2 ^ 64" using tiles_le [OF right] assms(2) by simp
  then show own: "unat (off + rg_length r) = unat off + unat (rg_length r)"
    by (rule unat_add_no_overflow)
  obtain n where n: "tiles (unat off + unat (rg_length r)) (right_free ys) n" "tiles n (right_rest ys) cap"
    using right by (auto simp: tiles_append)
  have "n = unat (merged_end (off + rg_length r) ys)"
  proof (cases "right_free ys")
    case Nil
    with n(1) own show ?thesis by (simp add: merged_end_def)
  next
    case (Cons y zs)
    then have "zs = []" by (auto simp: right_free_def split: if_splits)
    moreover have "n < 2 ^ 64" using tiles_le [OF n(2)] assms(2) by simp
    ultimately show ?thesis
      using n(1) Cons by (simp add: merged_end_def region_size_def unat_add_no_overflow)
  qed
  with n own show "tiles (unat (off + rg_length r)) (right_free ys) (unat (merged_end (off + rg_length r) ys))"
    and "tiles (unat (merged_end (off + rg_length r) ys)) (right_rest ys) cap" by simp_all
qed

text \<open>The four ways the freed span can merge with its neighbours all end in the same splice.\<close>

lemma release_erases:
  assumes "om_inv (xs @ (off, r) # ys)"
  shows "left_free xs = [x] \<Longrightarrow> om_erase (fst x) (xs @ (off, r) # ys) = left_rest xs @ (off, r) # ys"
    and "right_free ys = [y] \<Longrightarrow> om_erase (fst y) (xs @ (off, r) # ys) = xs @ (off, r) # right_rest ys"
    and "right_free ys = [y] \<Longrightarrow>
      om_erase (fst y) (left_rest xs @ (off, r) # ys) = left_rest xs @ (off, r) # right_rest ys"
    and "om_erase off (left_rest xs @ (off, r) # right_rest ys) = left_rest xs @ right_rest ys"
proof -
  have split: "xs @ (off, r) # ys = left_rest xs @ left_free xs @ (off, r) # right_free ys @ right_rest ys"
    using neighbours_split by (metis append.assoc append_Cons)
  note inv = assms [unfolded split]
  show "om_erase (fst x) (xs @ (off, r) # ys) = left_rest xs @ (off, r) # ys" if "left_free xs = [x]"
    using om_erase_middle [of "left_rest xs" "fst x" "snd x" "(off, r) # ys"] assms that
      neighbours_split(1) [of xs] by (metis append.assoc append_Cons append_Nil prod.collapse)
  have right: "om_erase (fst y) (zs @ (off, r) # ys) = zs @ (off, r) # right_rest ys"
    if "right_free ys = [y]" "om_inv (zs @ (off, r) # ys)" for zs
    using om_erase_middle [of "zs @ [(off, r)]" "fst y" "snd y" "right_rest ys"] that
      neighbours_split(2) [of ys] by (metis append.assoc append_Cons append_Nil prod.collapse)
  show "om_erase (fst y) (xs @ (off, r) # ys) = xs @ (off, r) # right_rest ys" if "right_free ys = [y]"
    using right that assms by blast
  have "xs @ (off, r) # ys = left_rest xs @ left_free xs @ (off, r) # ys"
    using neighbours_split(1) [of xs] by (metis append.assoc)
  with assms have l: "om_inv (left_rest xs @ (off, r) # ys)"
    by (auto simp: om_inv_append)
  then show "om_erase (fst y) (left_rest xs @ (off, r) # ys) = left_rest xs @ (off, r) # right_rest ys"
    if "right_free ys = [y]" using right that by blast
  have "om_inv (left_rest xs @ (off, r) # right_rest ys)"
    using inv by (auto simp: om_inv_append)
  then show "om_erase off (left_rest xs @ (off, r) # right_rest ys) = left_rest xs @ right_rest ys"
    by (rule om_erase_middle)
qed

lemma release_emplace:
  assumes t: "tiles 0 (xs @ (off, r) # ys) cap" and "cap < 2 ^ 64"
  shows "om_emplace (merged_start off xs) v (left_rest xs @ right_rest ys) =
         left_rest xs @ (merged_start off xs, v) # right_rest ys"
proof (rule om_emplace_splice)
  note ar = release_arith [OF assms]
  show "\<forall>e \<in> set (left_rest xs). fst e < merged_start off xs"
    using tiles_bounds(2,3) [OF ar(1)] by (force simp: word_less_nat_alt)
  have "unat off < unat off + unat (rg_length r)" using t by (auto simp: tiles_append region_size_def)
  then have "merged_start off xs < merged_end (off + rg_length r) ys"
    using tiles_le [OF ar(2)] tiles_le [OF ar(4)] ar(3) by (simp add: word_less_nat_alt)
  then show "\<forall>e \<in> set (right_rest ys). merged_start off xs < fst e"
    using tiles_bounds(1) [OF ar(5)] by (force simp: word_less_nat_alt)
qed

lemma release_counters:
  assumes inv: "layout_inv l" and find: "om_find (lay_allocations l) i = Some a"
  shows "om_find (lay_alloc_offsets l) i = Some (al_offset a)"
    and "Bytes_add (lay_free_capacity l) (al_length a) = Inr (lay_free_capacity l + al_length a)"
    and "Count_sub (lay_alloc_count l) 1 = Inr (lay_alloc_count l - 1)"
    and "unat (lay_free_capacity l + al_length a) = unat (lay_free_capacity l) + unat (al_length a)"
    and "unat (lay_alloc_count l - 1) = length (lay_allocations l) - 1"
proof -
  show "om_find (lay_alloc_offsets l) i = Some (al_offset a)"
    using inv find by (simp add: layout_inv_def registry_inv_def om_find_map_values)
  have "(i, a) \<in> set (lay_allocations l)"
    using find layout_inv_allocations [OF inv] by (simp add: om_find_in_set)
  then have "unat (al_length a) \<le> sum_list (map (\<lambda>e. unat (al_length (snd e))) (lay_allocations l))"
    by (intro member_le_sum_list_nat) force
  then have "unat (lay_free_capacity l) + unat (al_length a) < 2 ^ 64"
    using capacity_split [OF inv] unat_u64_less [of "lay_capacity l"] by simp
  then show "Bytes_add (lay_free_capacity l) (al_length a) = Inr (lay_free_capacity l + al_length a)"
    and "unat (lay_free_capacity l + al_length a) = unat (lay_free_capacity l) + unat (al_length a)"
    by (rule Bytes_add_ok, rule unat_add_no_overflow)
  have "lay_allocations l \<noteq> []" using find by auto
  then have c: "1 \<le> lay_alloc_count l"
    using inv by (auto simp: layout_inv_def registry_inv_def word_le_nat_alt Suc_le_eq)
  then show "Count_sub (lay_alloc_count l) 1 = Inr (lay_alloc_count l - 1)"
    by (rule Count_sub_ok)
  from c show "unat (lay_alloc_count l - 1) = length (lay_allocations l) - 1"
    using inv by (simp add: unat_sub layout_inv_def registry_inv_def)
qed

lemma remove_allocation_releases:
  assumes inv: "layout_inv l" and find: "om_find (lay_allocations l) i = Some a"
    and regs: "lay_regions l = xs @ (al_offset a, r) # ys"
    and r: "rg_kind r = RK_ALLOCATED" "rg_alloc_id r = Some i" "rg_length r = al_length a"
  shows "remove_allocation l i = Inr (None, released l i a xs ys)"
proof -
  let ?off = "al_offset a" and ?len = "al_length a"
  let ?s = "merged_start ?off xs" and ?e = "merged_end (?off + ?len) ys"
  note t = layout_inv_tiles [OF inv, unfolded regs]
  note om = layout_inv_regions [OF inv, unfolded regs]
  note ar = release_arith [OF t unat_u64_less, unfolded r(3)]
  note er = release_erases [OF om]
  have ownlt: "unat ?off + unat ?len < 2 ^ 64" using ar(3) unat_u64_less [of "?off + ?len"] by simp
  have order: "?s \<le> ?off" "?off + ?len \<le> ?e" "?off < ?off + ?len"
    using tiles_le [OF ar(2)] tiles_le [OF ar(4)] t r(3) ar(3)
    by (auto simp: word_le_nat_alt word_less_nat_alt tiles_append region_size_def)
  then have "?s \<le> ?e" by simp
  note emp = release_emplace [OF t unat_u64_less, unfolded r(3)]
  note counters = release_counters [OF inv find]
  have keys: "x \<in> set (xs @ ys) \<Longrightarrow> rg_offset (snd x) = fst x" for x
    using tiles_bounds(4) [OF t] by auto
  have sub: "Bytes_sub ?e ?s = Inr (?e - ?s)" using \<open>?s \<le> ?e\<close> by (rule Bytes_sub_ok)
  have lf: "xs \<noteq> [] \<Longrightarrow> rg_kind (snd (last xs)) = RK_FREE \<Longrightarrow> left_free xs = [last xs]"
    "\<not> (xs \<noteq> [] \<and> rg_kind (snd (last xs)) = RK_FREE) \<Longrightarrow> left_free xs = [] \<and> left_rest xs = xs"
    by (auto simp: left_free_def left_rest_def is_free_def)
  have rf: "ys \<noteq> [] \<Longrightarrow> rg_kind (snd (hd ys)) = RK_FREE \<Longrightarrow> right_free ys = [hd ys]"
    "\<not> (ys \<noteq> [] \<and> rg_kind (snd (hd ys)) = RK_FREE) \<Longrightarrow> right_free ys = [] \<and> right_rest ys = ys"
    by (auto simp: right_free_def right_rest_def is_free_def)
  have radd: "Bytes_add (fst y) (rg_length (snd y)) = Inr (fst y + rg_length (snd y))"
    if "right_free ys = [y]" for y
  proof (rule Bytes_add_ok)
    show "unat (fst y) + unat (rg_length (snd y)) < 2 ^ 64"
      using ar(4) that unat_u64_less [of ?e] by (simp add: region_size_def)
  qed
  note step = remove_allocation_def find om_index_present [OF counters(1)] regs om_locate_middle [OF om] r
    Bytes_add_ok [OF ownlt] consume_free_def released_def Let_def erase_lengths_def counters(2,3)
  show ?thesis
  proof (cases "xs \<noteq> [] \<and> rg_kind (snd (last xs)) = RK_FREE")
    case L: True
    then have L': "left_free xs = [last xs]" "rg_offset (snd (last xs)) = ?s"
      using lf(1) keys [of "last xs"] by (auto simp: merged_start_def)
    show ?thesis
    proof (cases "ys \<noteq> [] \<and> rg_kind (snd (hd ys)) = RK_FREE")
      case R: True
      then have R': "right_free ys = [hd ys]" "rg_offset (snd (hd ys)) = fst (hd ys)"
        "fst (hd ys) + rg_length (snd (hd ys)) = ?e"
        using rf(1) keys [of "hd ys"] by (auto simp: merged_end_def)
      show ?thesis
        using L R by (simp add: step L' R' er(1) [OF L'(1)] er(3) [OF R'(1)] er(4) radd sub emp)
    next
      case R: False
      then have R': "right_free ys = []" "right_rest ys = ys" "?e = ?off + ?len"
        using rf(2) by (auto simp: merged_end_def)
      show ?thesis
        using L sub emp er(4) by (simp add: step L' R' er(1) [OF L'(1)] if_not_P [OF R])
    qed
  next
    case L: False
    then have L': "left_free xs = []" "left_rest xs = xs" "?s = ?off"
      using lf(2) by (auto simp: merged_start_def)
    show ?thesis
    proof (cases "ys \<noteq> [] \<and> rg_kind (snd (hd ys)) = RK_FREE")
      case R: True
      then have R': "right_free ys = [hd ys]" "rg_offset (snd (hd ys)) = fst (hd ys)"
        "fst (hd ys) + rg_length (snd (hd ys)) = ?e"
        using rf(1) keys [of "hd ys"] by (auto simp: merged_end_def)
      show ?thesis
        using R sub emp er(4) by (simp add: step L' R' er(2) [OF R'(1)] radd if_not_P [OF L])
    next
      case R: False
      then have R': "right_free ys = []" "right_rest ys = ys" "?e = ?off + ?len"
        using rf(2) by (auto simp: merged_end_def)
      show ?thesis
        using sub emp er(4) by (simp add: step L' R' if_not_P [OF L] if_not_P [OF R])
    qed
  qed
qed

lemma coalesced_released:
  assumes "coalesced (xs @ x # ys)"
  shows "coalesced (left_rest xs @ z # right_rest ys)"
proof -
  have c: "coalesced ((left_rest xs @ left_free xs) @ x # right_free ys @ right_rest ys)"
    using assms neighbours_split by simp
  then have "coalesced (left_rest xs)" "coalesced (right_rest ys)"
    by (auto simp: coalesced_def successively_append_iff successively_Cons)
  moreover have "left_rest xs \<noteq> [] \<Longrightarrow> \<not> is_free (last (left_rest xs))"
    using c by (auto simp: left_rest_def left_free_def coalesced_def successively_append_iff split: if_splits)
  moreover have "right_rest ys \<noteq> [] \<Longrightarrow> \<not> is_free (hd (right_rest ys))"
    using c by (auto simp: right_rest_def right_free_def coalesced_def successively_append_iff
        successively_Cons split: if_splits)
  ultimately show ?thesis
    by (auto simp: coalesced_def successively_append_iff successively_Cons)
qed

lemma erase_lengths_mset:
  "mset (erase_lengths zs ls) = mset ls - mset (map (\<lambda>x. rg_length (snd x)) zs)"
  by (induction zs arbitrary: ls) (auto simp: erase_lengths_def diff_diff_add)

lemma erase_lengths_sorted: "sorted ls \<Longrightarrow> sorted (erase_lengths zs ls)"
  by (induction zs arbitrary: ls) (auto simp: erase_lengths_def ms_erase_one_sorted)

lemma released_registry:
  assumes inv: "layout_inv l" and find: "om_find (lay_allocations l) i = Some a"
    and regs: "lay_regions l = xs @ (al_offset a, r) # ys"
    and r: "rg_kind r = RK_ALLOCATED" "rg_alloc_id r = Some i" "rg_offset r = al_offset a"
      "rg_length r = al_length a"
  shows "registry_inv (released l i a xs ys)"
proof -
  have reg: "registry_inv l" using inv by (simp add: layout_inv_def)
  have om: "om_inv (lay_allocations l)" using inv by (rule layout_inv_allocations)
  let ?al = "om_erase i (lay_allocations l)"
  have m: "mset (lay_allocations l) = add_mset (i, a) (mset ?al)"
    using om find by (rule om_erase_mset)
  then have len: "length (lay_allocations l) = Suc (length ?al)"
    by (metis size_add_mset size_mset)
  have offs: "om_erase i (map (\<lambda>e. (fst e, al_offset (snd e))) (lay_allocations l)) =
      map (\<lambda>e. (fst e, al_offset (snd e))) ?al"
    by (simp add: om_erase_def filter_map comp_def)
  have xs: "filter (\<lambda>x. \<not> is_free x) xs = filter (\<lambda>x. \<not> is_free x) (left_rest xs)"
    using neighbours_split(1) [of xs] neighbours_free(3) [of xs] by (metis append.right_neutral filter_append)
  have ys: "filter (\<lambda>x. \<not> is_free x) ys = filter (\<lambda>x. \<not> is_free x) (right_rest ys)"
    using neighbours_split(2) [of ys] neighbours_free(4) [of ys] by (metis append_Nil filter_append)
  have "add_mset (alloc_tag (i, a)) (mset (map alloc_tag ?al)) =
      mset (map region_tag (filter (\<lambda>x. \<not> is_free x) (lay_regions l)))"
    using reg m by (simp add: registry_inv_def)
  also have "\<dots> = add_mset (alloc_tag (i, a)) (mset (map region_tag
      (filter (\<lambda>x. \<not> is_free x) (left_rest xs @ right_rest ys))))"
    using r xs ys by (simp add: regs is_free_def [of "(al_offset a, r)"] region_tag_def alloc_tag_def)
  finally have "mset (map alloc_tag ?al) = mset (map region_tag
      (filter (\<lambda>x. \<not> is_free x) (left_rest xs @ right_rest ys)))"
    by simp
  moreover have "\<forall>e \<in> set ?al. al_id (snd e) = fst e"
    using reg by (simp add: registry_inv_def om_erase_def)
  moreover have "lay_alloc_offsets l = map (\<lambda>e. (fst e, al_offset (snd e))) (lay_allocations l)"
    using reg by (simp add: registry_inv_def)
  ultimately show ?thesis
    using om_inv_erase [OF om, of i] release_counters(5) [OF inv find] len offs
    by (simp add: registry_inv_def released_def Let_def)
qed

lemma released_inv:
  assumes inv: "layout_inv l" and find: "om_find (lay_allocations l) i = Some a"
    and regs: "lay_regions l = xs @ (al_offset a, r) # ys"
    and r: "rg_kind r = RK_ALLOCATED" "rg_alloc_id r = Some i" "rg_offset r = al_offset a"
      "rg_length r = al_length a"
  shows "layout_inv (released l i a xs ys)"
proof -
  let ?s = "merged_start (al_offset a) xs" and ?e = "merged_end (al_offset a + al_length a) ys"
  let ?regs = "left_rest xs @ (?s, free_region ?s (?e - ?s)) # right_rest ys"
  let ?len = "\<lambda>x :: Bytes \<times> Region. rg_length (snd x)"
  note t = layout_inv_tiles [OF inv, unfolded regs]
  note ar = release_arith [OF t unat_u64_less, unfolded r(4)]
  have "0 < unat (al_length a)" using t r by (auto simp: tiles_append region_size_def)
  then have lt: "unat ?s < unat ?e" using tiles_le [OF ar(2)] tiles_le [OF ar(4)] ar(3) by simp
  then have size: "unat (?e - ?s) = unat ?e - unat ?s" by (simp add: unat_sub word_le_nat_alt)
  have "geometry_inv (released l i a xs ys)"
  proof -
    have "tiles (unat ?s) ((?s, free_region ?s (?e - ?s)) # right_rest ys) (unat (lay_capacity l))"
      using ar(5) lt size by (simp add: free_region_def region_size_def)
    then have "tiles 0 ?regs (unat (lay_capacity l))"
      using ar(1) unfolding tiles_append by blast
    moreover have "coalesced ?regs"
      using inv regs by (intro coalesced_released [where x = "(al_offset a, r)"])
        (simp add: layout_inv_def geometry_inv_def)
    ultimately show ?thesis by (simp add: geometry_inv_def released_def Let_def)
  qed
  moreover have "free_index_inv (released l i a xs ys)"
  proof -
    have fi: "free_index_inv l" using inv by (simp add: layout_inv_def)
    have "filter is_free xs = filter is_free (left_rest xs) @ left_free xs"
      using neighbours_split(1) [of xs] neighbours_free(1) [of xs] by (metis filter_append)
    moreover have "filter is_free ys = right_free ys @ filter is_free (right_rest ys)"
      using neighbours_split(2) [of ys] neighbours_free(2) [of ys] by (metis filter_append)
    ultimately have free: "filter is_free (lay_regions l) =
        filter is_free (left_rest xs) @ left_free xs @ right_free ys @ filter is_free (right_rest ys)"
      using r(1) by (simp add: regs is_free_def [of "(al_offset a, r)"])
    have ms: "mset (lay_free_lengths l) = mset (map ?len (filter is_free (left_rest xs))) +
        mset (map ?len (left_free xs @ right_free ys)) + mset (map ?len (filter is_free (right_rest ys)))"
      using fi by (simp add: free_index_inv_def free ac_simps)
    have "unat (lay_free_capacity l + al_length a) = sum_list (map region_size (filter is_free ?regs))"
      using fi release_counters(4) [OF inv find] tiles_size [OF ar(2)] tiles_size [OF ar(4)] ar(3) lt size
      by (simp add: free_index_inv_def free) (simp add: free_region_def region_size_def)
    moreover have "sorted (lay_free_lengths l)" using fi by (simp add: free_index_inv_def)
    ultimately show ?thesis
      using ms by (simp add: free_index_inv_def released_def Let_def erase_lengths_mset
          ms_insert_sorted erase_lengths_sorted ac_simps) (simp add: free_region_def)
  qed
  moreover have "registry_inv (released l i a xs ys)"
    using assms by (rule released_registry)
  moreover have "untagged_inv (released l i a xs ys)"
    using inv neighbours_split(1) [of xs] neighbours_split(2) [of ys]
    by (auto simp: layout_inv_def untagged_inv_def released_def regs Let_def free_region_def
        left_rest_def right_rest_def dest: in_set_butlastD list.set_sel(2) split: if_splits)
  ultimately show ?thesis by (simp add: layout_inv_def)
qed

section \<open>The operations keep the invariant\<close>

lemma mk_layout_inv: "layout_inv (mk_layout c)"
proof (cases "c = 0")
  case True
  then show ?thesis
    by (simp add: mk_layout_def empty_layout_def layout_inv_def geometry_inv_def free_index_inv_def
        untagged_inv_def registry_inv_def coalesced_def)
next
  case False
  then have "0 < unat c" by (simp add: unat_gt_0)
  with False show ?thesis
    by (simp add: mk_layout_def empty_layout_def layout_inv_def geometry_inv_def free_index_inv_def
        untagged_inv_def registry_inv_def coalesced_def om_emplace_def om_put_def ms_insert_def free_region_def
        is_free_def region_size_def)
qed

lemma mk_layout_capacity [simp]: "lay_capacity (mk_layout c) = c" "lay_allocations (mk_layout c) = []"
  by (simp_all add: mk_layout_def empty_layout_def Let_def)

lemma remove_allocation_cases:
  assumes inv: "layout_inv l"
  obtains (absent) "om_find (lay_allocations l) i = None"
      "remove_allocation l i = Inr (Some ''allocation not found'', l)"
  | (present) a l' where "om_find (lay_allocations l) i = Some a" "remove_allocation l i = Inr (None, l')"
      "layout_inv l'" "lay_allocations l' = om_erase i (lay_allocations l)"
      "lay_capacity l' = lay_capacity l"
proof (cases "om_find (lay_allocations l) i")
  case None
  then show thesis by (intro absent) (simp_all add: remove_allocation_def)
next
  case (Some a)
  with layout_inv_allocations [OF inv] have "(i, a) \<in> set (lay_allocations l)"
    by (simp add: om_find_in_set)
  then obtain xs r ys where regs: "lay_regions l = xs @ (al_offset a, r) # ys"
    and r: "rg_kind r = RK_ALLOCATED" "rg_alloc_id r = Some i" "rg_offset r = al_offset a"
      "rg_length r = al_length a"
    using alloc_region_unique [OF inv] by metis
  show thesis
    using present [OF Some remove_allocation_releases [OF inv Some regs r(1,2,4)]
        released_inv [OF inv Some regs r]]
    by (simp add: released_def Let_def)
qed

lemma count_incr:
  assumes inv: "layout_inv l" and "x \<in> set (lay_regions l)" and "is_free x"
  shows "unat (lay_alloc_count l + 1) = unat (lay_alloc_count l) + 1"
    and "Count_add (lay_alloc_count l) 1 = Inr (lay_alloc_count l + 1)"
proof -
  have "length (lay_allocations l) = length (filter (\<lambda>x. \<not> is_free x) (lay_regions l))"
    using inv mset_eq_length [of "map alloc_tag (lay_allocations l)"
        "map region_tag (filter (\<lambda>x. \<not> is_free x) (lay_regions l))"]
    by (simp add: layout_inv_def registry_inv_def)
  also have "\<dots> < length (lay_regions l)"
    using assms(2,3) by (intro length_filter_less) auto
  finally have "unat (lay_alloc_count l) + unat (1 :: Count) < 2 ^ 64"
    using inv tiles_length [OF layout_inv_tiles [OF inv]] unat_u64_less [of "lay_capacity l"]
    by (simp add: layout_inv_def registry_inv_def)
  then show "unat (lay_alloc_count l + 1) = unat (lay_alloc_count l) + 1"
    and "Count_add (lay_alloc_count l) 1 = Inr (lay_alloc_count l + 1)"
    using unat_add_no_overflow [of "lay_alloc_count l" 1] by (auto intro: Count_add_ok)
qed

text \<open>
  Every outcome of \<open>insert_allocation\<close>: each error with its cause, and the success with the
  new registry.  Nothing else can happen, in particular no exception.
\<close>

lemma insert_allocation_cases:
  assumes inv: "layout_inv l"
  obtains (geometry) err where "insert_allocation l a = Inr (Some err, l)"
      "unat (al_length a) = 0 \<or> unat (lay_capacity l) < unat (al_offset a) + unat (al_length a)"
  | (duplicate) "insert_allocation l a = Inr (Some ''duplicate allocation id'', l)"
      "om_find (lay_allocations l) (al_id a) \<noteq> None"
  | (overlap) err where "insert_allocation l a = Inr (Some err, l)"
      "om_find (lay_allocations l) (al_id a) = None"
      "\<exists>x \<in> set (lay_regions l). \<not> is_free x \<and> region_bytes x \<inter> alloc_bytes a \<noteq> {}"
  | (inserted) xs k r ys where "insert_allocation l a = Inr (None, carved l a xs k r ys)"
      "lay_regions l = xs @ (k, r) # ys" "is_free (k, r)" "alloc_bytes a \<subseteq> region_bytes (k, r)"
      "0 < unat (al_length a)" "om_find (lay_allocations l) (al_id a) = None"
      "layout_inv (carved l a xs k r ys)"
proof (cases "validate_geometry l (al_offset a) (al_length a)")
  case (Some err)
  then have "unat (al_length a) = 0 \<or> unat (lay_capacity l) < unat (al_offset a) + unat (al_length a)"
    using validate_geometry_None [of l "al_offset a" "al_length a"] by auto
  with Some geometry show thesis by (simp add: insert_allocation_def)
next
  case None
  then have len: "0 < unat (al_length a)" and fits: "unat (al_offset a) + unat (al_length a) \<le> unat (lay_capacity l)"
    by (simp_all add: validate_geometry_None)
  show thesis
  proof (cases "om_find (lay_allocations l) (al_id a)")
    case (Some b)
    with None duplicate show thesis by (simp add: insert_allocation_def)
  next
    case fresh: None
    obtain xs x ys where regs: "lay_regions l = xs @ x # ys" and x: "unat (fst x) \<le> unat (al_offset a)"
      "unat (al_offset a) < unat (fst x) + region_size x"
      by (rule tiles_cover [OF layout_inv_tiles [OF inv], of "unat (al_offset a)"]) (use len fits in auto)
    obtain k r where kr: "x = (k, r)" by (cases x)
    note regs' = regs [unfolded kr]
    have rc: "region_containing l (al_offset a) = Inr (Some (k, r))"
      using x kr by (intro region_containing_middle [OF inv regs']) (auto simp: region_size_def)
    show thesis
    proof (cases "is_free x")
      case False
      then have "insert_allocation l a = Inr (Some ''allocation overlaps an existing allocation'', l)"
        using None fresh rc kr by (simp add: insert_allocation_def is_free_def)
      moreover have "unat (al_offset a) \<in> region_bytes x \<inter> alloc_bytes a"
        using x len by (simp add: region_bytes_def alloc_bytes_def)
      moreover have "x \<in> set (lay_regions l)" by (simp add: regs)
      ultimately show thesis using False by (intro overlap [OF _ fresh]) blast+
    next
      case free: True
      then have kind: "rg_kind r = RK_FREE" using kr by (simp add: is_free_def)
      show thesis
      proof (cases "unat (al_offset a) + unat (al_length a) \<le> unat k + unat (rg_length r)")
        case True
        note fit = x(1) [unfolded kr, simplified] len True
        have "alloc_bytes a \<subseteq> region_bytes (k, r)"
          using fit by (auto simp: alloc_bytes_def region_bytes_def region_size_def)
        with inserted [OF insert_allocation_carves [OF inv regs' kind fit fresh] regs'] free kr len fresh
          carved_inv [OF inv regs' kind fit fresh count_incr(1) [OF inv, of x]] regs
        show thesis by simp
      next
        case False
        note t = layout_inv_tiles [OF inv, unfolded regs]
        have rest: "tiles (unat k + region_size x) ys (unat (lay_capacity l))"
          using t kr by (auto simp: tiles_append)
        have "unat k + region_size x < unat (lay_capacity l)"
          using False fits kr by (simp add: region_size_def)
        then obtain y zs where ys: "ys = y # zs" using rest by (cases ys) auto
        have "coalesced (xs @ x # ys)" using inv regs by (simp add: layout_inv_def geometry_inv_def)
        then have "\<not> is_free y" using free ys by (auto simp: coalesced_def successively_append_iff)
        moreover have "unat k + region_size x \<in> region_bytes y \<inter> alloc_bytes a"
          using rest ys False x kr by (auto simp: region_bytes_def alloc_bytes_def region_size_def)
        moreover have "insert_allocation l a = Inr (Some ''allocation exceeds free region'', l)"
        proof -
          have b: "unat k + unat (rg_length r) < 2 ^ 64" "unat (al_offset a) + unat (al_length a) < 2 ^ 64"
            "rg_offset r = k"
            using tiles_le [OF rest] fits unat_u64_less [of "lay_capacity l"] kr t
            by (auto simp: region_size_def tiles_append)
          then have "k + rg_length r < al_offset a + al_length a"
            using False by (simp add: word_less_nat_alt unat_add_no_overflow)
          then show ?thesis
            using None fresh rc kind b
            by (simp add: insert_allocation_def Bytes_add_ok Let_def)
        qed
        moreover have "y \<in> set (lay_regions l)" by (simp add: regs ys)
        ultimately show thesis by (intro overlap [OF _ fresh]) blast+
      qed
    qed
  qed
qed

section \<open>The contract of the operations\<close>

text \<open>The free bytes are those of the free regions.\<close>

lemma alloc_bytes_region:
  assumes "layout_inv l" and "x \<in> set (lay_regions l)" and "region_tag x = alloc_tag e"
  shows "region_bytes x = alloc_bytes (snd e)"
  using tiles_bounds(4) [OF layout_inv_tiles [OF assms(1)] assms(2)] assms(3)
  by (simp add: region_tag_def alloc_tag_def region_bytes_def alloc_bytes_def region_size_def)

lemma used_bytes_regions:
  assumes inv: "layout_inv l"
  shows "used_bytes l = (\<Union>x \<in> {x \<in> set (lay_regions l). \<not> is_free x}. region_bytes x)"
    (is "_ = ?U")
proof (rule set_eqI, rule iffI)
  fix p assume "p \<in> used_bytes l"
  then obtain e where e: "e \<in> set (lay_allocations l)" "p \<in> alloc_bytes (snd e)"
    by (auto simp: used_bytes_def)
  then have "alloc_tag e \<in> region_tag ` {x \<in> set (lay_regions l). \<not> is_free x}"
    using tag_set_eq [OF inv] by blast
  then obtain x where x: "x \<in> {x \<in> set (lay_regions l). \<not> is_free x}" "region_tag x = alloc_tag e"
    by (elim imageE) simp
  with e alloc_bytes_region [OF inv, of x e] have "p \<in> region_bytes x" by simp
  with x(1) show "p \<in> ?U" by (rule UN_I)
next
  fix p assume "p \<in> ?U"
  then obtain x where x: "x \<in> {x \<in> set (lay_regions l). \<not> is_free x}" "p \<in> region_bytes x"
    by (elim UN_E)
  then have "region_tag x \<in> alloc_tag ` set (lay_allocations l)"
    using tag_set_eq [OF inv] by blast
  then obtain e where e: "e \<in> set (lay_allocations l)" "region_tag x = alloc_tag e"
    by (elim imageE)
  with x alloc_bytes_region [OF inv, of x e] have "p \<in> alloc_bytes (snd e)" by simp
  with e(1) show "p \<in> used_bytes l" unfolding used_bytes_def by (rule UN_I)
qed

lemma free_bytes_regions:
  assumes inv: "layout_inv l"
  shows "free_bytes l = (\<Union>x \<in> {x \<in> set (lay_regions l). is_free x}. region_bytes x)"
proof -
  let ?F = "\<Union>x \<in> {x \<in> set (lay_regions l). is_free x}. region_bytes x"
  let ?U = "\<Union>x \<in> {x \<in> set (lay_regions l). \<not> is_free x}. region_bytes x"
  have "{0 ..< unat (lay_capacity l)} = ?F \<union> ?U"
    unfolding tiles_union [OF layout_inv_tiles [OF inv], symmetric] by auto
  moreover have "?F \<inter> ?U = {}"
  proof -
    have "region_bytes x \<inter> region_bytes y = {}"
      if xy: "x \<in> set (lay_regions l)" "y \<in> set (lay_regions l)" "is_free x" "\<not> is_free y" for x y
    proof -
      obtain xs ys where regs: "lay_regions l = xs @ x # ys" using split_list [OF xy(1)] by blast
      with xy have "y \<in> set xs \<union> set ys" by auto
      then show ?thesis using tiles_disjoint layout_inv_tiles [OF inv] regs by metis
    qed
    then show ?thesis by blast
  qed
  ultimately show ?thesis unfolding free_bytes_def used_bytes_regions [OF inv] by blast
qed

end
