(* ===== verification/Layout_Contract.thy ===== *)
theory Layout_Contract
  imports Layout_Correct
begin

text \<open>
  What the operations of \<open>ResourceLayout\<close> promise to their clients, on top of the invariant of
  \<open>Layout_Correct\<close>: when an insertion is accepted, what the queries measure in terms of the
  bytes of the resource, that a layout is determined by its capacity and its allocations, and
  the interface locale \<open>reclaimable\<close> through which the fit oracle and the planner release
  allocations.
\<close>

section \<open>Insertion and removal\<close>

definition insertable :: "ResourceLayout \<Rightarrow> Allocation \<Rightarrow> bool" where
  "insertable l a \<longleftrightarrow>
     0 < unat (al_length a) \<and> unat (al_offset a) + unat (al_length a) \<le> unat (lay_capacity l) \<and>
     om_find (lay_allocations l) (al_id a) = None \<and> alloc_bytes a \<inter> used_bytes l = {}"

lemma insert_allocation_accepts:
  assumes inv: "layout_inv l" and ok: "insertable l a"
  obtains l' where "insert_allocation l a = Inr (None, l')" "layout_inv l'"
    "lay_allocations l' = om_put (al_id a) a (lay_allocations l)" "lay_capacity l' = lay_capacity l"
proof (cases rule: insert_allocation_cases [OF inv, of a, case_names geometry duplicate overlap inserted])
  case (inserted xs k r ys)
  then show thesis by (intro that [of "carved l a xs k r ys"]) (simp_all add: carved_def Let_def)
next
  case (overlap err)
  then have "alloc_bytes a \<inter> used_bytes l \<noteq> {}" by (auto simp: used_bytes_regions [OF inv])
  with ok show thesis by (simp add: insertable_def)
qed (use ok in \<open>auto simp: insertable_def\<close>)

lemma insert_allocation_rejects:
  assumes inv: "layout_inv l" and bad: "\<not> insertable l a"
  obtains err where "insert_allocation l a = Inr (Some err, l)"
proof (cases rule: insert_allocation_cases [OF inv, of a, case_names geometry duplicate overlap inserted])
  case (inserted xs k r ys)
  have "region_bytes (k, r) \<subseteq> {0 ..< unat (lay_capacity l)}"
    using tiles_union [OF layout_inv_tiles [OF inv]] inserted(2) by auto
  with inserted have "alloc_bytes a \<subseteq> {0 ..< unat (lay_capacity l)}" by blast
  then have "unat (al_offset a) + unat (al_length a) \<le> unat (lay_capacity l)"
    using inserted(5) by (simp add: alloc_bytes_def)
  moreover have "region_bytes (k, r) \<subseteq> free_bytes l"
    using inserted(2,3) by (auto simp: free_bytes_regions [OF inv])
  then have "alloc_bytes a \<inter> used_bytes l = {}"
    using inserted(4) by (auto simp: free_bytes_def)
  ultimately show thesis using bad inserted by (simp add: insertable_def)
qed (use that in auto)

lemma insert_allocation_total:
  assumes "layout_inv l"
  obtains r l' where "insert_allocation l a = Inr (r, l')" "layout_inv l'" "lay_capacity l' = lay_capacity l"
proof (cases "insertable l a")
  case True
  then show thesis using insert_allocation_accepts [OF assms True] that by metis
next
  case False
  then show thesis using insert_allocation_rejects [OF assms False] that assms by metis
qed

lemma update_allocation_inv:
  assumes inv: "layout_inv l"
  shows "layout_inv (snd (update_allocation l a))"
proof (cases "om_find (lay_allocations l) (al_id a)")
  case None
  then show ?thesis using inv by (simp add: update_allocation_def)
next
  case (Some b)
  show ?thesis
  proof (cases "al_offset b = al_offset a \<and> al_length b = al_length a")
    case False
    with Some inv show ?thesis by (auto simp: update_allocation_def)
  next
    case True
    have om: "om_inv (lay_allocations l)" and keys: "\<forall>e \<in> set (lay_allocations l). al_id (snd e) = fst e"
      and offs: "lay_alloc_offsets l = map (\<lambda>e. (fst e, al_offset (snd e))) (lay_allocations l)"
      using inv by (simp_all add: layout_inv_def registry_inv_def)
    obtain xs ys where m: "lay_allocations l = xs @ (al_id a, b) # ys"
      using Some om by (metis om_find_in_set split_list)
    have put: "om_put (al_id a) a (lay_allocations l) = xs @ (al_id a, a) # ys"
      using om unfolding m by (intro om_put_overwrite) (auto simp: om_inv_append)
    have "om_put (al_id a) (al_offset a) (lay_alloc_offsets l) =
        map (\<lambda>e. (fst e, al_offset (snd e))) (xs @ (al_id a, a) # ys)"
      using om unfolding offs m by (simp, intro om_put_overwrite) (auto simp: om_inv_append)
    moreover have "om_inv (xs @ (al_id a, a) # ys)" using om by (auto simp: m om_inv_append)
    moreover have "alloc_tag (al_id a, a) = alloc_tag (al_id a, b)"
      using True by (simp add: alloc_tag_def)
    ultimately show ?thesis
      using True Some inv keys put
      by (auto simp: update_allocation_def layout_inv_def geometry_inv_def free_index_inv_def
          untagged_inv_def registry_inv_def m)
  qed
qed

section \<open>What the queries measure\<close>

lemma card_regions:
  "tiles s xs e \<Longrightarrow>
   card (\<Union>x \<in> {x \<in> set xs. is_free x}. region_bytes x) = sum_list (map region_size (filter is_free xs))"
proof (induction xs arbitrary: s)
  case (Cons x xs)
  let ?U = "\<Union>x \<in> {x \<in> set xs. is_free x}. region_bytes x"
  from Cons.prems have rest: "tiles (s + region_size x) xs e" by simp
  have "region_bytes x \<inter> region_bytes y = {}" if "y \<in> set xs" for y
    using tiles_disjoint [of s "[]" x xs e y] Cons.prems that by simp
  then have disj: "region_bytes x \<inter> ?U = {}" by blast
  have fin: "finite ?U" by (auto simp: region_bytes_def)
  show ?case
  proof (cases "is_free x")
    case True
    then have "{y \<in> set (x # xs). is_free y} = insert x {y \<in> set xs. is_free y}" by auto
    then have "card (\<Union>y \<in> {y \<in> set (x # xs). is_free y}. region_bytes y) = card (region_bytes x \<union> ?U)"
      by simp
    also have "\<dots> = card (region_bytes x) + card ?U"
      using disj fin by (intro card_Un_disjoint) (auto simp: region_bytes_def)
    finally show ?thesis using True Cons.IH [OF rest] by (simp add: region_bytes_def)
  next
    case False
    then have "{y \<in> set (x # xs). is_free y} = {y \<in> set xs. is_free y}" by auto
    with False Cons.IH [OF rest] show ?thesis by simp
  qed
qed simp

lemma free_capacity_card:
  assumes "layout_inv l"
  shows "unat (free_capacity l) = card (free_bytes l)"
  using assms card_regions [OF layout_inv_tiles [OF assms]]
  by (simp add: free_capacity_def free_bytes_regions layout_inv_def free_index_inv_def)

lemma used_capacity_ok:
  assumes "layout_inv l"
  shows "used_capacity l = Inr (lay_capacity l - lay_free_capacity l)"
  using free_capacity_le [OF assms] by (simp add: used_capacity_def Bytes_sub_ok word_le_nat_alt)

text \<open>A run of free bytes lies in one free region, because free regions are maximal.\<close>

lemma free_run_in_region:
  assumes inv: "layout_inv l" and run: "{s ..< s + n} \<subseteq> free_bytes l" and n: "0 < n"
  obtains x where "x \<in> set (lay_regions l)" "is_free x" "{s ..< s + n} \<subseteq> region_bytes x"
proof -
  have "s \<in> free_bytes l" using run n by auto
  then obtain x where x: "x \<in> {x \<in> set (lay_regions l). is_free x}" "s \<in> region_bytes x"
    unfolding free_bytes_regions [OF inv] by (elim UN_E)
  then have mem: "x \<in> set (lay_regions l)" and free: "is_free x" by auto
  obtain xs ys where regs: "lay_regions l = xs @ x # ys" using split_list [OF mem] by blast
  let ?e = "unat (fst x) + region_size x"
  have "s + n \<le> ?e"
  proof (rule ccontr)
    assume "\<not> s + n \<le> ?e"
    then have "?e \<in> {s ..< s + n}" using x(2) by (auto simp: region_bytes_def)
    then have e: "?e \<in> free_bytes l" using run by blast
    then have "?e < unat (lay_capacity l)" by (simp add: free_bytes_def)
    moreover have t: "tiles ?e ys (unat (lay_capacity l))"
      using layout_inv_tiles [OF inv] regs by (auto simp: tiles_append)
    ultimately obtain y zs where ys: "ys = y # zs" by (cases ys) auto
    have "coalesced (xs @ x # ys)" using inv regs by (simp add: layout_inv_def geometry_inv_def)
    then have "\<not> is_free y" using free ys by (auto simp: coalesced_def successively_append_iff)
    moreover have "y \<in> set (lay_regions l)" by (simp add: regs ys)
    ultimately have "region_bytes y \<subseteq> used_bytes l" unfolding used_bytes_regions [OF inv] by blast
    moreover have "?e \<in> region_bytes y" using t ys by (simp add: region_bytes_def)
    ultimately show False using e by (auto simp: free_bytes_def)
  qed
  then have "{s ..< s + n} \<subseteq> region_bytes x" using x(2) by (auto simp: region_bytes_def)
  with mem free show thesis by (rule that)
qed

lemma free_lengths_set:
  assumes "layout_inv l"
  shows "set (lay_free_lengths l) = (\<lambda>x. rg_length (snd x)) ` {x \<in> set (lay_regions l). is_free x}"
proof -
  have "set (lay_free_lengths l) = set (map (\<lambda>x. rg_length (snd x)) (filter is_free (lay_regions l)))"
    using assms mset_eq_setD unfolding layout_inv_def free_index_inv_def by blast
  then show ?thesis by auto
qed

lemma largest_free_block_region:
  assumes inv: "layout_inv l" and "x \<in> set (lay_regions l)" and "is_free x"
  shows "rg_length (snd x) \<le> largest_free_block l"
proof -
  have mem: "rg_length (snd x) \<in> set (lay_free_lengths l)"
    unfolding free_lengths_set [OF inv] using assms(2,3) by (intro image_eqI [of _ _ x]) simp_all
  moreover have "sorted (lay_free_lengths l)" using inv by (simp add: layout_inv_def free_index_inv_def)
  ultimately show ?thesis
    using sorted_last_Max [of "lay_free_lengths l"] by (auto simp: largest_free_block_def)
qed

lemma largest_free_block_attained:
  assumes inv: "layout_inv l" and "lay_free_lengths l \<noteq> []"
  obtains x where "x \<in> set (lay_regions l)" "is_free x" "rg_length (snd x) = largest_free_block l"
proof -
  have "largest_free_block l \<in> set (lay_free_lengths l)" using assms(2) by (simp add: largest_free_block_def)
  then obtain x where "x \<in> {x \<in> set (lay_regions l). is_free x}" "largest_free_block l = rg_length (snd x)"
    unfolding free_lengths_set [OF inv] by (elim imageE)
  then show thesis by (intro that [of x]) simp_all
qed

lemma largest_free_block_bound:
  assumes inv: "layout_inv l" and run: "{s ..< s + n} \<subseteq> free_bytes l"
  shows "n \<le> unat (largest_free_block l)"
proof (cases "n = 0")
  case False
  then obtain x where x: "x \<in> set (lay_regions l)" "is_free x" "{s ..< s + n} \<subseteq> region_bytes x"
    using free_run_in_region [OF inv run] by blast
  then have "n \<le> region_size x" using False by (simp add: region_bytes_def)
  also have "\<dots> \<le> unat (largest_free_block l)"
    using largest_free_block_region [OF inv x(1,2)] by (simp add: region_size_def word_le_nat_alt)
  finally show ?thesis .
qed simp

lemma largest_free_block_run:
  assumes inv: "layout_inv l"
  obtains s where "{s ..< s + unat (largest_free_block l)} \<subseteq> free_bytes l"
proof (cases "lay_free_lengths l = []")
  case True
  then show thesis by (intro that [of 0]) (simp add: largest_free_block_def)
next
  case False
  then obtain x where x: "x \<in> set (lay_regions l)" "is_free x" "rg_length (snd x) = largest_free_block l"
    by (rule largest_free_block_attained [OF inv])
  then have "region_bytes x \<subseteq> free_bytes l" unfolding free_bytes_regions [OF inv] by blast
  then show thesis using x(3) by (intro that [of "unat (fst x)"]) (simp add: region_bytes_def region_size_def)
qed

lemma largest_le_free:
  assumes inv: "layout_inv l"
  shows "largest_free_block l \<le> free_capacity l"
proof -
  obtain s where "{s ..< s + unat (largest_free_block l)} \<subseteq> free_bytes l"
    using largest_free_block_run [OF inv] .
  then have "card {s ..< s + unat (largest_free_block l)} \<le> card (free_bytes l)"
    by (intro card_mono) (auto simp: free_bytes_def)
  then show ?thesis using free_capacity_card [OF inv] by (simp add: word_le_nat_alt)
qed

section \<open>A layout is determined by its capacity and its allocations\<close>

abbreviation busy_tags :: "(Bytes, Region) omap \<Rightarrow> (AllocationId option \<times> Bytes \<times> Bytes) set" where
  "busy_tags rs \<equiv> region_tag ` {x \<in> set rs. \<not> is_free x}"

lemma busy_tag_head:
  assumes "tiles s (y # ys) e" and "region_tag x \<in> busy_tags (y # ys)" and "unat (rg_offset (snd x)) = s"
  shows "\<not> is_free y \<and> region_tag y = region_tag x"
proof -
  obtain z where z: "z \<in> set (y # ys)" "\<not> is_free z" "region_tag z = region_tag x"
    using assms(2) by (elim imageE CollectE conjE) metis
  have "unat (fst z) = s"
    using tiles_bounds(4) [OF assms(1) z(1)] z(3) assms(3) by (simp add: region_tag_def)
  moreover have "s < unat (fst w)" if "w \<in> set ys" for w
    using tiles_bounds(1) [of _ ys e w] assms(1) that by fastforce
  ultimately have "z \<notin> set ys" by blast
  then have "z = y" using z(1) by simp
  with z show ?thesis by simp
qed

lemma free_head_le:
  assumes tx: "tiles s (x # xs) e" and ty: "tiles s (y # ys) e"
    and free: "is_free x" "is_free y" and coal: "coalesced (y # ys)"
    and tags: "busy_tags (y # ys) \<subseteq> busy_tags (x # xs)"
  shows "region_size x \<le> region_size y"
proof (cases ys)
  case Nil
  then show ?thesis using tx ty tiles_le [of "s + region_size x" xs e] by simp
next
  case (Cons z zs)
  then have "\<not> is_free z" using coal free(2) by (auto simp: coalesced_def)
  then have "region_tag z \<in> busy_tags (x # xs)" using tags Cons by auto
  then obtain w where w: "w \<in> set (x # xs)" "\<not> is_free w" "region_tag w = region_tag z"
    by (elim imageE CollectE conjE) metis
  then have "w \<in> set xs" using free(1) by auto
  then have "s + region_size x \<le> unat (fst w)" using tiles_bounds(1) [of _ xs e w] tx by auto
  moreover have "fst w = fst z"
    using tiles_bounds(4) [OF tx w(1)] tiles_bounds(4) [OF ty, of z] w(3) Cons by (simp add: region_tag_def)
  ultimately show ?thesis using ty Cons by simp
qed

lemma busy_tags_tail:
  assumes "tiles s (x # xs) e"
  shows "busy_tags xs = {t \<in> busy_tags (x # xs). s < unat (fst (snd t))}"
proof -
  have "s < unat (rg_offset (snd y))" if "y \<in> set xs" for y
    using tiles_bounds [of _ xs e y] assms that by fastforce
  moreover have "unat (rg_offset (snd x)) = s" using assms by simp
  ultimately show ?thesis by (auto simp: region_tag_def)
qed

lemma tiles_canonical:
  assumes "tiles s xs e" and "tiles s ys e" and "coalesced xs" and "coalesced ys"
    and "busy_tags xs = busy_tags ys"
    and "\<forall>x \<in> set (xs @ ys). is_free x \<longrightarrow> rg_alloc_id (snd x) = None"
  shows "xs = ys"
  using assms
proof (induction xs arbitrary: s ys)
  case Nil
  then show ?case by (cases ys) (auto dest: tiles_le)
next
  case (Cons x xs)
  then obtain y ys' where ys: "ys = y # ys'" by (cases ys) (auto dest: tiles_le)
  note tx = Cons.prems(1) and ty = Cons.prems(2) [unfolded ys]
  have tags: "busy_tags (x # xs) = busy_tags (y # ys')" using Cons.prems(5) ys by simp
  have offs: "unat (rg_offset (snd x)) = s" "unat (rg_offset (snd y)) = s" using tx ty by auto
  have headx: "\<not> is_free y \<and> region_tag y = region_tag x" if "\<not> is_free x"
  proof -
    have "region_tag x \<in> busy_tags (y # ys')" unfolding tags [symmetric] using that by simp
    then show ?thesis using busy_tag_head [OF ty _ offs(1)] by blast
  qed
  have heady: "\<not> is_free x" if "\<not> is_free y"
  proof -
    have "region_tag y \<in> busy_tags (x # xs)" unfolding tags using that by simp
    then show ?thesis using busy_tag_head [OF tx _ offs(2)] by blast
  qed
  have kinds: "is_free x = is_free y" using headx heady by blast
  have len: "rg_length (snd x) = rg_length (snd y)"
  proof (cases "is_free x")
    case True
    then have "region_size x = region_size y"
      using free_head_le [OF tx ty True _ _ equalityD2 [OF tags]]
        free_head_le [OF ty tx _ True Cons.prems(3) equalityD1 [OF tags]] kinds Cons.prems(4) ys
      by (simp add: antisym)
    then show ?thesis by (simp add: region_size_def word_unat_eq_iff)
  next
    case False
    then show ?thesis using headx by (simp add: region_tag_def)
  qed
  have "rg_alloc_id (snd x) = rg_alloc_id (snd y)"
    using headx kinds Cons.prems(6) ys by (cases "is_free x") (simp_all add: region_tag_def)
  moreover have "rg_kind (snd x) = rg_kind (snd y)"
    using kinds by (cases "rg_kind (snd x)"; cases "rg_kind (snd y)") (auto simp: is_free_def)
  moreover have "fst x = fst y" using tx ty by (simp add: word_unat_eq_iff)
  ultimately have "x = y" using len tx ty by (intro prod_eqI Region.equality) auto
  moreover have "xs = ys'"
  proof (rule Cons.IH)
    show "tiles (s + region_size x) xs e" "tiles (s + region_size x) ys' e"
      using tx ty \<open>x = y\<close> by auto
    show "coalesced xs" "coalesced ys'"
      using Cons.prems(3,4) ys by (auto simp: coalesced_def successively_Cons)
    show "busy_tags xs = busy_tags ys'"
      unfolding busy_tags_tail [OF tx] busy_tags_tail [OF ty] tags ..
    show "\<forall>x \<in> set (xs @ ys'). is_free x \<longrightarrow> rg_alloc_id (snd x) = None"
      using Cons.prems(6) ys by auto
  qed
  ultimately show ?case using ys by simp
qed

lemma sorted_mset_unique: "sorted xs \<Longrightarrow> sorted ys \<Longrightarrow> mset xs = mset ys \<Longrightarrow> xs = ys"
  by (metis properties_for_sort)

lemma layout_canonical:
  assumes inv: "layout_inv l" "layout_inv m" and cap: "lay_capacity l = lay_capacity m"
    and allocs: "lay_allocations l = lay_allocations m"
  shows "l = m"
proof -
  have "lay_regions l = lay_regions m"
  proof (rule tiles_canonical)
    show "tiles 0 (lay_regions l) (unat (lay_capacity m))" "tiles 0 (lay_regions m) (unat (lay_capacity m))"
      using layout_inv_tiles [OF inv(1)] layout_inv_tiles [OF inv(2)] cap by simp_all
    show "busy_tags (lay_regions l) = busy_tags (lay_regions m)"
      unfolding tag_set_eq [OF inv(1), symmetric] tag_set_eq [OF inv(2), symmetric] allocs ..
    show "coalesced (lay_regions l)" "coalesced (lay_regions m)"
      using inv by (simp_all add: layout_inv_def geometry_inv_def)
    show "\<forall>x \<in> set (lay_regions l @ lay_regions m). is_free x \<longrightarrow> rg_alloc_id (snd x) = None"
      using inv unfolding layout_inv_def untagged_inv_def set_append by blast
  qed
  moreover have "lay_free_lengths l = lay_free_lengths m"
    using inv calculation by (intro sorted_mset_unique) (simp_all add: layout_inv_def free_index_inv_def)
  moreover have "lay_free_capacity l = lay_free_capacity m" "lay_alloc_count l = lay_alloc_count m"
    "lay_alloc_offsets l = lay_alloc_offsets m"
    using inv calculation(1) allocs
    by (simp_all add: layout_inv_def free_index_inv_def registry_inv_def word_unat_eq_iff)
  ultimately show ?thesis using cap allocs by (intro ResourceLayout.equality) simp_all
qed

section \<open>The interface of a layout for reclaiming\<close>

text \<open>
  What the metrics, the fit oracle and the planner rely on when they simulate the release of
  allocations: a release of a registered allocation succeeds, returns exactly its bytes to the
  free capacity, never shrinks the largest free block, and the result depends on nothing but the
  capacity and the remaining allocations.
\<close>

locale reclaimable =
  fixes inv :: "'l \<Rightarrow> bool"
    and cap :: "'l \<Rightarrow> Bytes"
    and allocs :: "'l \<Rightarrow> (AllocationId, Allocation) omap"
    and free :: "'l \<Rightarrow> Bytes"
    and largest :: "'l \<Rightarrow> Bytes"
    and rel :: "'l \<Rightarrow> AllocationId \<Rightarrow> (string option \<times> 'l) res"
  assumes ordered: "inv l \<Longrightarrow> om_inv (allocs l)"
    and release: "inv l \<Longrightarrow> om_find (allocs l) i = Some a \<Longrightarrow>
      \<exists>l'. rel l i = Inr (None, l') \<and> inv l' \<and> cap l' = cap l \<and> allocs l' = om_erase i (allocs l) \<and>
        unat (free l') = unat (free l) + unat (al_length a) \<and> largest l \<le> largest l'"
    and determined: "inv l \<Longrightarrow> inv m \<Longrightarrow> cap l = cap m \<Longrightarrow> allocs l = allocs m \<Longrightarrow> l = m"
begin

lemma release_many:
  assumes "inv l" and "distinct ids" and "\<forall>i \<in> set ids. om_find (allocs l) i \<noteq> None"
  shows "\<exists>l'. fold_res (\<lambda>i s. chain (rel s i) (\<lambda>r. Inr (snd r))) ids l = Inr l' \<and> inv l' \<and>
    cap l' = cap l \<and> allocs l' = filter (\<lambda>e. fst e \<notin> set ids) (allocs l) \<and>
    unat (free l') = unat (free l) +
      sum_list (map (\<lambda>i. unat (al_length (the (om_find (allocs l) i)))) ids) \<and>
    largest l \<le> largest l'"
  using assms
proof (induction ids arbitrary: l)
  case Nil
  then show ?case by simp
next
  case (Cons i ids)
  then obtain a where a: "om_find (allocs l) i = Some a" by auto
  from release [OF Cons.prems(1) a] obtain l1 where l1: "rel l i = Inr (None, l1)" "inv l1" "cap l1 = cap l"
    "allocs l1 = om_erase i (allocs l)" "unat (free l1) = unat (free l) + unat (al_length a)"
    "largest l \<le> largest l1" by blast
  have same: "om_find (allocs l1) j = om_find (allocs l) j" if "j \<in> set ids" for j
    using that Cons.prems(2) by (auto simp: l1(4) om_find_erase)
  from Cons.IH [OF l1(2)] Cons.prems(2,3) same obtain l2 where l2:
    "fold_res (\<lambda>i s. chain (rel s i) (\<lambda>r. Inr (snd r))) ids l1 = Inr l2" "inv l2" "cap l2 = cap l1"
    "allocs l2 = filter (\<lambda>e. fst e \<notin> set ids) (allocs l1)"
    "unat (free l2) = unat (free l1) + sum_list (map (\<lambda>i. unat (al_length (the (om_find (allocs l1) i)))) ids)"
    "largest l1 \<le> largest l2" by auto
  have "sum_list (map (\<lambda>i. unat (al_length (the (om_find (allocs l1) i)))) ids) =
        sum_list (map (\<lambda>i. unat (al_length (the (om_find (allocs l) i)))) ids)"
    using same by (intro arg_cong [where f = sum_list] map_cong) simp_all
  moreover have "allocs l2 = filter (\<lambda>e. fst e \<notin> set (i # ids)) (allocs l)"
    by (auto simp: l2(4) l1(4) om_erase_def intro!: filter_cong)
  ultimately show ?case using l1(1,3,5,6) l2(1-3,5,6) a by simp
qed

lemma release_order_irrelevant:
  assumes "inv l" and "distinct ids" "distinct ids'" and "set ids = set ids'"
    and "\<forall>i \<in> set ids. om_find (allocs l) i \<noteq> None"
  shows "fold_res (\<lambda>i s. chain (rel s i) (\<lambda>r. Inr (snd r))) ids l =
         fold_res (\<lambda>i s. chain (rel s i) (\<lambda>r. Inr (snd r))) ids' l"
  using release_many [OF assms(1,2,5)] release_many [OF assms(1,3)] assms(4,5) determined by metis

text \<open>The loop \<open>for (auto& [id, alloc] : allocations()) if (p(alloc)) remove_allocation(id)\<close>.\<close>

lemma reclaim_loop:
  "fold_res (\<lambda>e s. if P (snd e) then chain (rel s (fst e)) (\<lambda>r. Inr (snd r)) else Inr s) es l =
   fold_res (\<lambda>i s. chain (rel s i) (\<lambda>r. Inr (snd r))) (map fst (filter (\<lambda>e. P (snd e)) es)) l"
  by (induction es arbitrary: l) (auto simp: chain_def split: sum.splits)

lemma reclaim_where:
  assumes inv: "inv l"
  shows "\<exists>l'. fold_res (\<lambda>e s. if P (snd e) then chain (rel s (fst e)) (\<lambda>r. Inr (snd r)) else Inr s)
      (allocs l) l = Inr l' \<and> inv l' \<and> cap l' = cap l \<and>
    allocs l' = filter (\<lambda>e. \<not> P (snd e)) (allocs l) \<and>
    unat (free l') = unat (free l) +
      sum_list (map (\<lambda>e. unat (al_length (snd e))) (filter (\<lambda>e. P (snd e)) (allocs l))) \<and>
    largest l \<le> largest l'"
proof -
  let ?es = "filter (\<lambda>e. P (snd e)) (allocs l)"
  have find: "om_find (allocs l) (fst e) = Some (snd e)" if "e \<in> set (allocs l)" for e
    using that ordered [OF inv] by (simp add: om_find_in_set)
  have "distinct (map fst ?es)"
    using om_inv_distinct [OF ordered [OF inv]] by (rule distinct_map_filter)
  then obtain l' where l': "fold_res (\<lambda>i s. chain (rel s i) (\<lambda>r. Inr (snd r))) (map fst ?es) l = Inr l'"
    "inv l'" "cap l' = cap l" "allocs l' = filter (\<lambda>e. fst e \<notin> set (map fst ?es)) (allocs l)"
    "unat (free l') = unat (free l) +
       sum_list (map (\<lambda>i. unat (al_length (the (om_find (allocs l) i)))) (map fst ?es))"
    "largest l \<le> largest l'"
    using release_many [OF inv, of "map fst ?es"] find by force
  have "map (\<lambda>i. unat (al_length (the (om_find (allocs l) i)))) (map fst ?es) =
        map (\<lambda>e. unat (al_length (snd e))) ?es"
    using find by simp
  moreover have "filter (\<lambda>e. fst e \<notin> set (map fst ?es)) (allocs l) = filter (\<lambda>e. \<not> P (snd e)) (allocs l)"
  proof (intro filter_cong refl)
    fix e assume e: "e \<in> set (allocs l)"
    have "P (snd e)" if "f \<in> set ?es" "fst f = fst e" for f
      using that find [OF e] find [of f] by auto
    with e show "fst e \<notin> set (map fst ?es) \<longleftrightarrow> \<not> P (snd e)" by auto
  qed
  ultimately show ?thesis using l' unfolding reclaim_loop by metis
qed

end

lemma remove_allocation_contract:
  assumes inv: "layout_inv l" and find: "om_find (lay_allocations l) i = Some a"
  shows "\<exists>l'. remove_allocation l i = Inr (None, l') \<and> layout_inv l' \<and> lay_capacity l' = lay_capacity l \<and>
    lay_allocations l' = om_erase i (lay_allocations l) \<and>
    unat (free_capacity l') = unat (free_capacity l) + unat (al_length a) \<and>
    largest_free_block l \<le> largest_free_block l'"
proof (cases rule: remove_allocation_cases [OF inv, of i, case_names absent present])
  case absent
  with find show ?thesis by simp
next
  case (present b l')
  then have "mset (lay_allocations l) = add_mset (i, a) (mset (lay_allocations l'))"
    using om_erase_mset find layout_inv_allocations [OF inv] by fastforce
  then have "sum_list (map (\<lambda>e. unat (al_length (snd e))) (lay_allocations l)) =
      unat (al_length a) + sum_list (map (\<lambda>e. unat (al_length (snd e))) (lay_allocations l'))"
    using sum_list_map_mset_cong [of "lay_allocations l" "(i, a) # lay_allocations l'"
        "\<lambda>e. unat (al_length (snd e))"] by simp
  then have "unat (free_capacity l') = unat (free_capacity l) + unat (al_length a)"
    using capacity_split [OF inv] capacity_split [OF present(3)] present(5) by (simp add: free_capacity_def)
  moreover obtain s where "{s ..< s + unat (largest_free_block l)} \<subseteq> free_bytes l"
    by (rule largest_free_block_run [OF inv])
  moreover have "free_bytes l \<subseteq> free_bytes l'"
    using present(4,5) by (auto simp: free_bytes_def used_bytes_def om_erase_def)
  ultimately show ?thesis
    using present largest_free_block_bound [OF present(3), of s "unat (largest_free_block l)"]
    by (auto simp: word_le_nat_alt)
qed

interpretation device_layout: reclaimable layout_inv lay_capacity lay_allocations free_capacity
    largest_free_block remove_allocation
proof unfold_locales
  show "om_inv (lay_allocations l)" if "layout_inv l" for l
    using that by (rule layout_inv_allocations)
qed (auto intro: remove_allocation_contract layout_canonical)

section \<open>Histories of a layout\<close>

text \<open>
  The layouts a program can hold: a fresh one and what any sequence of calls makes of it,
  whether the call returns \<open>true\<close> or \<open>false\<close>.
\<close>

inductive layout_reachable :: "Bytes \<Rightarrow> ResourceLayout \<Rightarrow> bool" for c where
  fresh: "layout_reachable c (mk_layout c)"
| insert: "layout_reachable c l \<Longrightarrow> insert_allocation l a = Inr (r, l') \<Longrightarrow> layout_reachable c l'"
| update: "layout_reachable c l \<Longrightarrow> update_allocation l a = (r, l') \<Longrightarrow> layout_reachable c l'"
| remove: "layout_reachable c l \<Longrightarrow> remove_allocation l i = Inr (r, l') \<Longrightarrow> layout_reachable c l'"

lemma layout_reachable_inv:
  "layout_reachable c l \<Longrightarrow> layout_inv l \<and> lay_capacity l = c"
proof (induction rule: layout_reachable.induct)
  case fresh
  then show ?case by (simp add: mk_layout_inv)
next
  case (insert l a r l')
  then show ?case by (metis insert_allocation_total sum.inject(2) prod.inject)
next
  case (update l a r l')
  then show ?case
    using update_allocation_inv [of l a] by (auto simp: update_allocation_def split: option.splits if_splits)
next
  case (remove l i r l')
  then have inv: "layout_inv l" by simp
  from remove show ?case by (cases rule: remove_allocation_cases [OF inv, of i]) auto
qed

lemma insert_reverts:
  assumes inv: "layout_inv l" and ok: "insertable l a" and ins: "insert_allocation l a = Inr (None, l')"
  shows "remove_allocation l' (al_id a) = Inr (None, l)"
proof -
  obtain m where "insert_allocation l a = Inr (None, m)" "layout_inv m"
    "lay_allocations m = om_put (al_id a) a (lay_allocations l)" "lay_capacity m = lay_capacity l"
    by (rule insert_allocation_accepts [OF inv ok])
  with ins have l': "layout_inv l'" "lay_allocations l' = om_put (al_id a) a (lay_allocations l)"
    "lay_capacity l' = lay_capacity l" by auto
  have om: "om_inv (lay_allocations l)" by (rule layout_inv_allocations [OF inv])
  then have find: "om_find (lay_allocations l') (al_id a) = Some a" by (simp add: l'(2) om_find_put)
  obtain l'' where l'': "remove_allocation l' (al_id a) = Inr (None, l'')" "layout_inv l''"
    "lay_capacity l'' = lay_capacity l'" "lay_allocations l'' = om_erase (al_id a) (lay_allocations l')"
    using remove_allocation_contract [OF l'(1) find] by blast
  have "lay_allocations l'' = lay_allocations l"
    unfolding l''(4) l'(2) using om ok by (intro std_map.put_erase_entries) (simp_all add: insertable_def)
  then have "l'' = l" using l'' l'(3) inv by (intro layout_canonical) simp_all
  with l''(1) show ?thesis by simp
qed

lemma alloc_region_in_bounds:
  assumes inv: "layout_inv l" and mem: "(i, a) \<in> set (lay_allocations l)"
  shows "0 < unat (al_length a)" and "unat (al_offset a) + unat (al_length a) \<le> unat (lay_capacity l)"
proof -
  obtain xs r ys where regs: "lay_regions l = xs @ (al_offset a, r) # ys" "rg_length r = al_length a"
    using alloc_region_unique [OF inv mem] by metis
  have "(al_offset a, r) \<in> set (lay_regions l)" by (simp add: regs(1))
  from tiles_bounds(2,3) [OF layout_inv_tiles [OF inv] this]
  show "0 < unat (al_length a)" and "unat (al_offset a) + unat (al_length a) \<le> unat (lay_capacity l)"
    by (simp_all add: region_size_def regs(2))
qed

lemma used_bytes_erase:
  assumes inv: "layout_inv l" and find: "om_find (lay_allocations l) i = Some a"
    and l': "lay_allocations l' = om_erase i (lay_allocations l)"
  shows "alloc_bytes a \<inter> used_bytes l' = {}" and "alloc_bytes a \<subseteq> used_bytes l"
proof -
  have mem: "(i, a) \<in> set (lay_allocations l)" using find layout_inv_allocations [OF inv] by (simp add: om_find_in_set)
  then show "alloc_bytes a \<subseteq> used_bytes l" unfolding used_bytes_def by force
  obtain xs r ys where regs: "lay_regions l = xs @ (al_offset a, r) # ys" "rg_alloc_id r = Some i"
    "rg_length r = al_length a" "rg_kind r = RK_ALLOCATED"
    using alloc_region_unique [OF inv mem] by metis
  have "alloc_bytes a \<inter> alloc_bytes b = {}" if b: "(j, b) \<in> set (lay_allocations l)" "j \<noteq> i" for j b
  proof -
    obtain xs' s ys' where s: "lay_regions l = xs' @ (al_offset b, s) # ys'" "rg_alloc_id s = Some j"
      "rg_length s = al_length b"
      using alloc_region_unique [OF inv b(1)] by metis
    have "(al_offset b, s) \<in> set (xs @ (al_offset a, r) # ys)" unfolding regs(1) [symmetric] s(1) by simp
    then have "(al_offset b, s) \<in> set xs \<union> set ys" using s(2) regs(2) b(2) by auto
    from tiles_disjoint [OF layout_inv_tiles [OF inv, unfolded regs(1)] this]
    show ?thesis by (simp add: region_bytes_def alloc_bytes_def region_size_def regs s)
  qed
  then show "alloc_bytes a \<inter> used_bytes l' = {}"
    by (fastforce simp: used_bytes_def l' om_erase_def)
qed

section \<open>Properties\<close>

definition sample_alloc :: "u64 \<Rightarrow> Bytes \<Rightarrow> Bytes \<Rightarrow> Movability \<Rightarrow> Allocation" where
  "sample_alloc i off len mv =
    \<lparr>al_id = TypedId i, al_generation = Generation 1, al_owner = TypedId 7, al_offset = off,
     al_length = len, al_movability = mv, al_reservation = None, al_policy_protected = False,
     al_workload = None, al_provenance = PV_MEASURED\<rparr>"

definition sample_layout :: ResourceLayout where
  "sample_layout =
    (case insert_allocation (mk_layout 4096) (sample_alloc 1 1024 512 MV_EVICTABLE) of
       Inr (_, l) \<Rightarrow> l | Inl _ \<Rightarrow> empty_layout)"

lemma sample_layout_reachable: "layout_reachable 4096 sample_layout"
proof -
  obtain r l where "insert_allocation (mk_layout 4096) (sample_alloc 1 1024 512 MV_EVICTABLE) = Inr (r, l)"
    by (rule insert_allocation_total [OF mk_layout_inv])
  then show ?thesis
    by (auto simp: sample_layout_def intro: layout_reachable.insert [OF layout_reachable.fresh])
qed

lemma sample_layout_inv: "layout_inv sample_layout"
  using layout_reachable_inv [OF sample_layout_reachable] by simp

lemma sample_layout_find:
  "find_allocation sample_layout (TypedId 1) = Some (sample_alloc 1 1024 512 MV_EVICTABLE)"
  by code_simp

text \<open>
  C3: Well-formedness.  Every layout that any sequence of insertions, updates and removals, each
  successful or refused, makes of a fresh one tiles its capacity with maximal free regions, backs
  every allocated region by exactly one registered allocation and keeps exact counters; and none
  of the operations can throw on it.
\<close>

theorem layout_reachable_wellformed:
  assumes "layout_reachable c l"
  shows "layout_inv l \<and> lay_capacity l = c \<and>
    (\<forall>a. \<exists>r. insert_allocation l a = Inr r) \<and> (\<forall>i. \<exists>r. remove_allocation l i = Inr r)"
proof -
  have inv: "layout_inv l" "lay_capacity l = c" using layout_reachable_inv [OF assms] by simp_all
  have "\<exists>r. insert_allocation l a = Inr r" for a using insert_allocation_total [OF inv(1)] by blast
  moreover have "\<exists>r. remove_allocation l i = Inr r" for i
    by (cases rule: remove_allocation_cases [OF inv(1), of i]) auto
  ultimately show ?thesis using inv by blast
qed

theorem layout_reachable_wellformed_witness:
  "layout_inv sample_layout \<and> (\<exists>r. insert_allocation sample_layout (sample_alloc 9 0 1 MV_UNKNOWN) = Inr r)"
  using layout_reachable_wellformed [OF sample_layout_reachable] by blast



text \<open>
  C11: Removal.  On a well-formed layout \<open>remove_allocation\<close> never throws.  A registered
  allocation is removed: the result is well-formed, exactly that entry leaves the registry, its
  bytes become free and nothing else changes hands, and the largest free block does not shrink.
  An unknown identity is refused and the layout is untouched.
\<close>

theorem remove_allocation_spec:
  assumes inv: "layout_inv l"
  shows "case find_allocation l i of
      None \<Rightarrow> remove_allocation l i = Inr (Some ''allocation not found'', l)
    | Some a \<Rightarrow> \<exists>l'. remove_allocation l i = Inr (None, l') \<and> layout_inv l' \<and>
        lay_capacity l' = lay_capacity l \<and> lay_allocations l' = om_erase i (lay_allocations l) \<and>
        free_bytes l' = free_bytes l \<union> alloc_bytes a \<and>
        unat (free_capacity l') = unat (free_capacity l) + unat (al_length a) \<and>
        largest_free_block l \<le> largest_free_block l'"
proof (cases "om_find (lay_allocations l) i")
  case None
  then show ?thesis by (simp add: find_allocation_def remove_allocation_def)
next
  case (Some a)
  obtain l' where l': "remove_allocation l i = Inr (None, l')" "layout_inv l'" "lay_capacity l' = lay_capacity l"
    "lay_allocations l' = om_erase i (lay_allocations l)"
    "unat (free_capacity l') = unat (free_capacity l) + unat (al_length a)"
    "largest_free_block l \<le> largest_free_block l'"
    using remove_allocation_contract [OF inv Some] by blast
  have mem: "(i, a) \<in> set (lay_allocations l)"
    using Some layout_inv_allocations [OF inv] by (simp add: om_find_in_set)
  then have "set (lay_allocations l) = insert (i, a) (set (lay_allocations l'))"
    using om_erase_mset [OF layout_inv_allocations [OF inv] Some] l'(4)
    by (metis set_mset_add_mset_insert set_mset_mset)
  then have "used_bytes l = alloc_bytes a \<union> used_bytes l'" by (simp add: used_bytes_def)
  moreover have "used_bytes l \<subseteq> {0 ..< unat (lay_capacity l)}"
    using tiles_union [OF layout_inv_tiles [OF inv]] used_bytes_regions [OF inv] by blast
  ultimately have "free_bytes l' = free_bytes l \<union> alloc_bytes a"
    using used_bytes_erase(1) [OF inv Some l'(4)] l'(3) by (auto simp: free_bytes_def)
  with l' Some show ?thesis by (simp add: find_allocation_def)
qed

theorem remove_allocation_spec_witness:
  "\<exists>l'. remove_allocation sample_layout (TypedId 1) = Inr (None, l') \<and> layout_inv l' \<and>
     free_bytes l' = free_bytes sample_layout \<union> {1024 ..< 1536}"
  using remove_allocation_spec [OF sample_layout_inv, of "TypedId 1"]
  unfolding sample_layout_find by (auto simp: alloc_bytes_def sample_alloc_def)

text \<open>
  C29: The queries.  On a well-formed layout the incremental counters mean what they say: the free
  capacity is the number of free bytes, \<open>used_capacity\<close> does not throw and complements it, and
  \<open>largest_free_block\<close> is the length of the longest run of consecutive free bytes: such a run
  exists and no longer one does.
\<close>

theorem layout_queries_exact:
  assumes inv: "layout_inv l"
  shows "unat (free_capacity l) = card (free_bytes l) \<and>
    (\<exists>u. used_capacity l = Inr u \<and> unat u + unat (free_capacity l) = unat (total_capacity l)) \<and>
    (\<exists>s. {s ..< s + unat (largest_free_block l)} \<subseteq> free_bytes l) \<and>
    (\<forall>s n. {s ..< s + n} \<subseteq> free_bytes l \<longrightarrow> n \<le> unat (largest_free_block l)) \<and>
    largest_free_block l \<le> free_capacity l"
proof -
  obtain s where run: "{s ..< s + unat (largest_free_block l)} \<subseteq> free_bytes l"
    by (rule largest_free_block_run [OF inv])
  have "unat (lay_capacity l - lay_free_capacity l) + unat (lay_free_capacity l) = unat (lay_capacity l)"
    using free_capacity_le [OF inv] by (simp add: unat_sub word_le_nat_alt)
  then show ?thesis
    using free_capacity_card [OF inv] used_capacity_ok [OF inv] run
      largest_free_block_bound [OF inv] largest_le_free [OF inv]
    by (auto simp: free_capacity_def total_capacity_def)
qed

theorem layout_queries_exact_witness:
  "card (free_bytes sample_layout) = 3584 \<and> \<not> {1000 ..< 3561} \<subseteq> free_bytes sample_layout"
proof -
  have "free_capacity sample_layout = 3584" "largest_free_block sample_layout = 2560" by code_simp+
  moreover have "{1000 ..< 1000 + 2561} \<subseteq> free_bytes sample_layout \<longrightarrow>
      2561 \<le> unat (largest_free_block sample_layout)"
    using layout_queries_exact [OF sample_layout_inv] by blast
  ultimately show ?thesis using layout_queries_exact [OF sample_layout_inv] by simp
qed

text \<open>
  C30: Canonicity.  Two layouts reached by any sequences of successful or failed calls from the
  same capacity are equal as soon as they register the same allocations: the interval map, the
  index of free lengths and all counters are a function of the capacity and the registry, so
  the order in which allocations came and went leaves no trace.
\<close>

theorem layout_history_irrelevant:
  assumes "layout_reachable c l" and "layout_reachable c m" and "lay_allocations l = lay_allocations m"
  shows "l = m"
  using assms layout_reachable_inv layout_canonical by metis

theorem layout_history_irrelevant_witness:
  "\<exists>l. layout_reachable 4096 l \<and> lay_allocations l = [] \<and> l = mk_layout 4096"
proof -
  obtain l where l: "remove_allocation sample_layout (TypedId 1) = Inr (None, l)"
    "lay_allocations l = om_erase (TypedId 1) (lay_allocations sample_layout)"
    using remove_allocation_contract [OF sample_layout_inv, of "TypedId 1"] sample_layout_find
    by (auto simp: find_allocation_def)
  have "lay_allocations l = []" unfolding l(2) by code_simp
  moreover have "layout_reachable 4096 l" using sample_layout_reachable l(1) by (rule layout_reachable.remove)
  ultimately show ?thesis
    using layout_history_irrelevant [of 4096 l "mk_layout 4096"] layout_reachable.fresh by auto
qed

text \<open>
  C31: Round trip.  Inserting an allocation and removing it again restores the layout exactly, and
  so does removing an allocation and inserting it again; in particular splitting and coalescing
  of free regions are inverse to each other.
\<close>

theorem insert_remove_roundtrip:
  assumes inv: "layout_inv l"
  shows "(insert_allocation l a = Inr (None, l') \<longrightarrow> remove_allocation l' (al_id a) = Inr (None, l)) \<and>
    (find_allocation l i = Some b \<longrightarrow>
       (\<exists>m. remove_allocation l i = Inr (None, m) \<and> insert_allocation m b = Inr (None, l)))"
proof (intro conjI impI)
  assume ins: "insert_allocation l a = Inr (None, l')"
  then have "insertable l a" using insert_allocation_rejects [OF inv, of a] by fastforce
  then show "remove_allocation l' (al_id a) = Inr (None, l)" using ins by (rule insert_reverts [OF inv])
next
  assume "find_allocation l i = Some b"
  then have find: "om_find (lay_allocations l) i = Some b" by (simp add: find_allocation_def)
  then have mem: "(i, b) \<in> set (lay_allocations l)"
    using layout_inv_allocations [OF inv] by (simp add: om_find_in_set)
  obtain m where m: "remove_allocation l i = Inr (None, m)" "layout_inv m" "lay_capacity m = lay_capacity l"
    "lay_allocations m = om_erase i (lay_allocations l)"
    using remove_allocation_contract [OF inv find] by blast
  have id: "al_id b = i" using mem inv by (auto simp: layout_inv_def registry_inv_def)
  have "insertable m b"
    using alloc_region_in_bounds [OF inv mem] used_bytes_erase(1) [OF inv find m(4)] m(3) id
    by (simp add: insertable_def m(4) om_find_erase)
  then obtain n where n: "insert_allocation m b = Inr (None, n)" "layout_inv n"
    "lay_allocations n = om_put (al_id b) b (lay_allocations m)" "lay_capacity n = lay_capacity m"
    by (rule insert_allocation_accepts [OF m(2)])
  have om: "om_inv (lay_allocations l)" by (rule layout_inv_allocations [OF inv])
  have "lay_allocations n = lay_allocations l"
    using om find id by (intro std_map.entries_determined)
      (auto simp: n(3) m(4) om_inv_put om_inv_erase om_find_put om_find_erase fun_eq_iff)
  then have "n = l" using n m(3) inv by (intro layout_canonical) simp_all
  with m n show "\<exists>m. remove_allocation l i = Inr (None, m) \<and> insert_allocation m b = Inr (None, l)" by blast
qed

theorem insert_remove_roundtrip_witness:
  "\<exists>m. remove_allocation sample_layout (TypedId 1) = Inr (None, m) \<and>
     insert_allocation m (sample_alloc 1 1024 512 MV_EVICTABLE) = Inr (None, sample_layout)"
  using insert_remove_roundtrip [OF sample_layout_inv] sample_layout_find by blast

end
