(* ===== verification/Binary64_Correct.thy ===== *)
theory Binary64_Correct
  imports Binary64
begin

text \<open>
  Rounding to binary64 is monotone and exact at 0 and 1, and the value of a pattern grows with
  the pattern.  Hence an exact result in \<open>[0, 1]\<close> rounds to a finite double in \<open>[0, 1]\<close>, which is
  what the score constructors of \<open>units.hpp\<close> check.
\<close>

section \<open>Powers of two and the order of magnitude\<close>

lemma pow2_powi: "pow2 k = 2 powi k"
  by (simp add: pow2_def power_int_def power_inverse field_simps)

lemma pow2_pos [simp]: "0 < pow2 k"
  by (simp add: pow2_powi)

lemma pow2_add: "pow2 (a + b) = pow2 a * pow2 b"
  by (simp add: pow2_powi power_int_add)

lemma pow2_mono: "a \<le> b \<Longrightarrow> pow2 a \<le> pow2 b"
  by (simp add: pow2_powi power_int_increasing)

lemma pow2_less_iff: "pow2 a < pow2 b \<longleftrightarrow> a < b"
  by (metis pow2_mono pow2_powi power_int_strict_increasing not_le one_less_numeral_iff semiring_norm(76))

lemma pow2_numeral [simp]: "pow2 0 = 1" "pow2 1 = 2"
  by (simp_all add: pow2_def)

lemma pow2_of_nat: "pow2 (int n) = 2 ^ n"
  by (simp add: pow2_def)

lemma pow2_minus: "pow2 (- k) * pow2 k = 1" "pow2 k * pow2 (- k) = 1"
  by (simp_all flip: pow2_add)

lemma floorlog_pow2:
  assumes "0 < p"
  shows "pow2 (int (floorlog 2 (nat p)) - 1) \<le> of_int p" "of_int p < pow2 (int (floorlog 2 (nat p)))"
proof -
  let ?b = "floorlog 2 (nat p)"
  have b: "2 ^ (?b - 1) \<le> nat p" "nat p < 2 ^ ?b" "0 < ?b"
    using floorlog_bounds [of "nat p" 2] assms floorlog_eq_zero_iff [of 2 "nat p"] by auto
  have "of_nat (2 ^ (?b - 1)) \<le> (of_nat (nat p) :: rat)" using b(1) by (simp only: of_nat_le_iff)
  moreover have "(of_nat (nat p) :: rat) < of_nat (2 ^ ?b)" using b(2) by (simp only: of_nat_less_iff)
  moreover have "int ?b - 1 = int (?b - 1)" using b(3) by simp
  moreover have "(of_nat (nat p) :: rat) = of_int p" using assms by simp
  ultimately show "pow2 (int ?b - 1) \<le> of_int p" "of_int p < pow2 (int ?b)"
    by (simp_all only: pow2_of_nat of_nat_power of_nat_numeral)
qed

lemma d_magnitude_bounds:
  assumes "0 < x"
  shows "pow2 (d_magnitude x) \<le> x" and "x < pow2 (d_magnitude x + 1)"
proof -
  obtain p q where pq: "quotient_of x = (p, q)" by (cases "quotient_of x")
  then have x: "x = of_int p / of_int q" and q: "0 < q"
    by (auto intro: quotient_of_div quotient_of_denom_pos)
  with assms have p: "0 < p" by (simp add: zero_less_divide_iff)
  define k where "k = int (floorlog 2 (nat p)) - int (floorlog 2 (nat q))"
  have Q: "(0 :: rat) < of_int q" using q by simp
  have "pow2 (k - 1) * of_int q \<le> pow2 (k - 1) * pow2 (int (floorlog 2 (nat q)))"
    using floorlog_pow2(2) [OF q] by (intro mult_left_mono) (auto simp: less_imp_le)
  also have "\<dots> = pow2 (int (floorlog 2 (nat p)) - 1)" by (simp add: k_def flip: pow2_add)
  also have "\<dots> \<le> of_int p" by (rule floorlog_pow2(1) [OF p])
  finally have lo: "pow2 (k - 1) \<le> x" using Q by (simp add: x pos_le_divide_eq)
  have "of_int p < pow2 (int (floorlog 2 (nat p)))" by (rule floorlog_pow2(2) [OF p])
  also have "\<dots> = pow2 (k + 1) * pow2 (int (floorlog 2 (nat q)) - 1)" by (simp add: k_def flip: pow2_add)
  also have "\<dots> \<le> pow2 (k + 1) * of_int q"
    using floorlog_pow2(1) [OF q] by (intro mult_left_mono) (auto simp: less_imp_le)
  finally have hi: "x < pow2 (k + 1)" using Q by (simp add: x pos_divide_less_eq)
  have m: "d_magnitude x = (if pow2 k \<le> x then k else k - 1)"
    by (simp add: d_magnitude_def pq k_def Let_def)
  show "pow2 (d_magnitude x) \<le> x" and "x < pow2 (d_magnitude x + 1)" using lo hi m by auto
qed

lemma d_magnitude_mono: "0 < x \<Longrightarrow> x \<le> y \<Longrightarrow> d_magnitude x \<le> d_magnitude y"
proof -
  assume "0 < x" "x \<le> y"
  then have "pow2 (d_magnitude x) < pow2 (d_magnitude y + 1)"
    using d_magnitude_bounds(1) [of x] d_magnitude_bounds(2) [of y] by simp
  then show ?thesis by (simp add: pow2_less_iff)
qed

lemma d_magnitude_one: "d_magnitude 1 = 0"
  using d_magnitude_bounds [of 1] pow2_less_iff [of 0 "d_magnitude 1 + 1"] pow2_less_iff [of 0 "d_magnitude 1"]
  by simp

section \<open>Rounding is monotone\<close>

lemma round_half_even_int [simp]: "round_half_even (of_int n) = n"
  by (simp add: round_half_even_def)

lemma round_half_even_cases: "round_half_even x = \<lfloor>x\<rfloor> \<or> round_half_even x = \<lfloor>x\<rfloor> + 1"
  by (simp add: round_half_even_def Let_def)

lemma round_half_even_mono:
  assumes "x \<le> y" shows "round_half_even x \<le> round_half_even y"
proof (cases "\<lfloor>x\<rfloor> = \<lfloor>y\<rfloor>")
  case True
  with assms show ?thesis by (auto simp: round_half_even_def Let_def)
next
  case False
  with assms have "\<lfloor>x\<rfloor> + 1 \<le> \<lfloor>y\<rfloor>" using floor_mono [OF assms] by simp
  with round_half_even_cases [of x] round_half_even_cases [of y] show ?thesis by auto
qed

lemma scaled_bounds:
  assumes "0 < x"
  shows "x * pow2 (- d_ulp_exponent x) < 2 ^ 53"
    and "- 1074 < d_ulp_exponent x \<Longrightarrow> 2 ^ 52 \<le> x * pow2 (- d_ulp_exponent x)"
proof -
  let ?e = "d_ulp_exponent x"
  have e: "d_magnitude x + 1 \<le> ?e + 53" by (simp add: d_ulp_exponent_def)
  have "x < pow2 (?e + 53)" using d_magnitude_bounds(2) [OF assms] pow2_mono [OF e] by simp
  then have "x * pow2 (- ?e) < pow2 (?e + 53) * pow2 (- ?e)" by (simp add: mult_strict_right_mono)
  also have "\<dots> = 2 ^ 53" using pow2_of_nat [of 53] by (simp flip: pow2_add)
  finally show "x * pow2 (- ?e) < 2 ^ 53" .
  assume "- 1074 < ?e"
  then have "?e + 52 = d_magnitude x" by (simp add: d_ulp_exponent_def max_def split: if_splits)
  then have "pow2 (?e + 52) \<le> x" using d_magnitude_bounds(1) [OF assms] by simp
  then have "pow2 (?e + 52) * pow2 (- ?e) \<le> x * pow2 (- ?e)" by (simp add: mult_right_mono less_imp_le)
  moreover have "pow2 (?e + 52) * pow2 (- ?e) = 2 ^ 52" using pow2_of_nat [of 52] by (simp flip: pow2_add)
  ultimately show "2 ^ 52 \<le> x * pow2 (- ?e)" by simp
qed

definition unclipped :: "rat \<Rightarrow> int" where
  "unclipped x = (d_ulp_exponent x + 1074) * 2 ^ 52 + round_half_even (x * pow2 (- d_ulp_exponent x))"

lemma d_round_nonneg_unclipped:
  "0 < x \<Longrightarrow> d_round_nonneg x = min (unclipped x) (2047 * 2 ^ 52)"
  by (simp add: d_round_nonneg_def unclipped_def Let_def)

lemma unclipped_mono:
  assumes "0 < x" and "x \<le> y"
  shows "unclipped x \<le> unclipped y"
proof (cases "d_ulp_exponent x = d_ulp_exponent y")
  case True
  have "round_half_even (x * pow2 (- d_ulp_exponent y)) \<le> round_half_even (y * pow2 (- d_ulp_exponent y))"
    using assms by (intro round_half_even_mono mult_right_mono) (simp_all add: less_imp_le)
  with True show ?thesis by (simp add: unclipped_def)
next
  case False
  have "d_ulp_exponent x \<le> d_ulp_exponent y"
    using d_magnitude_mono [OF assms] by (simp add: d_ulp_exponent_def)
  with False have lt: "d_ulp_exponent x + 1 \<le> d_ulp_exponent y" by simp
  moreover have "- 1074 \<le> d_ulp_exponent x" by (simp add: d_ulp_exponent_def)
  ultimately have "2 ^ 52 \<le> y * pow2 (- d_ulp_exponent y)" using assms by (intro scaled_bounds(2)) auto
  then have "round_half_even (of_int (2 ^ 52)) \<le> round_half_even (y * pow2 (- d_ulp_exponent y))"
    by (intro round_half_even_mono) simp
  moreover have "round_half_even (x * pow2 (- d_ulp_exponent x)) \<le> round_half_even (of_int (2 ^ 53))"
    using scaled_bounds(1) [OF assms(1)] by (intro round_half_even_mono) simp
  moreover have "(d_ulp_exponent x + 1) * 2 ^ 52 \<le> d_ulp_exponent y * (2 ^ 52 :: int)"
    using lt by (intro mult_right_mono) simp_all
  ultimately show ?thesis unfolding unclipped_def round_half_even_int by (simp add: algebra_simps)
qed

lemma unclipped_nonneg: "0 < x \<Longrightarrow> 0 \<le> unclipped x"
proof -
  assume x: "0 < x"
  have "round_half_even (of_int 0) \<le> round_half_even (x * pow2 (- d_ulp_exponent x))"
    using x by (intro round_half_even_mono) (simp add: less_imp_le)
  moreover have "0 \<le> (d_ulp_exponent x + 1074) * (2 ^ 52 :: int)"
    by (intro mult_nonneg_nonneg) (simp_all add: d_ulp_exponent_def)
  ultimately show ?thesis unfolding unclipped_def round_half_even_int by linarith
qed

lemma d_round_nonneg_zero [simp]: "d_round_nonneg 0 = 0"
  by (simp add: d_round_nonneg_def)

lemma d_round_nonneg_mono: "0 \<le> x \<Longrightarrow> x \<le> y \<Longrightarrow> d_round_nonneg x \<le> d_round_nonneg y"
  using unclipped_mono [of x y] unclipped_nonneg [of y]
  by (cases "x = 0"; cases "y = 0") (auto simp: d_round_nonneg_unclipped)

lemma d_round_nonneg_range:
  assumes "0 \<le> x" shows "0 \<le> d_round_nonneg x" and "d_round_nonneg x \<le> 2047 * 2 ^ 52"
  using d_round_nonneg_mono [of 0 x] assms d_round_nonneg_unclipped [of x]
  by (auto simp: d_round_nonneg_def Let_def)

lemma d_round_nonneg_one: "d_round_nonneg 1 = 1023 * 2 ^ 52"
proof -
  have e: "d_ulp_exponent 1 = - 52" by (simp add: d_ulp_exponent_def d_magnitude_one)
  have "round_half_even (pow2 52) = 2 ^ 52"
    using round_half_even_int [of "2 ^ 52"] pow2_of_nat [of 52] by simp
  then show ?thesis by (simp add: d_round_nonneg_unclipped unclipped_def e)
qed

section \<open>Values of patterns\<close>

definition pattern_val :: "int \<Rightarrow> rat" where
  "pattern_val n = (if n div 2 ^ 52 = 0 then of_int (n mod 2 ^ 52) * pow2 (- 1074)
     else (2 ^ 52 + of_int (n mod 2 ^ 52)) * pow2 (n div 2 ^ 52 - 1075))"

lemma d_val_pattern:
  assumes "0 \<le> n" and "n < 2 ^ 63"
  shows "d_val (word_of_int n) = pattern_val n" "d_exponent (word_of_int n) = n div 2 ^ 52"
proof -
  have u: "uint (word_of_int n :: double) = n"
    using assms by (simp add: uint_word_of_int take_bit_int_eq_self)
  have "n div 2 ^ 52 < 2 ^ 11" using assms(2) by simp
  then have e: "d_exponent (word_of_int n) = n div 2 ^ 52"
    using assms by (simp add: d_exponent_def u)
  then show "d_exponent (word_of_int n) = n div 2 ^ 52" .
  show "d_val (word_of_int n) = pattern_val n"
    using assms by (simp add: d_val_def e d_fraction_def d_sign_def u pattern_val_def Let_def)
qed

lemma pattern_val_mono:
  assumes "0 \<le> n" and "n \<le> m"
  shows "pattern_val n \<le> pattern_val m"
proof (cases "n div 2 ^ 52 = m div 2 ^ 52")
  case True
  then have "n mod 2 ^ 52 \<le> m mod 2 ^ 52"
    using assms(2) by (metis div_mult_mod_eq add_le_cancel_left)
  then have "(of_int (n mod 2 ^ 52) :: rat) \<le> of_int (m mod 2 ^ 52)" by (simp only: of_int_le_iff)
  moreover have "0 \<le> pow2 k" for k by (simp add: less_imp_le)
  ultimately show ?thesis unfolding pattern_val_def True
    by (cases "m div 2 ^ 52 = 0") (simp_all only: mult_right_mono add_left_mono if_True if_False refl)
next
  case False
  let ?e = "n div 2 ^ 52" and ?f = "m div 2 ^ 52"
  have ef: "?e + 1 \<le> ?f" "0 \<le> ?e" using False assms zdiv_mono1 [OF assms(2), of "2 ^ 52"] by auto
  have "(of_int (n mod 2 ^ 52) :: rat) < of_int (2 ^ 52)" by (simp only: of_int_less_iff) simp
  then have nm: "(of_int (n mod 2 ^ 52) :: rat) \<le> 2 ^ 52" by simp
  have "pattern_val n \<le> 2 ^ 52 * pow2 (?f - 1075)"
  proof (cases "?e = 0")
    case True
    then have "pattern_val n \<le> 2 ^ 52 * pow2 (- 1074)"
      using nm by (simp add: pattern_val_def mult_right_mono less_imp_le)
    also have "\<dots> \<le> 2 ^ 52 * pow2 (?f - 1075)"
      using ef True by (intro mult_left_mono pow2_mono) simp_all
    finally show ?thesis .
  next
    case False
    then have "pattern_val n \<le> 2 ^ 53 * pow2 (?e - 1075)"
      using nm by (simp add: pattern_val_def mult_right_mono less_imp_le)
    also have "\<dots> = 2 ^ 52 * pow2 (?e + 1 - 1075)"
      using pow2_add [of "?e - 1075" 1] by (simp add: algebra_simps)
    also have "\<dots> \<le> 2 ^ 52 * pow2 (?f - 1075)"
      using ef by (intro mult_left_mono pow2_mono) simp_all
    finally show ?thesis .
  qed
  also have "\<dots> \<le> pattern_val m"
    using ef by (auto simp: pattern_val_def intro!: mult_right_mono less_imp_le)
  finally show ?thesis .
qed

lemma pattern_val_zero [simp]: "pattern_val 0 = 0"
  by (simp add: pattern_val_def)

lemma pattern_val_one: "pattern_val (1023 * 2 ^ 52) = 1"
  using pow2_minus(1) [of 52] pow2_of_nat [of 52] by (simp add: pattern_val_def)

section \<open>Rounded results\<close>

lemma d_round_mono:
  assumes "0 \<le> x" and "x \<le> y"
  shows "d_val (d_round x) \<le> d_val (d_round y)"
proof -
  have r: "0 \<le> d_round_nonneg x" "d_round_nonneg x \<le> d_round_nonneg y" "d_round_nonneg y < 2 ^ 63"
    using assms d_round_nonneg_range [of x] d_round_nonneg_range [of y] d_round_nonneg_mono [of x y] by auto
  then show ?thesis using assms pattern_val_mono by (simp add: d_round_def d_val_pattern)
qed

lemma d_val_round_zero [simp]: "d_val (d_round 0) = 0"
  using d_val_pattern(1) [of 0] by (simp add: d_round_def)

lemma d_val_round_one [simp]: "d_val (d_round 1) = 1"
  using d_val_pattern(1) [of "1023 * 2 ^ 52"] pattern_val_one by (simp add: d_round_def d_round_nonneg_one)

lemma d_round_nonneg_val: "0 \<le> x \<Longrightarrow> 0 \<le> d_val (d_round x)"
  using d_round_mono [of 0 x] by simp

lemma d_round_unit:
  assumes "0 \<le> x" and "x \<le> 1"
  shows "d_isfinite (d_round x)" "0 \<le> d_val (d_round x)" "d_val (d_round x) \<le> 1"
proof -
  have n: "0 \<le> d_round_nonneg x" "d_round_nonneg x \<le> 1023 * 2 ^ 52"
    using d_round_nonneg_range(1) [OF assms(1)] d_round_nonneg_mono [OF assms] d_round_nonneg_one by auto
  then have "d_exponent (d_round x) = d_round_nonneg x div 2 ^ 52"
    using assms by (simp add: d_round_def d_val_pattern)
  moreover have "d_round_nonneg x div 2 ^ 52 \<le> 1023" using n by simp
  ultimately show "d_isfinite (d_round x)" by (simp add: d_isfinite_def)
  show "0 \<le> d_val (d_round x)" "d_val (d_round x) \<le> 1"
    using d_round_mono [OF assms] d_round_nonneg_val [OF assms(1)] by simp_all
qed

lemma d_of_u64_mono: "a \<le> b \<Longrightarrow> d_val (d_of_u64 a) \<le> d_val (d_of_u64 b)"
  unfolding d_of_u64_def by (intro d_round_mono) (simp_all add: word_le_nat_alt del: of_nat_unat)

lemma d_of_u64_nonneg: "0 \<le> d_val (d_of_u64 a)"
  unfolding d_of_u64_def by (rule d_round_nonneg_val) (simp del: of_nat_unat)

lemma d_of_u64_pos: "0 < a \<Longrightarrow> 1 \<le> d_val (d_of_u64 a)"
  using d_round_mono [of 1 "of_nat (unat a)"] by (simp add: d_of_u64_def unat_gt_0 Suc_le_eq word_gt_0 del: of_nat_unat)

section \<open>Exact results\<close>

lemma d_ulp_exponent_less:
  assumes "0 < x" and "x < pow2 k"
  shows "d_magnitude x < k"
  using d_magnitude_bounds(1) [OF assms(1)] assms(2) by (simp flip: pow2_less_iff)

lemma pattern_val_normal:
  assumes "2 ^ 52 \<le> m" and "m < 2 ^ 53" and "0 \<le> n"
  shows "pattern_val (n * 2 ^ 52 + m) = of_int m * pow2 (n - 1074)"
proof -
  have eq: "n * 2 ^ 52 + m = 2 ^ 52 * (n + 1) + (m - 2 ^ 52)" by (simp add: algebra_simps)
  have "0 \<le> m - 2 ^ 52" "m - 2 ^ 52 < 2 ^ 52" using assms(1,2) by simp_all
  then have "(n * 2 ^ 52 + m) div 2 ^ 52 = n + 1" "(n * 2 ^ 52 + m) mod 2 ^ 52 = m - 2 ^ 52"
    by (rule int_div_pos_eq [OF eq], rule int_mod_pos_eq [OF eq])
  then show ?thesis using assms(3) unfolding pattern_val_def by (simp add: add.commute)
qed

lemma d_val_round_eq:
  assumes x: "0 < x" and small: "x < pow2 1023"
  shows "d_val (d_round x) = of_int (round_half_even (x * pow2 (- d_ulp_exponent x))) * pow2 (d_ulp_exponent x)"
proof -
  define e where "e = d_ulp_exponent x"
  define m where "m = round_half_even (x * pow2 (- e))"
  have e: "- 1074 \<le> e" "e \<le> 970"
    using d_ulp_exponent_less [OF assms] by (auto simp: e_def d_ulp_exponent_def)
  have "round_half_even (of_int 0) \<le> m" "m \<le> round_half_even (of_int (2 ^ 53))"
    unfolding m_def using x scaled_bounds(1) [OF x]
    by (intro round_half_even_mono; simp add: e_def less_imp_le)+
  then have m: "0 \<le> m" "m \<le> 2 ^ 53" by (simp_all only: round_half_even_int)
  have "2 ^ 52 \<le> m" if "- 1074 < e"
    using round_half_even_mono [OF scaled_bounds(2) [OF x]] that round_half_even_int [of "2 ^ 52"]
    by (simp add: m_def e_def)
  moreover have "unclipped x = (e + 1074) * 2 ^ 52 + m" by (simp add: unclipped_def e_def m_def)
  moreover have "(e + 1074) * 2 ^ 52 + m \<le> 2046 * 2 ^ 52" using e m by simp
  ultimately have n: "d_round_nonneg x = (e + 1074) * 2 ^ 52 + m" "- 1074 < e \<Longrightarrow> 2 ^ 52 \<le> m"
    using d_round_nonneg_unclipped [OF x] by simp_all
  have "0 \<le> (e + 1074) * 2 ^ 52" using e by simp
  then have "0 \<le> d_round_nonneg x" "d_round_nonneg x < 2 ^ 63"
    using n(1) m \<open>(e + 1074) * 2 ^ 52 + m \<le> 2046 * 2 ^ 52\<close> by simp_all
  then have "d_val (d_round x) = pattern_val (d_round_nonneg x)"
    using x by (simp add: d_round_def d_val_pattern)
  also have "\<dots> = pattern_val ((e + 1074) * 2 ^ 52 + m)" by (simp only: n(1))
  also have "\<dots> = of_int m * pow2 e"
  proof -
    consider "m < 2 ^ 52" | "2 ^ 52 \<le> m" "m < 2 ^ 53" | "m = 2 ^ 53" using m by linarith
    then show ?thesis
    proof cases
      case 1
      with n(2) e have "e = - 1074" by force
      with 1 m show ?thesis by (simp add: pattern_val_def div_pos_pos_trivial mod_pos_pos_trivial)
    next
      case 2
      with e pattern_val_normal [of m "e + 1074"] show ?thesis by simp
    next
      case 3
      have eq: "(e + 1074) * 2 ^ 52 + 2 ^ 53 = (e + 1075) * 2 ^ 52 + 2 ^ 52" by simp
      have "pattern_val ((e + 1074) * 2 ^ 52 + 2 ^ 53) = of_int (2 ^ 52) * pow2 (e + 1)"
        unfolding eq using e pattern_val_normal [of "2 ^ 52" "e + 1075"] by (simp add: add.commute)
      with 3 show ?thesis by (simp add: pow2_add)
    qed
  qed
  finally show ?thesis by (simp add: e_def m_def)
qed

lemma d_round_exact_normal:
  assumes "0 < m" and "m < 2 ^ 53" and "- 1074 \<le> k" and "k \<le> 900"
  shows "d_val (d_round (of_int m * pow2 k)) = of_int m * pow2 k"
proof -
  let ?x = "of_int m * pow2 k"
  have x: "0 < ?x" using assms by simp
  have "(of_int m :: rat) < of_int (2 ^ 53)" using assms(2) by (simp only: of_int_less_iff)
  then have "?x < pow2 53 * pow2 k" using pow2_of_nat [of 53] by (intro mult_strict_right_mono) simp_all
  then have lt: "?x < pow2 (53 + k)" by (simp add: pow2_add)
  define e where "e = d_ulp_exponent ?x"
  have ek: "e \<le> k" using d_ulp_exponent_less [OF x lt] assms(3) by (simp add: e_def d_ulp_exponent_def)
  have "?x * pow2 (- e) = of_int (m * 2 ^ nat (k - e))"
    using ek pow2_add [of k "- e"] pow2_of_nat [of "nat (k - e)"] by (simp add: mult.assoc)
  then have "round_half_even (?x * pow2 (- e)) = m * 2 ^ nat (k - e)" by (simp only: round_half_even_int)
  moreover have "?x < pow2 1023" using lt pow2_mono [of "53 + k" 1023] assms(4) by simp
  ultimately have "d_val (d_round ?x) = of_int (m * 2 ^ nat (k - e)) * pow2 e"
    using d_val_round_eq [OF x] by (simp add: e_def)
  also have "\<dots> = of_int m * (pow2 (k - e) * pow2 e)"
    using ek pow2_of_nat [of "nat (k - e)"] by simp
  finally show ?thesis by (simp flip: pow2_add)
qed

lemma d_round_exact:
  assumes "0 \<le> m" and "m \<le> 2 ^ 53" and "- 1074 \<le> k" and "k \<le> 800"
  shows "d_val (d_round (of_int m * pow2 k)) = of_int m * pow2 k"
proof -
  consider "m = 0" | "0 < m" "m < 2 ^ 53" | "m = 2 ^ 53" using assms by linarith
  then show ?thesis
  proof cases
    case 2
    with assms show ?thesis by (intro d_round_exact_normal) simp_all
  next
    case 3
    then have "of_int m * pow2 k = of_int 1 * pow2 (53 + k)" using pow2_of_nat [of 53] by (simp add: pow2_add)
    with assms show ?thesis using d_round_exact_normal [of 1 "53 + k"] by simp
  qed simp
qed

lemma d_round_nat: "n \<le> 2 ^ 53 \<Longrightarrow> d_val (d_round (of_nat n)) = of_nat n"
  using d_round_exact [of "int n" 0] by simp

lemma d_of_u64_exact: "unat a \<le> 2 ^ 53 \<Longrightarrow> d_val (d_of_u64 a) = of_nat (unat a)"
  unfolding d_of_u64_def by (rule d_round_nat)

end
