(* ===== verification/Metrics.thy ===== *)
theory Metrics
  imports Layout_Contract Domain_Model Binary64_Correct
begin

text \<open>
  \<open>src/metrics/metrics.cpp\<close>: the fragmentation metrics of one layout.  A \<open>nullptr\<close> demand is
  \<open>None\<close>.  The lemmas show that on a well-formed layout no arithmetic throws, the accounting is
  exact, the ratios are finite doubles in \<open>[0, 1]\<close>, and the reclaimable opportunity is what a
  release of every reclaimable allocation adds to the largest free block.
\<close>

section \<open>Definitions\<close>

definition eligible_for_reclaim :: "Allocation \<Rightarrow> bool" where
  "eligible_for_reclaim a =
    (if al_policy_protected a then False
     else if al_reservation a \<noteq> None then False
     else if \<not> may_move (al_movability a) then False
     else True)"

fun movability_protects :: "Movability \<Rightarrow> bool" where
  "movability_protects MV_IMMOVABLE = True"
| "movability_protects MV_RESERVATION_PROTECTED = True"
| "movability_protects MV_POLICY_PROTECTED = True"
| "movability_protects MV_UNKNOWN = True"
| "movability_protects MV_MOVABLE_LIVE = False"
| "movability_protects MV_MOVABLE_AFTER_QUIESCE = False"
| "movability_protects MV_MOVABLE_AFTER_CHECKPOINT = False"
| "movability_protects MV_RECOMPUTABLE = False"
| "movability_protects MV_EVICTABLE = False"
| "movability_protects MV_RELEASEABLE = False"

definition is_protected :: "Allocation \<Rightarrow> bool" where
  "is_protected a =
    (if al_policy_protected a then True
     else if al_reservation a \<noteq> None then True
     else movability_protects (al_movability a))"

definition is_movable_class :: "Allocation \<Rightarrow> bool" where
  "is_movable_class a =
    (case al_movability a of
       MV_MOVABLE_LIVE \<Rightarrow> True
     | MV_MOVABLE_AFTER_QUIESCE \<Rightarrow> True
     | MV_MOVABLE_AFTER_CHECKPOINT \<Rightarrow> True
     | _ \<Rightarrow> False)"

text \<open>Lines 49 to 65: the accounting and the two ratios.\<close>

definition metrics_base :: "ResourceLayout \<Rightarrow> FragmentationMetrics res" where
  "metrics_base layout =
    chain (used_capacity layout) (\<lambda>used.
      let m = default_metrics\<lparr>met_total_capacity := total_capacity layout,
                met_used_capacity := used,
                met_free_capacity := free_capacity layout,
                met_allocation_count := allocation_count layout,
                met_largest_free_block := largest_free_block layout,
                met_block_count := free_block_count layout\<rparr>
      in Inr (if met_free_capacity m > 0
              then let largest = d_of_u64 (met_largest_free_block m);
                       free = d_of_u64 (met_free_capacity m)
                   in m\<lparr>met_external_fragmentation_ratio := d_sub (d_lit 1) (d_div largest free),
                        met_usable_fraction := d_div largest free\<rparr>
              else m\<lparr>met_external_fragmentation_ratio := d_lit 0, met_usable_fraction := d_lit 0\<rparr>))"

text \<open>Lines 67 to 72: one step of the loop over the allocations.\<close>

definition metrics_account ::
  "AllocationId \<times> Allocation \<Rightarrow> FragmentationMetrics \<Rightarrow> FragmentationMetrics res" where
  "metrics_account e m =
    (let a = snd e in
     chain (if is_protected a
            then chain (Bytes_add (met_protected_capacity m) (al_length a))
                   (\<lambda>s. Inr (m\<lparr>met_protected_capacity := s\<rparr>))
            else Inr m) (\<lambda>m.
     chain (if is_movable_class a
            then chain (Bytes_add (met_movable_capacity m) (al_length a))
                   (\<lambda>s. Inr (m\<lparr>met_movable_capacity := s\<rparr>))
            else Inr m) (\<lambda>m.
     if eligible_for_reclaim a
     then chain (Bytes_add (met_reclaimable_capacity m) (al_length a))
            (\<lambda>s. Inr (m\<lparr>met_reclaimable_capacity := s\<rparr>))
     else Inr m)))"

text \<open>Lines 74 to 86: stranded capacity and categories.\<close>

definition metrics_stranded :: "FragmentationMetrics \<Rightarrow> FragmentationMetrics res" where
  "metrics_stranded m =
    chain (if met_free_capacity m > met_largest_free_block m
           then Bytes_sub (met_free_capacity m) (met_largest_free_block m) else Inr 0) (\<lambda>stranded.
    let m = m\<lparr>met_stranded_capacity := stranded\<rparr>;
        m = (if met_block_count m > 1
             then m\<lparr>met_dominant_categories := met_dominant_categories m @ [FC_EXTERNAL, FC_CONTIGUITY]\<rparr>
             else m)
    in Inr (if met_protected_capacity m > 0 \<and> met_stranded_capacity m > 0
            then m\<lparr>met_dominant_categories := met_dominant_categories m @ [FC_OWNERSHIP]\<rparr>
            else m))"

text \<open>Lines 109 to 116: the simulated release; \<open>None\<close> is the early return.\<close>

fun simulate_reclaim ::
  "(AllocationId \<times> Allocation) list \<Rightarrow> ResourceLayout \<Rightarrow> ResourceLayout option res" where
  "simulate_reclaim [] s = Inr (Some s)"
| "simulate_reclaim (e # es) s =
    (if eligible_for_reclaim (snd e)
     then chain (remove_allocation s (fst e)) (\<lambda>r.
       if fst r \<noteq> None then Inr None else simulate_reclaim es (snd r))
     else simulate_reclaim es s)"

text \<open>Lines 88 to 123: the workload-specific metrics.\<close>

definition metrics_workload ::
  "ResourceLayout \<Rightarrow> WorkloadDemand \<Rightarrow> FragmentationMetrics \<Rightarrow> FragmentationMetrics res" where
  "metrics_workload layout demand m =
    (let m = m\<lparr>met_has_workload := True\<rparr>;
         has_contiguous_req = (dem_contiguous_memory demand > 0);
         fit_now = (met_free_capacity m \<ge> dem_aggregate_memory demand \<and>
           (\<not> has_contiguous_req \<or> met_largest_free_block m \<ge> dem_contiguous_memory demand));
         m = m\<lparr>met_workload_fits := fit_now\<rparr>;
         m = m\<lparr>met_workload_usable_capacity :=
               (if fit_now then dem_aggregate_memory demand else met_largest_free_block m)\<rparr>
     in
     chain (if met_free_capacity m > met_workload_usable_capacity m
            then Bytes_sub (met_free_capacity m) (met_workload_usable_capacity m) else Inr 0) (\<lambda>ws.
     let m = m\<lparr>met_workload_stranded_capacity := ws\<rparr> in
     chain (simulate_reclaim (lay_allocations layout) layout) (\<lambda>sim.
     case sim of
       None \<Rightarrow> Inr (m\<lparr>met_reclaimable_opportunity := 0\<rparr>)
     | Some simulated \<Rightarrow>
       let largest_after = largest_free_block simulated in
       chain (if largest_after > met_largest_free_block m
              then Bytes_sub largest_after (met_largest_free_block m) else Inr 0) (\<lambda>opp.
       Inr (m\<lparr>met_reclaimable_opportunity := opp\<rparr>)))))"

definition compute_metrics ::
  "ResourceLayout \<Rightarrow> WorkloadDemand option \<Rightarrow> FragmentationMetrics res" where
  "compute_metrics layout demand =
    chain (metrics_base layout) (\<lambda>m.
    chain (fold_res metrics_account (lay_allocations layout) m) (\<lambda>m.
    chain (metrics_stranded m) (\<lambda>m.
    case demand of None \<Rightarrow> Inr m | Some d \<Rightarrow> metrics_workload layout d m)))"

section \<open>Protected and reclaimable\<close>

lemma protected_iff_not_eligible: "is_protected a \<longleftrightarrow> \<not> eligible_for_reclaim a"
  by (cases "al_movability a") (simp_all add: is_protected_def eligible_for_reclaim_def)

definition class_sum :: "(Allocation \<Rightarrow> bool) \<Rightarrow> (AllocationId \<times> Allocation) list \<Rightarrow> nat" where
  "class_sum P es = sum_list (map (\<lambda>e. unat (al_length (snd e))) (filter (\<lambda>e. P (snd e)) es))"

lemma class_sum_simps [simp]:
  "class_sum P [] = 0"
  "class_sum P (e # es) = (if P (snd e) then unat (al_length (snd e)) else 0) + class_sum P es"
  by (simp_all add: class_sum_def)

lemma class_sum_le: "class_sum P es \<le> sum_list (map (\<lambda>e. unat (al_length (snd e))) es)"
  by (induction es) auto

lemma class_sum_complement:
  "class_sum is_protected es + class_sum eligible_for_reclaim es =
   sum_list (map (\<lambda>e. unat (al_length (snd e))) es)"
  by (induction es) (auto simp: protected_iff_not_eligible)

lemma metrics_account_sums:
  assumes "unat (met_protected_capacity m) + class_sum is_protected es < 2 ^ 64"
    and "unat (met_movable_capacity m) + class_sum is_movable_class es < 2 ^ 64"
    and "unat (met_reclaimable_capacity m) + class_sum eligible_for_reclaim es < 2 ^ 64"
  shows "\<exists>p v r. fold_res metrics_account es m =
      Inr (m\<lparr>met_protected_capacity := p, met_movable_capacity := v, met_reclaimable_capacity := r\<rparr>) \<and>
    unat p = unat (met_protected_capacity m) + class_sum is_protected es \<and>
    unat v = unat (met_movable_capacity m) + class_sum is_movable_class es \<and>
    unat r = unat (met_reclaimable_capacity m) + class_sum eligible_for_reclaim es"
  using assms
proof (induction es arbitrary: m)
  case Nil
  show ?case by (rule exI [of _ "met_protected_capacity m"], rule exI [of _ "met_movable_capacity m"],
      rule exI [of _ "met_reclaimable_capacity m"]) simp
next
  case (Cons e es)
  let ?add = "\<lambda>P s. if P (snd e) then s + al_length (snd e) else (s :: Bytes)"
  let ?m = "m\<lparr>met_protected_capacity := ?add is_protected (met_protected_capacity m),
    met_movable_capacity := ?add is_movable_class (met_movable_capacity m),
    met_reclaimable_capacity := ?add eligible_for_reclaim (met_reclaimable_capacity m)\<rparr>"
  have step: "metrics_account e m = Inr ?m"
    using Cons.prems by (auto simp: metrics_account_def Let_def Bytes_add_ok)
  have "unat (?add P s) = unat s + (if P (snd e) then unat (al_length (snd e)) else 0)"
    if "unat s + class_sum P (e # es) < 2 ^ 64" for P s
    using that by (auto intro: unat_add_no_overflow)
  with Cons.prems obtain p v r where "fold_res metrics_account es ?m =
      Inr (?m\<lparr>met_protected_capacity := p, met_movable_capacity := v, met_reclaimable_capacity := r\<rparr>)"
    "unat p = unat (met_protected_capacity m) + class_sum is_protected (e # es)"
    "unat v = unat (met_movable_capacity m) + class_sum is_movable_class (e # es)"
    "unat r = unat (met_reclaimable_capacity m) + class_sum eligible_for_reclaim (e # es)"
    using Cons.IH [of ?m] by (auto simp: add.assoc)
  then show ?case unfolding fold_res.simps step chain_simps
    by (intro exI [of _ p] exI [of _ v] exI [of _ r]) simp
qed

lemma longest_run_iff:
  assumes inv: "layout_inv l"
  shows "(\<exists>s. {s ..< s + n} \<subseteq> free_bytes l) \<longleftrightarrow> n \<le> unat (largest_free_block l)"
proof
  assume "n \<le> unat (largest_free_block l)"
  moreover obtain s where "{s ..< s + unat (largest_free_block l)} \<subseteq> free_bytes l"
    by (rule largest_free_block_run [OF inv])
  ultimately have "{s ..< s + n} \<subseteq> free_bytes l" by (meson add_left_mono atLeastLessThan_iff order_less_le_trans subset_iff)
  then show "\<exists>s. {s ..< s + n} \<subseteq> free_bytes l" ..
qed (use largest_free_block_bound [OF inv] in blast)

section \<open>The ratios\<close>

definition unit_double :: "double \<Rightarrow> bool" where
  "unit_double d \<longleftrightarrow> d_isfinite d \<and> 0 \<le> d_val d \<and> d_val d \<le> 1"

lemma unit_double_round: "0 \<le> x \<Longrightarrow> x \<le> 1 \<Longrightarrow> unit_double (d_round x)"
  using d_round_unit [of x] by (simp add: unit_double_def)

lemma unit_double_lit [simp]: "unit_double (d_lit 0)" "unit_double (d_lit 1)"
  by (simp_all add: d_lit_def unit_double_round)

lemma unit_double_div:
  assumes "a \<le> b" and "0 < b"
  shows "unit_double (d_div (d_of_u64 a) (d_of_u64 b))"
proof -
  have "0 \<le> d_val (d_of_u64 a)" "d_val (d_of_u64 a) \<le> d_val (d_of_u64 b)" "1 \<le> d_val (d_of_u64 b)"
    using assms d_of_u64_nonneg d_of_u64_mono d_of_u64_pos by auto
  then show ?thesis unfolding d_div_def by (intro unit_double_round) (simp_all add: divide_le_eq)
qed

lemma unit_double_complement: "unit_double x \<Longrightarrow> unit_double (d_sub (d_lit 1) x)"
  unfolding d_sub_def by (rule unit_double_round) (simp_all add: unit_double_def d_lit_def)

section \<open>The metrics of a well-formed layout\<close>

lemma metrics_base_ok:
  assumes inv: "layout_inv l"
  obtains r u where "metrics_base l =
      Inr (default_metrics\<lparr>met_total_capacity := lay_capacity l,
        met_used_capacity := lay_capacity l - lay_free_capacity l,
        met_free_capacity := lay_free_capacity l, met_allocation_count := allocation_count l,
        met_largest_free_block := largest_free_block l, met_block_count := free_block_count l,
        met_external_fragmentation_ratio := r, met_usable_fraction := u\<rparr>)"
    "unit_double r" "unit_double u"
proof (cases "free_capacity l > 0")
  case True
  have "unit_double (d_div (d_of_u64 (largest_free_block l)) (d_of_u64 (free_capacity l)))"
    by (rule unit_double_div [OF largest_le_free [OF inv] True])
  with True show thesis
    by (intro that [where r = "d_sub (d_lit 1) (d_div (d_of_u64 (largest_free_block l)) (d_of_u64 (free_capacity l)))"
          and u = "d_div (d_of_u64 (largest_free_block l)) (d_of_u64 (free_capacity l))"])
      (simp_all add: metrics_base_def used_capacity_ok [OF inv] total_capacity_def free_capacity_def
        Let_def unit_double_complement)
next
  case False
  then show thesis
    by (intro that [of "d_lit 0" "d_lit 0"])
      (simp_all add: metrics_base_def used_capacity_ok [OF inv] total_capacity_def free_capacity_def Let_def)
qed

lemma used_split:
  assumes inv: "layout_inv l"
  shows "unat (lay_capacity l - lay_free_capacity l) =
    sum_list (map (\<lambda>e. unat (al_length (snd e))) (lay_allocations l))"
  using capacity_split [OF inv] free_capacity_le [OF inv] by (simp add: unat_sub word_le_nat_alt)

text \<open>The metrics before the workload-specific part.\<close>

definition layout_metrics :: "ResourceLayout \<Rightarrow> FragmentationMetrics \<Rightarrow> bool" where
  "layout_metrics l m \<longleftrightarrow>
     met_total_capacity m = lay_capacity l \<and>
     met_used_capacity m = lay_capacity l - lay_free_capacity l \<and>
     met_free_capacity m = free_capacity l \<and>
     met_largest_free_block m = largest_free_block l \<and>
     met_block_count m = free_block_count l \<and>
     met_allocation_count m = allocation_count l \<and>
     unat (met_protected_capacity m) = class_sum is_protected (lay_allocations l) \<and>
     unat (met_movable_capacity m) = class_sum is_movable_class (lay_allocations l) \<and>
     unat (met_reclaimable_capacity m) = class_sum eligible_for_reclaim (lay_allocations l) \<and>
     met_stranded_capacity m = free_capacity l - largest_free_block l \<and>
     unit_double (met_external_fragmentation_ratio m) \<and> unit_double (met_usable_fraction m)"

lemma layout_metrics_ok:
  assumes inv: "layout_inv l"
  obtains m where "compute_metrics l None = Inr m" "layout_metrics l m"
    "\<And>d. compute_metrics l (Some d) = metrics_workload l d m"
proof -
  obtain r u where base: "metrics_base l =
      Inr (default_metrics\<lparr>met_total_capacity := lay_capacity l,
        met_used_capacity := lay_capacity l - lay_free_capacity l,
        met_free_capacity := lay_free_capacity l, met_allocation_count := allocation_count l,
        met_largest_free_block := largest_free_block l, met_block_count := free_block_count l,
        met_external_fragmentation_ratio := r, met_usable_fraction := u\<rparr>)" (is "_ = Inr ?m")
    and ru: "unit_double r" "unit_double u"
    by (rule metrics_base_ok [OF inv])
  have bound: "class_sum P (lay_allocations l) < 2 ^ 64" for P
    using class_sum_le [of P "lay_allocations l"] used_split [OF inv]
      unat_u64_less [of "lay_capacity l - lay_free_capacity l"] by simp
  obtain p v w where fold: "fold_res metrics_account (lay_allocations l) ?m =
      Inr (?m\<lparr>met_protected_capacity := p, met_movable_capacity := v, met_reclaimable_capacity := w\<rparr>)"
      (is "_ = Inr ?n")
    and sums: "unat p = class_sum is_protected (lay_allocations l)"
      "unat v = class_sum is_movable_class (lay_allocations l)"
      "unat w = class_sum eligible_for_reclaim (lay_allocations l)"
    using metrics_account_sums [of ?m "lay_allocations l"] bound
    by (auto simp: default_metrics_def)
  obtain m where str: "metrics_stranded ?n = Inr m" and m: "layout_metrics l m"
    using largest_le_free [OF inv] ru sums
    by (cases "free_capacity l > largest_free_block l")
      (auto simp: metrics_stranded_def Let_def Bytes_sub_ok layout_metrics_def free_capacity_def)
  show thesis
    using that [of m] m by (simp add: compute_metrics_def base fold str)
qed

lemma simulate_reclaim_loop:
  "fold_res (\<lambda>e s. if eligible_for_reclaim (snd e)
      then chain (remove_allocation s (fst e)) (\<lambda>r. Inr (snd r)) else Inr s) es l = Inr l' \<Longrightarrow>
   layout_inv l \<Longrightarrow> distinct (map fst es) \<Longrightarrow> \<forall>e \<in> set es. om_find (lay_allocations l) (fst e) \<noteq> None \<Longrightarrow>
   simulate_reclaim es l = Inr (Some l')"
proof (induction es arbitrary: l)
  case (Cons e es)
  show ?case
  proof (cases "eligible_for_reclaim (snd e)")
    case True
    from Cons.prems(4) obtain a where "om_find (lay_allocations l) (fst e) = Some a" by auto
    from remove_allocation_contract [OF Cons.prems(2) this] obtain l1 where
      l1: "remove_allocation l (fst e) = Inr (None, l1)" "layout_inv l1"
        "lay_allocations l1 = om_erase (fst e) (lay_allocations l)" by blast
    have "simulate_reclaim es l1 = Inr (Some l')"
      using Cons.prems True l1 by (intro Cons.IH) (auto simp: om_find_erase image_iff)
    with True l1 show ?thesis by simp
  qed (use Cons in auto)
qed simp

text \<open>The layout after the release of every reclaimable allocation.\<close>

definition reclaimed :: "ResourceLayout \<Rightarrow> ResourceLayout \<Rightarrow> bool" where
  "reclaimed l l' \<longleftrightarrow> layout_inv l' \<and> lay_capacity l' = lay_capacity l \<and>
     lay_allocations l' = filter (\<lambda>e. \<not> eligible_for_reclaim (snd e)) (lay_allocations l)"

lemma simulate_reclaim_ok:
  assumes inv: "layout_inv l"
  obtains l' where "simulate_reclaim (lay_allocations l) l = Inr (Some l')" "reclaimed l l'"
    "largest_free_block l \<le> largest_free_block l'"
    "unat (free_capacity l') = unat (free_capacity l) + class_sum eligible_for_reclaim (lay_allocations l)"
proof -
  from device_layout.reclaim_where [OF inv, of eligible_for_reclaim] obtain l' where
    l': "fold_res (\<lambda>e s. if eligible_for_reclaim (snd e)
        then chain (remove_allocation s (fst e)) (\<lambda>r. Inr (snd r)) else Inr s) (lay_allocations l) l = Inr l'"
      "reclaimed l l'" "largest_free_block l \<le> largest_free_block l'"
      "unat (free_capacity l') = unat (free_capacity l) + class_sum eligible_for_reclaim (lay_allocations l)"
    by (auto simp: reclaimed_def class_sum_def)
  have "simulate_reclaim (lay_allocations l) l = Inr (Some l')"
    using om_inv_distinct [OF layout_inv_allocations [OF inv]]
    by (intro simulate_reclaim_loop [OF l'(1) inv]) (auto simp: om_find_None)
  with l' that show thesis by blast
qed

lemma Bytes_sub_if: "b \<le> a \<Longrightarrow> (if a > b then Bytes_sub a b else Inr 0) = Inr (a - b)"
  by (auto simp: Bytes_sub_ok)

lemma metrics_workload_eval:
  assumes mf: "met_free_capacity m = free_capacity l" "met_largest_free_block m = largest_free_block l"
    and sim: "simulate_reclaim (lay_allocations l) l = Inr (Some l')"
      "largest_free_block l \<le> largest_free_block l'"
    and fits: "fits \<longleftrightarrow> dem_aggregate_memory d \<le> free_capacity l \<and>
      (dem_contiguous_memory d > 0 \<longrightarrow> dem_contiguous_memory d \<le> largest_free_block l)"
    and usable: "usable = (if fits then dem_aggregate_memory d else largest_free_block l)"
    and us: "usable \<le> free_capacity l"
  shows "metrics_workload l d m = Inr (m\<lparr>met_has_workload := True, met_workload_fits := fits,
      met_workload_usable_capacity := usable, met_workload_stranded_capacity := free_capacity l - usable,
      met_reclaimable_opportunity := largest_free_block l' - largest_free_block l\<rparr>)"
  unfolding metrics_workload_def Let_def
  by (simp add: mf sim(1) fits [symmetric] usable [symmetric]
      Bytes_sub_if [OF us] Bytes_sub_if [OF sim(2)] cong: if_cong split del: if_split)

lemma metrics_workload_total:
  assumes inv: "layout_inv l" and m: "layout_metrics l m"
  shows "\<exists>m'. metrics_workload l d m = Inr m'"
proof -
  obtain l' where "simulate_reclaim (lay_allocations l) l = Inr (Some l')"
    "largest_free_block l \<le> largest_free_block l'"
    by (rule simulate_reclaim_ok [OF inv])
  then show ?thesis
    using m largest_le_free [OF inv]
    by (subst metrics_workload_eval [OF _ _ _ _ refl refl]) (auto simp: layout_metrics_def)
qed

section \<open>Properties\<close>

text \<open>
  C34: The metrics of a well-formed layout.  \<open>compute_metrics\<close> never throws; used and free
  capacity add up to the total; every allocation counts as exactly one of protected and
  reclaimable, so these two add up to the used capacity; the stranded capacity is what the
  largest block leaves of the free capacity; and both ratios are finite doubles in \<open>[0, 1]\<close>,
  whatever rounding does.
\<close>

theorem compute_metrics_accounting:
  assumes inv: "layout_inv l"
  shows "\<exists>m. compute_metrics l None = Inr m \<and>
    unat (met_used_capacity m) + unat (met_free_capacity m) = unat (met_total_capacity m) \<and>
    met_total_capacity m = total_capacity l \<and>
    unat (met_protected_capacity m) + unat (met_reclaimable_capacity m) = unat (met_used_capacity m) \<and>
    unat (met_stranded_capacity m) + unat (met_largest_free_block m) = unat (met_free_capacity m) \<and>
    (\<forall>r \<in> {met_external_fragmentation_ratio m, met_usable_fraction m}.
       d_isfinite r \<and> 0 \<le> d_val r \<and> d_val r \<le> 1)"
proof -
  obtain m where m: "compute_metrics l None = Inr m" "layout_metrics l m"
    by (rule layout_metrics_ok [OF inv])
  have "unat (free_capacity l - largest_free_block l) + unat (largest_free_block l) = unat (free_capacity l)"
    using largest_le_free [OF inv] by (simp add: unat_sub word_le_nat_alt)
  moreover have "unat (lay_capacity l - lay_free_capacity l) + unat (lay_free_capacity l) = unat (lay_capacity l)"
    using free_capacity_le [OF inv] by (simp add: unat_sub word_le_nat_alt)
  ultimately show ?thesis
    using m class_sum_complement [of "lay_allocations l"] used_split [OF inv]
    by (simp add: layout_metrics_def total_capacity_def free_capacity_def unit_double_def)
qed

theorem compute_metrics_accounting_witness:
  "\<exists>m. compute_metrics sample_layout None = Inr m \<and>
     unat (met_protected_capacity m) + unat (met_reclaimable_capacity m) = unat (met_used_capacity m)"
  using compute_metrics_accounting [OF sample_layout_inv] by auto

text \<open>
  C35: The workload metrics.  For a demand \<open>compute_metrics\<close> never throws on a well-formed layout;
  \<open>workload_fits\<close> holds exactly when the free bytes cover the aggregate demand and, when a
  contiguous span is demanded, some run of free bytes is that long; the usable and the stranded
  capacity partition the free capacity; and the reclaimable opportunity is the growth of the
  largest free block when exactly the unprotected movable allocations are released.
\<close>

theorem compute_metrics_workload:
  assumes inv: "layout_inv l"
  shows "\<exists>m l'. compute_metrics l (Some d) = Inr m \<and>
    (met_workload_fits m \<longleftrightarrow> unat (dem_aggregate_memory d) \<le> card (free_bytes l) \<and>
       (\<exists>s. {s ..< s + unat (dem_contiguous_memory d)} \<subseteq> free_bytes l)) \<and>
    unat (met_workload_usable_capacity m) + unat (met_workload_stranded_capacity m) = unat (free_capacity l) \<and>
    layout_inv l' \<and> lay_capacity l' = lay_capacity l \<and>
    lay_allocations l' = filter (\<lambda>e. is_protected (snd e)) (lay_allocations l) \<and>
    unat (met_reclaimable_opportunity m) + unat (largest_free_block l) = unat (largest_free_block l')"
proof -
  obtain m where m: "layout_metrics l m" "compute_metrics l (Some d) = metrics_workload l d m"
    using layout_metrics_ok [OF inv] by blast
  obtain l' where l': "simulate_reclaim (lay_allocations l) l = Inr (Some l')" "reclaimed l l'"
    "largest_free_block l \<le> largest_free_block l'"
    by (rule simulate_reclaim_ok [OF inv])
  have mf: "met_free_capacity m = free_capacity l" "met_largest_free_block m = largest_free_block l"
    using m(1) by (simp_all add: layout_metrics_def)
  define fits where "fits \<longleftrightarrow> dem_aggregate_memory d \<le> free_capacity l \<and>
    (dem_contiguous_memory d > 0 \<longrightarrow> dem_contiguous_memory d \<le> largest_free_block l)"
  define usable where "usable = (if fits then dem_aggregate_memory d else largest_free_block l)"
  have us: "usable \<le> free_capacity l"
    using largest_le_free [OF inv] by (simp add: usable_def fits_def)
  have "compute_metrics l (Some d) = Inr (m\<lparr>met_has_workload := True, met_workload_fits := fits,
      met_workload_usable_capacity := usable, met_workload_stranded_capacity := free_capacity l - usable,
      met_reclaimable_opportunity := largest_free_block l' - largest_free_block l\<rparr>)"
    unfolding m(2) by (rule metrics_workload_eval [OF mf l'(1,3) fits_def usable_def us])
  moreover have "fits \<longleftrightarrow> unat (dem_aggregate_memory d) \<le> card (free_bytes l) \<and>
      (\<exists>s. {s ..< s + unat (dem_contiguous_memory d)} \<subseteq> free_bytes l)"
    unfolding fits_def free_capacity_card [OF inv, symmetric] longest_run_iff [OF inv]
    by (auto simp: word_le_nat_alt word_gt_0)
  moreover have "unat usable + unat (free_capacity l - usable) = unat (free_capacity l)"
    "unat (largest_free_block l' - largest_free_block l) + unat (largest_free_block l) = unat (largest_free_block l')"
    using us l'(3) by (simp_all add: unat_sub word_le_nat_alt)
  ultimately show ?thesis
    using l'(2) by (auto simp: reclaimed_def protected_iff_not_eligible)
qed

theorem compute_metrics_workload_witness:
  "\<exists>m l'. compute_metrics sample_layout (Some (default_demand\<lparr>dem_contiguous_memory := 4096\<rparr>)) = Inr m \<and>
     lay_allocations l' = filter (\<lambda>e. is_protected (snd e)) (lay_allocations sample_layout) \<and>
     unat (met_reclaimable_opportunity m) + unat (largest_free_block sample_layout) = unat (largest_free_block l')"
  using compute_metrics_workload [OF sample_layout_inv] by blast

end
