(* ===== verification/Fit.thy ===== *)
theory Fit
  imports Metrics
begin

text \<open>
  \<open>src/fit/fit.cpp\<close>: the shape-aware fit oracle \<open>analyze_fit\<close> and the search for a continuous
  window between reservations, \<open>temporal_continuous_fit\<close>.  The boolean result and the out
  parameter of the latter are one option: \<open>Some s\<close> is \<open>true\<close> with \<open>earliest_start = s\<close>.
\<close>

section \<open>Helpers\<close>

definition device_satisfies :: "DeviceState \<Rightarrow> WorkloadDemand \<Rightarrow> bool" where
  "device_satisfies d demand \<longleftrightarrow>
     free_capacity (dev_layout d) \<ge> dem_per_device_memory demand \<and>
     largest_free_block (dev_layout d) \<ge> dem_per_device_memory demand"

definition fit_reclaimable :: "Allocation \<Rightarrow> bool" where
  "fit_reclaimable a =
    (if al_policy_protected a \<or> al_reservation a \<noteq> None then False
     else may_move (al_movability a))"

text \<open>The inner loop of the two functions below; the result of \<open>remove_allocation\<close> is ignored.\<close>

definition release_reclaimable :: "ResourceLayout \<Rightarrow> ResourceLayout res" where
  "release_reclaimable layout =
    fold_res (\<lambda>e sim. if fit_reclaimable (snd e)
        then chain (remove_allocation sim (fst e)) (\<lambda>r. Inr (snd r)) else Inr sim)
      (lay_allocations layout) layout"

definition count_satisfying_after_reclaim ::
  "FragmentationSnapshot \<Rightarrow> WorkloadDemand \<Rightarrow> nat list \<Rightarrow> Count res" where
  "count_satisfying_after_reclaim snap demand indices =
    fold_res (\<lambda>idx n.
      chain (release_reclaimable (dev_layout (snap_devices snap ! idx))) (\<lambda>sim.
        if free_capacity sim \<ge> dem_per_device_memory demand \<and>
           largest_free_block sim \<ge> dem_per_device_memory demand
        then Count_add n 1 else Inr n)) indices 0"

definition aggregate_after_reclaim :: "FragmentationSnapshot \<Rightarrow> nat list \<Rightarrow> Bytes res" where
  "aggregate_after_reclaim snap indices =
    fold_res (\<lambda>idx total.
      chain (release_reclaimable (dev_layout (snap_devices snap ! idx))) (\<lambda>sim.
        Bytes_add total (free_capacity sim))) indices 0"

section \<open>Continuous windows\<close>

text \<open>The loop of lines 212 to 227 on the sorted reservations, with the cursor as argument.\<close>

fun temporal_scan ::
  "Reservation list \<Rightarrow> Duration \<Rightarrow> Duration \<Rightarrow> Duration \<Rightarrow> Duration option res" where
  "temporal_scan [] horizon_end required cursor =
    chain (Duration_sub horizon_end cursor) (\<lambda>tail.
      Inr (if tail \<ge> required then Some cursor else None))"
| "temporal_scan (r # rs) horizon_end required cursor =
    (if rv_end r \<le> cursor then temporal_scan rs horizon_end required cursor
     else chain (if rv_start r \<ge> cursor
                 then chain (Duration_sub (rv_start r) cursor) (\<lambda>gap. Inr (gap \<ge> required))
                 else Inr False) (\<lambda>found.
       if found then Inr (Some cursor)
       else let cursor = (if rv_end r > cursor then rv_end r else cursor)
            in if cursor \<ge> horizon_end then temporal_scan [] horizon_end required cursor
               else temporal_scan rs horizon_end required cursor))"

text \<open>
  \<open>std::sort\<close> leaves the order of reservations with equal start open; the stable order stands
  for it here, and \<open>temporal_scan\<close> is analysed for every sorted order below.
\<close>

definition temporal_continuous_fit ::
  "Reservation list \<Rightarrow> Duration \<Rightarrow> Duration \<Rightarrow> Duration \<Rightarrow> Duration option res" where
  "temporal_continuous_fit reservations horizon_start horizon_end required =
    (if required = 0 then Inr (Some horizon_start)
     else temporal_scan (sort_key rv_start reservations) horizon_end required horizon_start)"

section \<open>The fit oracle\<close>

definition select_indices :: "FragmentationSnapshot \<Rightarrow> WorkloadDemand \<Rightarrow> nat list" where
  "select_indices sn demand =
    (let indices = [0 ..< length (snap_devices sn)]
     in case dem_topology_group demand of
          None \<Rightarrow> indices
        | Some g \<Rightarrow>
            filter (\<lambda>i. res_topology_group (dev_resource (snap_devices sn ! i)) = Some g) indices)"

definition count_now ::
  "FragmentationSnapshot \<Rightarrow> WorkloadDemand \<Rightarrow> nat list \<Rightarrow> (Count \<times> Bytes) res" where
  "count_now sn demand indices =
    fold_res (\<lambda>i (now, aggregate_free).
      let d = snap_devices sn ! i in
      chain (if device_satisfies d demand then Count_add now 1 else Inr now) (\<lambda>now.
      chain (Bytes_add aggregate_free (free_capacity (dev_layout d))) (\<lambda>aggregate_free.
      Inr (now, aggregate_free)))) indices (0, 0)"

definition protected_only :: "FragmentationSnapshot \<Rightarrow> nat list \<Rightarrow> bool" where
  "protected_only sn indices \<longleftrightarrow>
     \<not> (\<exists>i \<in> set indices. \<exists>e \<in> set (lay_allocations (dev_layout (snap_devices sn ! i))).
          may_move (al_movability (snd e)) \<and> \<not> al_policy_protected (snd e) \<and>
          al_reservation (snd e) = None)"

text \<open>Lines 121 to 156: too few devices satisfy the demand now.\<close>

definition fit_shortage ::
  "FragmentationSnapshot \<Rightarrow> WorkloadDemand \<Rightarrow> nat list \<Rightarrow> Count \<Rightarrow> FitResult \<Rightarrow> FitResult res" where
  "fit_shortage sn demand indices needed_count r =
    (let stop = (\<lambda>out cat msg. Inr (r\<lparr>fr_outcome := out, fr_category := cat,
                   fr_block_diagnostics := fr_block_diagnostics r @ [msg]\<rparr>)) in
     if dem_topology_group demand \<noteq> None \<and> of_nat (length indices) < needed_count
     then stop FO_NO_FIT_TOPOLOGY FC_TOPOLOGY ''insufficient devices in required topology group''
     else
       chain (count_satisfying_after_reclaim sn demand indices) (\<lambda>after_reclaim.
       chain (if after_reclaim \<ge> needed_count
              then chain (aggregate_after_reclaim sn indices) (\<lambda>a.
                     Inr (a \<ge> dem_aggregate_memory demand))
              else Inr False) (\<lambda>reclaim_fits.
       if reclaim_fits
       then stop FO_FIT_AFTER_RECLAIM FC_EXTERNAL
              ''fits after reclaiming movable/releasable allocations''
       else if protected_only sn indices
       then stop FO_NO_FIT_PROTECTED_STATE FC_OWNERSHIP
              ''only protected/immovable capacity blocks the fit''
       else stop FO_NO_FIT_FRAGMENTATION FC_CONTIGUITY
              ''aggregate capacity sufficient but no contiguous span large enough'')))"

text \<open>Lines 161 to 183: \<open>None\<close> when the reservation gate lets the demand pass.\<close>

definition reservation_gate ::
  "FragmentationSnapshot \<Rightarrow> WorkloadDemand \<Rightarrow> FitResult \<Rightarrow> FitResult option res" where
  "reservation_gate sn demand r =
    (case dem_reservation_duration demand of
       None \<Rightarrow> Inr None
     | Some dur \<Rightarrow>
       if snap_reservations sn = [] then Inr None
       else chain (temporal_continuous_fit (snap_reservations sn) 0 (0xFFFFFFFFFFFFFFFF div 2) dur) (\<lambda>ok.
         case ok of
           Some _ \<Rightarrow> Inr None
         | None \<Rightarrow>
           if \<exists>res \<in> set (snap_reservations sn). rv_hard res
           then Inr (Some (r\<lparr>fr_outcome := FO_NO_FIT_RESERVATION, fr_category := FC_RESERVATION,
                  fr_block_diagnostics := fr_block_diagnostics r @
                    [''hard reservation fragments the requested window'']\<rparr>))
           else Inr (Some (r\<lparr>fr_outcome := FO_NO_FIT_TEMPORAL, fr_category := FC_TEMPORAL,
                  fr_block_diagnostics := fr_block_diagnostics r @
                    [''no continuous interval satisfies required duration'']\<rparr>))))"

definition analyze_fit :: "FragmentationSnapshot \<Rightarrow> WorkloadDemand \<Rightarrow> FitResult res" where
  "analyze_fit sn demand =
    (let r = default_fit_result\<lparr>fr_required_devices := dem_accelerator_count demand\<rparr> in
     if \<not> generations_complete (snap_generations sn) \<or> snap_provenance sn = PV_UNKNOWN
     then Inr (r\<lparr>fr_outcome := FO_REVALIDATION_REQUIRED, fr_evidence := EK_UNKNOWN,
                 fr_block_diagnostics := fr_block_diagnostics r @
                   [''insufficient current evidence (stale/unknown generations)'']\<rparr>)
     else
     let r = r\<lparr>fr_evidence := (if snap_provenance sn = PV_MEASURED then EK_REAL
                               else if snap_provenance sn = PV_SYNTHETIC then EK_SYNTHETIC
                               else EK_DERIVED)\<rparr> in
     if snap_devices sn = []
     then Inr (r\<lparr>fr_outcome := FO_INSUFFICIENT_EVIDENCE,
                 fr_block_diagnostics := fr_block_diagnostics r @ [''no devices in snapshot'']\<rparr>)
     else
     let indices = select_indices sn demand;
         r = (if dem_topology_group demand \<noteq> None \<and> length indices < length (snap_devices sn)
              then r\<lparr>fr_block_diagnostics := fr_block_diagnostics r @
                     [''topology group restricts available devices'']\<rparr>
              else r) in
     chain (count_now sn demand indices) (\<lambda>(now, aggregate_free).
     let r = r\<lparr>fr_matching_devices := now\<rparr>;
         single = (dem_accelerator_count demand = 0);
         needed_count = (if single then 1 else dem_accelerator_count demand) in
     if aggregate_free < dem_aggregate_memory demand
     then Inr (r\<lparr>fr_outcome := FO_NO_FIT_RAW_CAPACITY, fr_category := FC_SPATIAL,
                 fr_block_diagnostics := fr_block_diagnostics r @
                   [''aggregate free capacity below demand'']\<rparr>)
     else if now < needed_count then fit_shortage sn demand indices needed_count r
     else
       chain (reservation_gate sn demand r) (\<lambda>stopped.
       case stopped of
         Some r' \<Rightarrow> Inr r'
       | None \<Rightarrow>
         let r = r\<lparr>fr_outcome := FO_FIT_NOW, fr_category := FC_UNKNOWN\<rparr> in
         if single
         then case filter (\<lambda>i. device_satisfies (snap_devices sn ! i) demand) indices of
                [] \<Rightarrow> Inr r
              | i # _ \<Rightarrow>
                  chain (compute_metrics (dev_layout (snap_devices sn ! i)) (Some demand)) (\<lambda>m.
                    Inr (r\<lparr>fr_aggregate_metrics := m\<rparr>))
         else Inr r)))"

end
