(* ===== verification/Planner.thy ===== *)
theory Planner
  imports Fit
begin

text \<open>
  \<open>src/planner/planner.cpp\<close>: the deterministic remediation planner.  Scores are doubles; the
  constructors of \<open>HealthyScore\<close> may throw, so every function is in the exception monad.
\<close>

section \<open>Candidates\<close>

fun disruption_of :: "Movability \<Rightarrow> double" where
  "disruption_of MV_RELEASEABLE = d_lit (10 / 100)"
| "disruption_of MV_RECOMPUTABLE = d_lit (25 / 100)"
| "disruption_of MV_EVICTABLE = d_lit (40 / 100)"
| "disruption_of MV_MOVABLE_AFTER_CHECKPOINT = d_lit (60 / 100)"
| "disruption_of MV_MOVABLE_AFTER_QUIESCE = d_lit (80 / 100)"
| "disruption_of MV_MOVABLE_LIVE = d_lit (95 / 100)"
| "disruption_of MV_IMMOVABLE = d_lit 1"
| "disruption_of MV_RESERVATION_PROTECTED = d_lit 1"
| "disruption_of MV_POLICY_PROTECTED = d_lit 1"
| "disruption_of MV_UNKNOWN = d_lit 1"

definition kind_for :: "Movability \<Rightarrow> ActionKind" where
  "kind_for m =
    (case m of
       MV_RELEASEABLE \<Rightarrow> AK_RELEASE_UNUSED
     | MV_RECOMPUTABLE \<Rightarrow> AK_EVICT_RECOMPUTABLE
     | MV_EVICTABLE \<Rightarrow> AK_EVICT_RECOMPUTABLE
     | MV_MOVABLE_LIVE \<Rightarrow> AK_MOVE_ALLOCATION
     | MV_MOVABLE_AFTER_QUIESCE \<Rightarrow> AK_MOVE_ALLOCATION
     | MV_MOVABLE_AFTER_CHECKPOINT \<Rightarrow> AK_MOVE_ALLOCATION
     | _ \<Rightarrow> AK_NO_BENEFICIAL_ACTION)"

definition planner_reclaimable :: "Allocation \<Rightarrow> bool" where
  "planner_reclaimable a =
    (if al_policy_protected a \<or> al_reservation a \<noteq> None then False
     else if \<not> may_move (al_movability a) then False
     else True)"

record FitState =
  fs_satisfying :: Count
  fs_aggregate_free :: Bytes

definition eval_fit :: "ResourceLayout list \<Rightarrow> WorkloadDemand \<Rightarrow> FitState res" where
  "eval_fit devs d =
    fold_res (\<lambda>lay s.
      chain (if free_capacity lay \<ge> dem_per_device_memory d \<and>
                largest_free_block lay \<ge> dem_per_device_memory d
             then Count_add (fs_satisfying s) 1 else Inr (fs_satisfying s)) (\<lambda>n.
      chain (Bytes_add (fs_aggregate_free s) (free_capacity lay)) (\<lambda>a.
      Inr \<lparr>fs_satisfying = n, fs_aggregate_free = a\<rparr>)))
    devs \<lparr>fs_satisfying = 0, fs_aggregate_free = 0\<rparr>"

record ReclaimCandidate =
  rc_device_index :: nat
  rc_id :: AllocationId
  rc_length :: Bytes
  rc_disruption :: double
  rc_movability :: Movability
  rc_owner :: AllocationOwnerId

definition candidate_of :: "PlanningWeights \<Rightarrow> nat \<Rightarrow> AllocationId \<times> Allocation \<Rightarrow> ReclaimCandidate" where
  "candidate_of weights i e =
    \<lparr>rc_device_index = i, rc_id = fst e, rc_length = al_length (snd e),
     rc_disruption = d_mul (disruption_of (al_movability (snd e)))
       (d_max (d_lit (5 / 100)) (d_sub (d_lit 1) (w_displacement_cost_weight weights))),
     rc_movability = al_movability (snd e), rc_owner = al_owner (snd e)\<rparr>"

definition collect_candidates ::
  "FragmentationSnapshot \<Rightarrow> PlanningWeights \<Rightarrow> ReclaimCandidate list" where
  "collect_candidates snap weights =
    concat (map (\<lambda>i. map (candidate_of weights i)
        (filter (\<lambda>e. planner_reclaimable (snd e)) (lay_allocations (dev_layout (snap_devices snap ! i)))))
      [0 ..< length (snap_devices snap)])"

definition candidate_less :: "ReclaimCandidate \<Rightarrow> ReclaimCandidate \<Rightarrow> bool" where
  "candidate_less a b =
    (if d_val (rc_disruption a) \<noteq> d_val (rc_disruption b) then d_less (rc_disruption a) (rc_disruption b)
     else if rc_length a \<noteq> rc_length b then rc_length a < rc_length b
     else rc_id a < rc_id b)"

text \<open>\<open>std::stable_sort\<close> with a comparator.\<close>

fun insert_stable :: "('a \<Rightarrow> 'a \<Rightarrow> bool) \<Rightarrow> 'a \<Rightarrow> 'a list \<Rightarrow> 'a list" where
  "insert_stable lt x [] = [x]"
| "insert_stable lt x (y # ys) =
    (if lt y x then y # insert_stable lt x ys else x # y # ys)"

definition stable_sort :: "('a \<Rightarrow> 'a \<Rightarrow> bool) \<Rightarrow> 'a list \<Rightarrow> 'a list" where
  "stable_sort lt xs = foldr (insert_stable lt) xs []"

section \<open>The greedy loop\<close>

definition needed_count :: "WorkloadDemand \<Rightarrow> Count" where
  "needed_count demand = (if dem_accelerator_count demand = 0 then 1 else dem_accelerator_count demand)"

definition fit_state_ok :: "WorkloadDemand \<Rightarrow> FitState \<Rightarrow> bool" where
  "fit_state_ok demand s \<longleftrightarrow>
     fs_satisfying s \<ge> needed_count demand \<and> fs_aggregate_free s \<ge> dem_aggregate_memory demand"

text \<open>Lines 127 to 156 of the file: the action for a removed candidate.\<close>

definition make_action ::
  "FragmentationSnapshot \<Rightarrow> PlanningWeights \<Rightarrow> ReclaimCandidate \<Rightarrow> PlanAction res" where
  "make_action snap weights c =
    chain (mk_HealthyScore (d_lit 1)) (\<lambda>improvement.
    chain (mk_HealthyScore (d_min (d_lit 1) (d_mul (w_displacement_cost_weight weights) (rc_disruption c)))) (\<lambda>cost.
    chain (mk_HealthyScore (d_min (d_lit 1) (d_mul (d_lit (6 / 10)) (rc_disruption c)))) (\<lambda>risk.
    chain (mk_HealthyScore (rc_disruption c)) (\<lambda>disruption.
    Inr (default_action\<lparr>act_kind := kind_for (rc_movability c),
      act_target_resource := res_id (dev_resource (snap_devices snap ! rc_device_index c)),
      act_affected_owner := rc_owner c,
      act_source_allocation := Some (rc_id c),
      act_affected_allocations := [rc_id c],
      act_required_authority := Generation (gen_value (snap_epoch snap)),
      act_required_preconditions :=
        [''source generation current'', ''owning workload allows displacement'',
         ''state checkpointable/recomputable where required'', ''policy allows action'',
         ''no protected reservation violated''],
      act_proof_obligations := [''accounting closed after action'', ''no double-free / double-consume''],
      act_expected_capacity_recovered := rc_length c,
      act_expected_fit_improvement := improvement,
      act_cost := cost,
      act_risk := risk,
      act_disruption := disruption,
      act_reversible := (rc_movability c \<noteq> MV_EVICTABLE \<and> rc_movability c \<noteq> MV_RECOMPUTABLE),
      act_state_preservation_required :=
        (rc_movability c = MV_MOVABLE_AFTER_CHECKPOINT \<or> rc_movability c = MV_MOVABLE_LIVE),
      act_preemption_required := (rc_movability c = MV_MOVABLE_LIVE),
      act_reservation_impact := RI_NONE,
      act_generations := snap_generations snap\<rparr>)))))"

fun plan_loop ::
  "FragmentationSnapshot \<Rightarrow> WorkloadDemand \<Rightarrow> PlanningWeights \<Rightarrow> ReclaimCandidate list \<Rightarrow>
   ResourceLayout list \<Rightarrow> PlanAction list \<Rightarrow> (ResourceLayout list \<times> PlanAction list) res" where
  "plan_loop snap demand weights [] devs actions = Inr (devs, actions)"
| "plan_loop snap demand weights (c # cands) devs actions =
    chain (eval_fit devs demand) (\<lambda>st.
    if fit_state_ok demand st then Inr (devs, actions)
    else
      chain (remove_allocation (devs ! rc_device_index c) (rc_id c)) (\<lambda>(err, l').
      let devs' = devs[rc_device_index c := l'] in
      if err \<noteq> None then plan_loop snap demand weights cands devs' actions
      else chain (make_action snap weights c) (\<lambda>act.
        plan_loop snap demand weights cands devs' (actions @ [act]))))"

section \<open>The scores of a plan\<close>

text \<open>\<open>std::to_string(double)\<close>: six decimals, as \<open>printf\<close> with \<open>%f\<close>.\<close>

fun nat_digits :: "nat \<Rightarrow> nat \<Rightarrow> string" where
  "nat_digits 0 n = []"
| "nat_digits (Suc w) n = nat_digits w (n div 10) @ [char_of (48 + n mod 10)]"

function decimal :: "nat \<Rightarrow> string" where
  "decimal n = (if n < 10 then [char_of (48 + n)] else decimal (n div 10) @ [char_of (48 + n mod 10)])"
  by auto
termination by (relation "measure id") auto

definition double_to_string :: "double \<Rightarrow> string" where
  "double_to_string d =
    (let n = nat (round_half_even (\<bar>d_val d\<bar> * 1000000))
     in (if d_sign d then ''-'' else '''') @ decimal (n div 1000000) @ ''.'' @ nat_digits 6 (n mod 1000000))"

definition average_scores :: "PlanAction list \<Rightarrow> double \<times> double \<times> double" where
  "average_scores actions =
    (let n = d_of_u64 (of_nat (length actions));
         (disruption_avg, cost_v, risk_v) =
           fold (\<lambda>act (d, c, r).
             (d_add d (d_div (act_disruption act) n), d_add c (act_cost act), d_add r (act_risk act)))
           actions (d_lit 0, d_lit 0, d_lit 0)
     in if actions = [] then (d_lit 0, d_lit 0, d_lit 0)
        else (disruption_avg, d_div cost_v n, d_div risk_v n))"

text \<open>Lines 167 to 201 of the file: the aggregate factors and the state of the finished plan.\<close>

definition finish_plan ::
  "Policy \<Rightarrow> PlanningWeights \<Rightarrow> Bytes \<Rightarrow> RemediationPlan \<Rightarrow> RemediationPlan res" where
  "finish_plan policy weights free_before plan =
    chain (Bytes_sum (map act_expected_capacity_recovered (plan_actions plan)) 0) (\<lambda>recovered.
    chain (mk_HealthyScore (d_lit 1)) (\<lambda>improvement.
    let free_before_v = d_of_u64 free_before;
        rec_v = d_of_u64 recovered;
        usable_gain = d_div rec_v (d_max (d_lit 1) (d_add free_before_v rec_v));
        benefit_v = d_min (d_lit 1) (d_add (d_mul (d_lit (6 / 10)) (w_reclaim_value weights))
                                           (d_mul (d_lit (4 / 10)) usable_gain));
        (disruption_avg, cost_v, risk_v) = average_scores (plan_actions plan)
    in
    chain (mk_HealthyScore benefit_v) (\<lambda>benefit.
    chain (mk_HealthyScore cost_v) (\<lambda>cost.
    chain (mk_HealthyScore risk_v) (\<lambda>risk.
    chain (mk_HealthyScore disruption_avg) (\<lambda>disruption.
    let plan = plan\<lparr>plan_expected_capacity_recovered := recovered,
          plan_expected_fit_improvement := improvement, plan_benefit := benefit, plan_cost := cost,
          plan_risk := risk, plan_disruption := disruption,
          plan_factor_explanation := plan_factor_explanation plan @
            [''benefit='' @ double_to_string benefit_v @ '' cost='' @ double_to_string cost_v @
             '' risk='' @ double_to_string risk_v @ '' disruption='' @ double_to_string disruption_avg]\<rparr>;
        plan = (if pol_require_verification policy then plan\<lparr>plan_state := PS_PLAN_READY\<rparr> else plan)
    in Inr (if d_less (pol_max_disruption policy) disruption_avg
            then plan\<lparr>plan_state := PS_BLOCKED,
                   plan_precondition_failures := plan_precondition_failures plan @
                     [''plan disruption exceeds policy limit'']\<rparr>
            else plan)))))))"

section \<open>The planner\<close>

definition plan_remediation ::
  "FragmentationSnapshot \<Rightarrow> WorkloadDemand \<Rightarrow> Policy \<Rightarrow> PlanningWeights \<Rightarrow> FragmentationPlanId \<Rightarrow>
   FragmentationPlanGeneration \<Rightarrow> RemediationPlan option res" where
  "plan_remediation snap demand policy weights pid pg =
    (let plan = default_plan\<lparr>plan_id := pid, plan_generation := pg, plan_domain_id := snap_domain_id snap,
           plan_based_on_snapshot := snap_generation snap,
           plan_policy_generation := snap_policy_generation snap, plan_epoch := snap_epoch snap\<rparr>;
         devs = map dev_layout (snap_devices snap)
     in
     chain (eval_fit devs demand) (\<lambda>now.
     if fit_state_ok demand now then Inr None
     else
       let cands = stable_sort candidate_less (collect_candidates snap weights) in
       chain (Bytes_sum (map free_capacity devs) 0) (\<lambda>free_before.
       chain (plan_loop snap demand weights cands devs []) (\<lambda>(devs', actions).
       chain (eval_fit devs' demand) (\<lambda>final.
       if fs_satisfying final < needed_count demand \<or>
          fs_aggregate_free final < dem_aggregate_memory demand
       then Inr None
       else chain (finish_plan policy weights free_before (plan\<lparr>plan_actions := actions\<rparr>)) (\<lambda>p.
         Inr (Some p)))))))"

end
