(* ===== verification/Fit_Correct.thy ===== *)
theory Fit_Correct
  imports Fit
begin

text \<open>
  The fit oracle against a declarative specification: \<open>fit_spec\<close> states in terms of free bytes,
  sets of devices and free time windows which outcome a demand has, and \<open>analyze_fit\<close> computes it
  on every well-formed snapshot.
\<close>

section \<open>Windows between reservations\<close>

definition window_free :: "Reservation list \<Rightarrow> nat \<Rightarrow> nat \<Rightarrow> bool" where
  "window_free rs s n \<longleftrightarrow> (\<forall>r \<in> set rs. {s ..< s + n} \<inter> {unat (rv_start r) ..< unat (rv_end r)} = {})"

definition reservations_within :: "Reservation list \<Rightarrow> Duration \<Rightarrow> bool" where
  "reservations_within rs horizon_end \<longleftrightarrow> (\<forall>r \<in> set rs. rv_start r < rv_end r \<and> rv_end r \<le> horizon_end)"

lemma window_free_simps [simp]:
  "window_free [] s n"
  "window_free (r # rs) s n \<longleftrightarrow>
     {s ..< s + n} \<inter> {unat (rv_start r) ..< unat (rv_end r)} = {} \<and> window_free rs s n"
  by (simp_all add: window_free_def)

lemma disjoint_interval_iff:
  fixes s n a b :: nat
  assumes "a < b" and "0 < n"
  shows "{s ..< s + n} \<inter> {a ..< b} = {} \<longleftrightarrow> s + n \<le> a \<or> b \<le> s"
proof
  assume "{s ..< s + n} \<inter> {a ..< b} = {}"
  then have "max s a \<notin> {s ..< s + n} \<or> max s a \<notin> {a ..< b}" by blast
  with assms show "s + n \<le> a \<or> b \<le> s" by (auto simp: max_def split: if_splits)
qed auto

text \<open>The window a scan from \<open>cursor\<close> has to find: the earliest free one.\<close>

definition first_window ::
  "Reservation list \<Rightarrow> nat \<Rightarrow> nat \<Rightarrow> nat \<Rightarrow> Duration option \<Rightarrow> bool" where
  "first_window rs horizon_end n cursor res \<longleftrightarrow>
     (case res of
        Some s \<Rightarrow> cursor \<le> unat s \<and> unat s + n \<le> horizon_end \<and> window_free rs (unat s) n \<and>
          (\<forall>t. cursor \<le> t \<longrightarrow> t < unat s \<longrightarrow> \<not> window_free rs t n)
      | None \<Rightarrow> (\<forall>t. cursor \<le> t \<longrightarrow> t + n \<le> horizon_end \<longrightarrow> \<not> window_free rs t n))"

lemma first_window_skip:
  assumes "first_window rs h n c' res" and "c \<le> c'"
    and "\<And>t. c \<le> t \<Longrightarrow> window_free (r # rs) t n \<Longrightarrow> c' \<le> t"
    and "\<And>t. c' \<le> t \<Longrightarrow> {t ..< t + n} \<inter> {unat (rv_start r) ..< unat (rv_end r)} = {}"
  shows "first_window (r # rs) h n c res"
proof (cases res)
  case None
  then have none: "\<not> window_free rs t n" if "c' \<le> t" "t + n \<le> h" for t
    using assms(1) that by (simp add: first_window_def)
  have "\<not> window_free (r # rs) t n" if "c \<le> t" "t + n \<le> h" for t
    using none [OF assms(3) [OF that(1)] that(2)] by (auto simp del: window_free_simps(2)) simp
  with None show ?thesis by (simp add: first_window_def)
next
  case (Some s)
  with assms(1) have s: "c' \<le> unat s" "unat s + n \<le> h" "window_free rs (unat s) n"
    "\<And>t. c' \<le> t \<Longrightarrow> t < unat s \<Longrightarrow> \<not> window_free rs t n" by (simp_all add: first_window_def)
  have "\<not> window_free (r # rs) t n" if t: "c \<le> t" "t < unat s" for t
  proof
    assume w: "window_free (r # rs) t n"
    then have "c' \<le> t" using assms(3) t by blast
    with s(4) t(2) w show False by simp
  qed
  moreover have "window_free (r # rs) (unat s) n" using s(1,3) assms(4) by simp
  ultimately show ?thesis using s(1,2) assms(2) Some by (simp add: first_window_def)
qed

lemma temporal_scan_first_window:
  assumes "sorted (map rv_start rs)" and "reservations_within rs H" and "c \<le> H" and "0 < req"
  shows "\<exists>res. temporal_scan rs H req c = Inr res \<and> first_window rs (unat H) (unat req) (unat c) res"
  using assms
proof (induction rs arbitrary: c)
  case Nil
  then have "unat (H - c) = unat H - unat c" "unat c \<le> unat H" by (auto simp: unat_sub word_le_nat_alt)
  moreover have "Duration_sub H c = Inr (H - c)" using Nil by (simp add: Duration_sub_def)
  ultimately show ?case by (auto simp: first_window_def word_le_nat_alt)
next
  case (Cons r rs)
  have r: "rv_start r < rv_end r" "rv_end r \<le> H" and rest: "reservations_within rs H"
    and sorted: "sorted (map rv_start rs)" and later: "\<forall>x \<in> set rs. rv_start r \<le> rv_start x"
    using Cons.prems by (auto simp: reservations_within_def)
  have req: "0 < unat req" using Cons.prems(4) by (simp add: word_less_nat_alt)
  have disj: "{t ..< t + unat req} \<inter> {unat (rv_start r) ..< unat (rv_end r)} = {} \<longleftrightarrow>
      t + unat req \<le> unat (rv_start r) \<or> unat (rv_end r) \<le> t" for t
    using r(1) req by (intro disjoint_interval_iff) (simp_all add: word_less_nat_alt)
  note nat = word_le_nat_alt word_less_nat_alt
  show ?case
  proof (cases "rv_end r \<le> c")
    case True
    obtain res where "temporal_scan rs H req c = Inr res"
      and fw: "first_window rs (unat H) (unat req) (unat c) res"
      using Cons.IH [OF sorted rest Cons.prems(3,4)] by blast
    moreover have "first_window (r # rs) (unat H) (unat req) (unat c) res"
      using True by (intro first_window_skip [OF fw]) (auto simp: disj nat)
    ultimately show ?thesis using True by auto
  next
    case False
    then have less: "c < rv_end r" by simp
    show ?thesis
    proof (cases "rv_start r \<ge> c \<and> rv_start r - c \<ge> req")
      case True
      then have gap: "unat c + unat req \<le> unat (rv_start r)" by (auto simp: nat unat_sub)
      have "unat (rv_start r) \<le> unat H" using r by (simp add: nat)
      then have "first_window (r # rs) (unat H) (unat req) (unat c) (Some c)"
        using gap later by (auto simp: first_window_def disj window_free_def nat)
      with True less show ?thesis by (auto simp: Duration_sub_def not_less)
    next
      case no_gap: False
      have step: "temporal_scan (r # rs) H req c =
          (if rv_end r \<ge> H then temporal_scan [] H req (rv_end r) else temporal_scan rs H req (rv_end r))"
        using no_gap less by (auto simp: Duration_sub_def not_less Let_def simp del: temporal_scan.simps(1))
      have skip: "unat (rv_end r) \<le> t" if "unat c \<le> t" "window_free (r # rs) t (unat req)" for t
      proof -
        have "t + unat req \<le> unat (rv_start r) \<or> unat (rv_end r) \<le> t"
          using that(2) disj by simp
        moreover have "\<not> t + unat req \<le> unat (rv_start r)"
          using no_gap that(1) by (auto simp: nat unat_sub)
        ultimately show ?thesis by blast
      qed
      show ?thesis
      proof (cases "rv_end r \<ge> H")
        case True
        then have "rv_end r = H" using r(2) by simp
        then have "temporal_scan (r # rs) H req c = Inr None"
          using step Cons.prems(4) by (simp add: Duration_sub_def)
        moreover have "first_window (r # rs) (unat H) (unat req) (unat c) None"
          using skip req \<open>rv_end r = H\<close> by (fastforce simp: first_window_def)
        ultimately show ?thesis by blast
      next
        case False
        obtain res where scan: "temporal_scan rs H req (rv_end r) = Inr res"
          and fw: "first_window rs (unat H) (unat req) (unat (rv_end r)) res"
          using Cons.IH [OF sorted rest r(2) Cons.prems(4)] by blast
        have "first_window (r # rs) (unat H) (unat req) (unat c) res"
          using less by (intro first_window_skip [OF fw _ skip]) (auto simp: disj nat)
        with False step scan show ?thesis by auto
      qed
    qed
  qed
qed

section \<open>Release of the reclaimable allocations\<close>

lemma fit_reclaimable_eligible: "fit_reclaimable = eligible_for_reclaim"
  by (rule ext) (auto simp: fit_reclaimable_def eligible_for_reclaim_def)

definition protected_bytes :: "ResourceLayout \<Rightarrow> nat set" where
  "protected_bytes l = (\<Union>e \<in> {e \<in> set (lay_allocations l). is_protected (snd e)}. alloc_bytes (snd e))"

text \<open>The bytes that are free once every unprotected allocation is gone.\<close>

definition reclaim_free_bytes :: "ResourceLayout \<Rightarrow> nat set" where
  "reclaim_free_bytes l = {0 ..< unat (lay_capacity l)} - protected_bytes l"

lemma reclaimed_free_bytes: "reclaimed l l' \<Longrightarrow> free_bytes l' = reclaim_free_bytes l"
  by (simp add: reclaimed_def free_bytes_def used_bytes_def reclaim_free_bytes_def protected_bytes_def
      protected_iff_not_eligible)

definition fits_in :: "nat set \<Rightarrow> WorkloadDemand \<Rightarrow> bool" where
  "fits_in free d \<longleftrightarrow> (\<exists>s. {s ..< s + unat (dem_per_device_memory d)} \<subseteq> free)"

lemma satisfies_iff:
  assumes "layout_inv l"
  shows "dem_per_device_memory d \<le> free_capacity l \<and> dem_per_device_memory d \<le> largest_free_block l \<longleftrightarrow>
    fits_in (free_bytes l) d"
  using largest_le_free [OF assms] unfolding fits_in_def longest_run_iff [OF assms]
  by (auto simp: word_le_nat_alt)

lemma release_reclaimable_ok:
  assumes "layout_inv l"
  obtains l' where "release_reclaimable l = Inr l'" "layout_inv l'" "free_bytes l' = reclaim_free_bytes l"
  using device_layout.reclaim_where [OF assms, of eligible_for_reclaim] reclaimed_free_bytes [of l]
  by (auto simp: release_reclaimable_def fit_reclaimable_eligible reclaimed_def)

section \<open>Loops over the devices\<close>

definition devices_ok :: "FragmentationSnapshot \<Rightarrow> bool" where
  "devices_ok sn \<longleftrightarrow> (\<forall>d \<in> set (snap_devices sn). layout_inv (dev_layout d)) \<and>
     sum_list (map (\<lambda>d. unat (lay_capacity (dev_layout d))) (snap_devices sn)) < 2 ^ 64 \<and>
     length (snap_devices sn) < 2 ^ 64"

abbreviation device_layout_at :: "FragmentationSnapshot \<Rightarrow> nat \<Rightarrow> ResourceLayout" where
  "device_layout_at sn i \<equiv> dev_layout (snap_devices sn ! i)"

lemma devices_ok_inv: "devices_ok sn \<Longrightarrow> i < length (snap_devices sn) \<Longrightarrow> layout_inv (device_layout_at sn i)"
  by (simp add: devices_ok_def)

lemma sum_subset_devices:
  assumes "devices_ok sn" and "distinct is" and "set is \<subseteq> {..< length (snap_devices sn)}"
    and "\<And>i. i \<in> set is \<Longrightarrow> f i \<le> unat (lay_capacity (device_layout_at sn i))"
  shows "sum_list (map f is) < 2 ^ 64"
proof -
  have "sum_list (map f is) = (\<Sum>i \<in> set is. f i)" using assms(2) by (simp add: sum_list_distinct_conv_sum_set)
  also have "\<dots> \<le> (\<Sum>i \<in> set is. unat (lay_capacity (device_layout_at sn i)))" by (intro sum_mono assms(4))
  also have "\<dots> \<le> (\<Sum>i \<in> {..< length (snap_devices sn)}. unat (lay_capacity (device_layout_at sn i)))"
    using assms(3) by (intro sum_mono2) auto
  also have "\<dots> = sum_list (map (\<lambda>d. unat (lay_capacity (dev_layout d))) (snap_devices sn))"
    by (simp add: sum_list_sum_nth atLeast0LessThan)
  finally show ?thesis using assms(1) by (simp add: devices_ok_def)
qed

lemma free_capacity_bound: "layout_inv l \<Longrightarrow> unat (free_capacity l) \<le> unat (lay_capacity l)"
  by (simp add: free_capacity_def free_capacity_le)

lemma count_now_exact:
  assumes inv: "\<And>i. i \<in> set is \<Longrightarrow> layout_inv (device_layout_at sn i)"
    and "unat n + length is < 2 ^ 64"
    and "unat a + sum_list (map (\<lambda>i. card (free_bytes (device_layout_at sn i))) is) < 2 ^ 64"
  shows "\<exists>n' a'. fold_res (\<lambda>i (now, aggregate_free).
      let d = snap_devices sn ! i in
      chain (if device_satisfies d demand then Count_add now 1 else Inr now) (\<lambda>now.
      chain (Bytes_add aggregate_free (free_capacity (dev_layout d))) (\<lambda>aggregate_free.
      Inr (now, aggregate_free)))) is (n, a) = Inr (n', a') \<and>
    unat n' = unat n + length (filter (\<lambda>i. fits_in (free_bytes (device_layout_at sn i)) demand) is) \<and>
    unat a' = unat a + sum_list (map (\<lambda>i. card (free_bytes (device_layout_at sn i))) is)"
  using assms
proof (induction "is" arbitrary: n a)
  case Nil
  then show ?case by simp
next
  case (Cons i "is")
  let ?l = "device_layout_at sn i"
  have inv: "layout_inv ?l" using Cons.prems(1) by simp
  have sat: "device_satisfies (snap_devices sn ! i) demand \<longleftrightarrow> fits_in (free_bytes ?l) demand"
    using satisfies_iff [OF inv] by (simp add: device_satisfies_def)
  have a: "unat (a + free_capacity ?l) = unat a + card (free_bytes ?l)"
    "Bytes_add a (free_capacity ?l) = Inr (a + free_capacity ?l)"
    using Cons.prems(3) unat_add_no_overflow [of a "free_capacity ?l"]
    by (auto simp: Bytes_add_ok free_capacity_card [OF inv])
  show ?case
  proof (cases "fits_in (free_bytes ?l) demand")
    case True
    have "unat (n + 1) = unat n + 1" "Count_add n 1 = Inr (n + 1)"
      using Cons.prems(2) unat_add_no_overflow [of n 1] by (auto simp: Count_add_ok)
    with True Cons.IH [of "n + 1" "a + free_capacity ?l"] Cons.prems a show ?thesis
      by (auto simp: sat Let_def)
  next
    case False
    with Cons.IH [of n "a + free_capacity ?l"] Cons.prems a show ?thesis
      by (auto simp: sat Let_def)
  qed
qed

lemma count_after_exact:
  assumes inv: "\<And>i. i \<in> set is \<Longrightarrow> layout_inv (device_layout_at sn i)"
    and "unat n + length is < 2 ^ 64"
  shows "\<exists>n'. fold_res (\<lambda>idx n.
      chain (release_reclaimable (device_layout_at sn idx)) (\<lambda>sim.
        if free_capacity sim \<ge> dem_per_device_memory demand \<and>
           largest_free_block sim \<ge> dem_per_device_memory demand
        then Count_add n 1 else Inr n)) is n = Inr n' \<and>
    unat n' = unat n + length (filter (\<lambda>i. fits_in (reclaim_free_bytes (device_layout_at sn i)) demand) is)"
  using assms
proof (induction "is" arbitrary: n)
  case (Cons i "is")
  have inv: "layout_inv (device_layout_at sn i)" using Cons.prems(1) by simp
  obtain l' where l': "release_reclaimable (device_layout_at sn i) = Inr l'" "layout_inv l'"
    "free_bytes l' = reclaim_free_bytes (device_layout_at sn i)"
    by (rule release_reclaimable_ok [OF inv])
  show ?case
  proof (cases "fits_in (free_bytes l') demand")
    case True
    have "unat (n + 1) = unat n + 1" "Count_add n 1 = Inr (n + 1)"
      using Cons.prems(2) unat_add_no_overflow [of n 1] by (auto simp: Count_add_ok)
    with True Cons.IH [of "n + 1"] Cons.prems l' satisfies_iff [OF l'(2), of demand] show ?thesis by auto
  next
    case False
    with Cons.IH [of n] Cons.prems l' satisfies_iff [OF l'(2), of demand] show ?thesis by auto
  qed
qed simp

lemma aggregate_after_exact:
  assumes inv: "\<And>i. i \<in> set is \<Longrightarrow> layout_inv (device_layout_at sn i)"
    and "unat a + sum_list (map (\<lambda>i. card (reclaim_free_bytes (device_layout_at sn i))) is) < 2 ^ 64"
  shows "\<exists>a'. fold_res (\<lambda>idx total.
      chain (release_reclaimable (device_layout_at sn idx)) (\<lambda>sim.
        Bytes_add total (free_capacity sim))) is a = Inr a' \<and>
    unat a' = unat a + sum_list (map (\<lambda>i. card (reclaim_free_bytes (device_layout_at sn i))) is)"
  using assms
proof (induction "is" arbitrary: a)
  case (Cons i "is")
  have inv: "layout_inv (device_layout_at sn i)" using Cons.prems(1) by simp
  obtain l' where l': "release_reclaimable (device_layout_at sn i) = Inr l'" "layout_inv l'"
    "free_bytes l' = reclaim_free_bytes (device_layout_at sn i)"
    by (rule release_reclaimable_ok [OF inv])
  have "unat (a + free_capacity l') = unat a + card (reclaim_free_bytes (device_layout_at sn i))"
    "Bytes_add a (free_capacity l') = Inr (a + free_capacity l')"
    using Cons.prems(2) unat_add_no_overflow [of a "free_capacity l'"]
    by (auto simp: Bytes_add_ok free_capacity_card [OF l'(2)] l'(3))
  with Cons.IH [of "a + free_capacity l'"] Cons.prems l'(1) show ?case by auto
qed simp

section \<open>The specification of the fit oracle\<close>

definition eligible_devices :: "FragmentationSnapshot \<Rightarrow> WorkloadDemand \<Rightarrow> nat set" where
  "eligible_devices sn d = {i. i < length (snap_devices sn) \<and>
     (case dem_topology_group d of None \<Rightarrow> True
      | Some g \<Rightarrow> res_topology_group (dev_resource (snap_devices sn ! i)) = Some g)}"

definition needed_devices :: "WorkloadDemand \<Rightarrow> nat" where
  "needed_devices d = (if dem_accelerator_count d = 0 then 1 else unat (dem_accelerator_count d))"

definition capable :: "(ResourceLayout \<Rightarrow> nat set) \<Rightarrow> FragmentationSnapshot \<Rightarrow> WorkloadDemand \<Rightarrow> nat set" where
  "capable free sn d = {i \<in> eligible_devices sn d. fits_in (free (device_layout_at sn i)) d}"

definition free_total :: "(ResourceLayout \<Rightarrow> nat set) \<Rightarrow> FragmentationSnapshot \<Rightarrow> WorkloadDemand \<Rightarrow> nat" where
  "free_total free sn d = (\<Sum>i \<in> eligible_devices sn d. card (free (device_layout_at sn i)))"

definition horizon :: Duration where
  "horizon = 0xFFFFFFFFFFFFFFFF div 2"

definition no_window :: "FragmentationSnapshot \<Rightarrow> WorkloadDemand \<Rightarrow> bool" where
  "no_window sn d \<longleftrightarrow> snap_reservations sn \<noteq> [] \<and>
     (case dem_reservation_duration d of None \<Rightarrow> False
      | Some dur \<Rightarrow> \<not> (\<exists>s. s + unat dur \<le> unat horizon \<and> window_free (snap_reservations sn) s (unat dur)))"

definition fit_spec :: "FragmentationSnapshot \<Rightarrow> WorkloadDemand \<Rightarrow> FitOutcome" where
  "fit_spec sn d =
    (if \<not> generations_complete (snap_generations sn) \<or> snap_provenance sn = PV_UNKNOWN
     then FO_REVALIDATION_REQUIRED
     else if snap_devices sn = [] then FO_INSUFFICIENT_EVIDENCE
     else if free_total free_bytes sn d < unat (dem_aggregate_memory d) then FO_NO_FIT_RAW_CAPACITY
     else if card (capable free_bytes sn d) < needed_devices d
     then if dem_topology_group d \<noteq> None \<and> card (eligible_devices sn d) < needed_devices d
          then FO_NO_FIT_TOPOLOGY
          else if needed_devices d \<le> card (capable reclaim_free_bytes sn d) \<and>
                  unat (dem_aggregate_memory d) \<le> free_total reclaim_free_bytes sn d
          then FO_FIT_AFTER_RECLAIM
          else if \<forall>i \<in> eligible_devices sn d. \<forall>e \<in> set (lay_allocations (device_layout_at sn i)). is_protected (snd e)
          then FO_NO_FIT_PROTECTED_STATE
          else FO_NO_FIT_FRAGMENTATION
     else if no_window sn d
     then if \<exists>r \<in> set (snap_reservations sn). rv_hard r then FO_NO_FIT_RESERVATION else FO_NO_FIT_TEMPORAL
     else FO_FIT_NOW)"

definition snapshot_ok :: "FragmentationSnapshot \<Rightarrow> bool" where
  "snapshot_ok sn \<longleftrightarrow> devices_ok sn \<and> reservations_within (snap_reservations sn) horizon"

lemma select_indices_set: "set (select_indices sn d) = eligible_devices sn d"
  by (auto simp: select_indices_def eligible_devices_def Let_def split: option.splits)

lemma select_indices_distinct: "distinct (select_indices sn d)"
  by (auto simp: select_indices_def Let_def split: option.splits)

lemma select_indices_card:
  "length (filter P (select_indices sn d)) = card {i \<in> eligible_devices sn d. P i}"
  "length (select_indices sn d) = card (eligible_devices sn d)"
  "sum_list (map f (select_indices sn d)) = (\<Sum>i \<in> eligible_devices sn d. f i)"
  using select_indices_distinct [of sn d]
  by (auto simp: distinct_card [symmetric] sum_list_distinct_conv_sum_set select_indices_set)

lemma eligible_devices_bound: "eligible_devices sn d \<subseteq> {..< length (snap_devices sn)}"
  by (auto simp: eligible_devices_def)

lemma select_indices_length: "length (select_indices sn d) \<le> length (snap_devices sn)"
  using card_mono [OF _ eligible_devices_bound [of sn d]] by (simp add: select_indices_card(2))

lemma reclaim_free_bytes_card: "card (reclaim_free_bytes l) \<le> unat (lay_capacity l)"
  using card_mono [of "{0 ..< unat (lay_capacity l)}" "reclaim_free_bytes l"]
  by (auto simp: reclaim_free_bytes_def)

lemma eligible_facts:
  assumes ok: "devices_ok sn"
  shows "\<And>i. i \<in> set (select_indices sn d) \<Longrightarrow> layout_inv (device_layout_at sn i)"
    and "length (select_indices sn d) < 2 ^ 64"
    and "sum_list (map (\<lambda>i. card (free_bytes (device_layout_at sn i))) (select_indices sn d)) < 2 ^ 64"
    and "sum_list (map (\<lambda>i. card (reclaim_free_bytes (device_layout_at sn i))) (select_indices sn d)) < 2 ^ 64"
proof -
  have sub: "set (select_indices sn d) \<subseteq> {..< length (snap_devices sn)}"
    using eligible_devices_bound by (simp add: select_indices_set)
  then show inv: "layout_inv (device_layout_at sn i)" if "i \<in> set (select_indices sn d)" for i
    using devices_ok_inv [OF ok] that by auto
  show "length (select_indices sn d) < 2 ^ 64"
    using select_indices_length [of sn d] ok by (simp add: devices_ok_def)
  show "sum_list (map (\<lambda>i. card (free_bytes (device_layout_at sn i))) (select_indices sn d)) < 2 ^ 64"
    using free_capacity_card free_capacity_bound inv
    by (intro sum_subset_devices [OF ok select_indices_distinct sub]) fastforce
  show "sum_list (map (\<lambda>i. card (reclaim_free_bytes (device_layout_at sn i))) (select_indices sn d)) < 2 ^ 64"
    by (intro sum_subset_devices [OF ok select_indices_distinct sub] reclaim_free_bytes_card)
qed

lemma count_now_spec:
  assumes ok: "devices_ok sn"
  obtains now agg where "count_now sn d (select_indices sn d) = Inr (now, agg)"
    "unat now = card (capable free_bytes sn d)" "unat agg = free_total free_bytes sn d"
  using count_now_exact [of "select_indices sn d" sn 0 0 d] eligible_facts [OF ok, where d = d]
  by (auto simp: count_now_def select_indices_card capable_def free_total_def)

lemma count_after_spec:
  assumes ok: "devices_ok sn"
  obtains n where "count_satisfying_after_reclaim sn d (select_indices sn d) = Inr n"
    "unat n = card (capable reclaim_free_bytes sn d)"
  using count_after_exact [of "select_indices sn d" sn 0 d] eligible_facts [OF ok, where d = d]
  by (auto simp: count_satisfying_after_reclaim_def select_indices_card capable_def)

lemma aggregate_after_spec:
  assumes ok: "devices_ok sn"
  obtains a where "aggregate_after_reclaim sn (select_indices sn d) = Inr a"
    "unat a = free_total reclaim_free_bytes sn d"
  using aggregate_after_exact [of "select_indices sn d" sn 0] eligible_facts [OF ok, where d = d]
  by (auto simp: aggregate_after_reclaim_def select_indices_card free_total_def)

lemma is_protected_alt:
  "is_protected a \<longleftrightarrow> \<not> (may_move (al_movability a) \<and> \<not> al_policy_protected a \<and> al_reservation a = None)"
  by (auto simp: protected_iff_not_eligible eligible_for_reclaim_def)

lemma protected_only_spec:
  "protected_only sn (select_indices sn d) \<longleftrightarrow>
   (\<forall>i \<in> eligible_devices sn d. \<forall>e \<in> set (lay_allocations (device_layout_at sn i)). is_protected (snd e))"
  unfolding protected_only_def select_indices_set is_protected_alt by blast

definition needed_word :: "WorkloadDemand \<Rightarrow> Count" where
  "needed_word d = (if dem_accelerator_count d = 0 then 1 else dem_accelerator_count d)"

lemma needed_word_nat: "unat (needed_word d) = needed_devices d"
  by (simp add: needed_word_def needed_devices_def)

lemma fit_shortage_spec:
  assumes ok: "devices_ok sn" and evidence: "generations_complete (snap_generations sn)"
      "snap_provenance sn \<noteq> PV_UNKNOWN" "snap_devices sn \<noteq> []"
    and raw: "\<not> free_total free_bytes sn d < unat (dem_aggregate_memory d)"
    and short: "card (capable free_bytes sn d) < needed_devices d"
  shows "\<exists>r'. fit_shortage sn d (select_indices sn d) (needed_word d) r = Inr r' \<and>
    fr_outcome r' = fit_spec sn d"
proof -
  obtain n where n: "count_satisfying_after_reclaim sn d (select_indices sn d) = Inr n"
    "unat n = card (capable reclaim_free_bytes sn d)" by (rule count_after_spec [OF ok])
  obtain a where a: "aggregate_after_reclaim sn (select_indices sn d) = Inr a"
    "unat a = free_total reclaim_free_bytes sn d" by (rule aggregate_after_spec [OF ok])
  have len: "(of_nat (length (select_indices sn d)) < needed_word d) =
      (card (eligible_devices sn d) < needed_devices d)"
    using eligible_facts(2) [OF ok, where d = d]
    by (simp add: word_less_nat_alt unat_of_nat_small needed_word_nat select_indices_card(2))
  have spec: "fit_spec sn d =
     (if dem_topology_group d \<noteq> None \<and> card (eligible_devices sn d) < needed_devices d
      then FO_NO_FIT_TOPOLOGY
      else if needed_devices d \<le> card (capable reclaim_free_bytes sn d) \<and>
              unat (dem_aggregate_memory d) \<le> free_total reclaim_free_bytes sn d
      then FO_FIT_AFTER_RECLAIM
      else if protected_only sn (select_indices sn d) then FO_NO_FIT_PROTECTED_STATE
      else FO_NO_FIT_FRAGMENTATION)"
    using evidence raw short by (simp add: fit_spec_def protected_only_spec)
  show ?thesis
    unfolding spec fit_shortage_def Let_def len
    by (simp add: n a word_le_nat_alt needed_word_nat)
qed

lemma temporal_continuous_fit_spec:
  assumes "reservations_within rs horizon"
  shows "\<exists>res. temporal_continuous_fit rs 0 horizon dur = Inr res \<and>
    (res \<noteq> None \<longleftrightarrow> (\<exists>s. s + unat dur \<le> unat horizon \<and> window_free rs s (unat dur)))"
proof (cases "dur = 0")
  case True
  then show ?thesis by (auto simp: temporal_continuous_fit_def window_free_def intro!: exI [of _ 0])
next
  case False
  have set: "set (sort_key rv_start rs) = set rs" by simp
  have wf: "window_free (sort_key rv_start rs) = window_free rs" by (auto simp: window_free_def fun_eq_iff)
  have "reservations_within (sort_key rv_start rs) horizon" using assms by (simp add: reservations_within_def)
  then obtain res where "temporal_scan (sort_key rv_start rs) horizon dur 0 = Inr res"
    "first_window (sort_key rv_start rs) (unat horizon) (unat dur) (unat (0 :: Duration)) res"
    using temporal_scan_first_window [of "sort_key rv_start rs" horizon 0 dur] False
    by (auto simp: word_gt_0)
  with False show ?thesis
    by (cases res) (auto simp: temporal_continuous_fit_def first_window_def wf)
qed

lemma reservation_gate_spec:
  assumes "reservations_within (snap_reservations sn) horizon"
  obtains (pass) "reservation_gate sn d r = Inr None" "\<not> no_window sn d"
  | (stop) r' where "reservation_gate sn d r = Inr (Some r')" "no_window sn d"
    "fr_outcome r' = (if \<exists>r \<in> set (snap_reservations sn). rv_hard r then FO_NO_FIT_RESERVATION else FO_NO_FIT_TEMPORAL)"
proof (cases "dem_reservation_duration d")
  case None
  then show thesis by (intro pass) (simp_all add: reservation_gate_def no_window_def)
next
  case (Some dur)
  obtain res where res: "temporal_continuous_fit (snap_reservations sn) 0 horizon dur = Inr res"
    "res \<noteq> None \<longleftrightarrow> (\<exists>s. s + unat dur \<le> unat horizon \<and> window_free (snap_reservations sn) s (unat dur))"
    using temporal_continuous_fit_spec [OF assms] by blast
  note gate = reservation_gate_def [unfolded horizon_def [symmetric]]
  show thesis
  proof (cases "snap_reservations sn = [] \<or> res \<noteq> None")
    case True
    with Some res show thesis by (intro pass) (auto simp: gate no_window_def)
  next
    case False
    with Some res have "no_window sn d" by (auto simp: no_window_def)
    with Some res False show thesis
      by (cases "\<exists>r \<in> set (snap_reservations sn). rv_hard r") (auto intro!: stop simp: gate)
  qed
qed

lemma first_window_unique:
  assumes "first_window rs h n c a" and "first_window rs h n c b"
  shows "a = b"
proof (cases a)
  case None
  with assms show ?thesis by (cases b) (force simp: first_window_def)+
next
  case (Some s)
  then obtain t where b: "b = Some t" using assms by (cases b) (force simp: first_window_def)+
  have "\<not> unat s < unat t" "\<not> unat t < unat s" using assms Some b by (auto simp: first_window_def)
  then show ?thesis using Some b by (simp add: word_unat_eq_iff)
qed

lemma first_window_set: "set rs = set rs' \<Longrightarrow> first_window rs = first_window rs'"
  by (auto simp: first_window_def window_free_def fun_eq_iff split: option.splits)

lemma fit_now_metrics_ok:
  assumes ok: "devices_ok sn"
  shows "\<exists>r'. (case filter (\<lambda>i. device_satisfies (snap_devices sn ! i) d) (select_indices sn d) of
      [] \<Rightarrow> Inr r
    | i # _ \<Rightarrow> chain (compute_metrics (device_layout_at sn i) (Some d)) (\<lambda>m. Inr (r\<lparr>fr_aggregate_metrics := m\<rparr>))) = Inr r' \<and>
    fr_outcome r' = fr_outcome r"
proof (cases "filter (\<lambda>i. device_satisfies (snap_devices sn ! i) d) (select_indices sn d)")
  case (Cons i "is")
  then have "i \<in> set (select_indices sn d)" by (metis filter_is_subset list.set_intros(1) subset_iff)
  then have "layout_inv (device_layout_at sn i)" by (rule eligible_facts(1) [OF ok])
  then obtain m where "layout_metrics (device_layout_at sn i) m"
    "compute_metrics (device_layout_at sn i) (Some d) = metrics_workload (device_layout_at sn i) d m"
    using layout_metrics_ok by metis
  moreover have "\<exists>m'. metrics_workload (device_layout_at sn i) d m = Inr m'"
    using \<open>layout_inv (device_layout_at sn i)\<close> \<open>layout_metrics (device_layout_at sn i) m\<close>
    by (rule metrics_workload_total)
  ultimately show ?thesis using Cons by auto
qed simp

text \<open>The result record when the device loop has run, and the decisions that remain.\<close>

definition fit_progress :: "FragmentationSnapshot \<Rightarrow> WorkloadDemand \<Rightarrow> Count \<Rightarrow> FitResult" where
  "fit_progress sn d now =
    (let r = default_fit_result\<lparr>fr_required_devices := dem_accelerator_count d,
           fr_evidence := (if snap_provenance sn = PV_MEASURED then EK_REAL
             else if snap_provenance sn = PV_SYNTHETIC then EK_SYNTHETIC else EK_DERIVED)\<rparr>
     in (if dem_topology_group d \<noteq> None \<and> length (select_indices sn d) < length (snap_devices sn)
         then r\<lparr>fr_block_diagnostics := fr_block_diagnostics r @ [''topology group restricts available devices'']\<rparr>
         else r)\<lparr>fr_matching_devices := now\<rparr>)"

lemma analyze_fit_run:
  assumes "generations_complete (snap_generations sn)" "snap_provenance sn \<noteq> PV_UNKNOWN" "snap_devices sn \<noteq> []"
    and "count_now sn d (select_indices sn d) = Inr (now, agg)" and "r0 = fit_progress sn d now"
  shows "analyze_fit sn d =
    (if agg < dem_aggregate_memory d then Inr (r0\<lparr>fr_outcome := FO_NO_FIT_RAW_CAPACITY, fr_category := FC_SPATIAL,
         fr_block_diagnostics := fr_block_diagnostics r0 @ [''aggregate free capacity below demand'']\<rparr>)
     else if now < needed_word d then fit_shortage sn d (select_indices sn d) (needed_word d) r0
     else chain (reservation_gate sn d r0) (\<lambda>stopped. case stopped of Some r' \<Rightarrow> Inr r'
       | None \<Rightarrow> if dem_accelerator_count d = 0
           then case filter (\<lambda>i. device_satisfies (snap_devices sn ! i) d) (select_indices sn d) of
             [] \<Rightarrow> Inr (r0\<lparr>fr_outcome := FO_FIT_NOW, fr_category := FC_UNKNOWN\<rparr>)
           | i # _ \<Rightarrow> chain (compute_metrics (device_layout_at sn i) (Some d)) (\<lambda>m.
               Inr (r0\<lparr>fr_outcome := FO_FIT_NOW, fr_category := FC_UNKNOWN, fr_aggregate_metrics := m\<rparr>))
           else Inr (r0\<lparr>fr_outcome := FO_FIT_NOW, fr_category := FC_UNKNOWN\<rparr>)))"
  unfolding analyze_fit_def assms(5) fit_progress_def Let_def needed_word_def
  by (simp only: assms(1-4) chain_simps prod.case simp_thms if_False)

lemma analyze_fit_spec:
  assumes ok: "snapshot_ok sn"
  shows "\<exists>r. analyze_fit sn d = Inr r \<and> fr_outcome r = fit_spec sn d"
proof (cases "generations_complete (snap_generations sn) \<and> snap_provenance sn \<noteq> PV_UNKNOWN \<and> snap_devices sn \<noteq> []")
  case False
  show ?thesis
  proof (cases "\<not> generations_complete (snap_generations sn) \<or> snap_provenance sn = PV_UNKNOWN")
    case True
    then show ?thesis unfolding analyze_fit_def fit_spec_def Let_def if_P [OF True] by simp
  next
    case known: False
    then show ?thesis using False unfolding analyze_fit_def fit_spec_def Let_def if_not_P [OF known] by simp
  qed
next
  case evidence: True
  have dev: "devices_ok sn" and res: "reservations_within (snap_reservations sn) horizon"
    using ok by (simp_all add: snapshot_ok_def)
  obtain now agg where cn: "count_now sn d (select_indices sn d) = Inr (now, agg)"
    "unat now = card (capable free_bytes sn d)" "unat agg = free_total free_bytes sn d"
    by (rule count_now_spec [OF dev])
  define r0 where "r0 = fit_progress sn d now"
  note run = analyze_fit_run [OF _ _ _ cn(1) r0_def]
  have raw: "agg < dem_aggregate_memory d \<longleftrightarrow> free_total free_bytes sn d < unat (dem_aggregate_memory d)"
    and short: "now < needed_word d \<longleftrightarrow> card (capable free_bytes sn d) < needed_devices d"
    using cn by (simp_all add: word_less_nat_alt needed_word_nat)
  consider (raw) "agg < dem_aggregate_memory d" | (short) "\<not> agg < dem_aggregate_memory d" "now < needed_word d"
    | (gate) "\<not> agg < dem_aggregate_memory d" "\<not> now < needed_word d" by blast
  then show ?thesis
  proof cases
    case raw
    with evidence \<open>agg < _ \<longleftrightarrow> _\<close> show ?thesis by (simp add: run fit_spec_def)
  next
    case short
    with fit_shortage_spec [OF dev] evidence \<open>agg < _ \<longleftrightarrow> _\<close> \<open>now < _ \<longleftrightarrow> _\<close> show ?thesis
      by (simp add: run)
  next
    case gate
    have spec: "fit_spec sn d = (if no_window sn d
        then if \<exists>r \<in> set (snap_reservations sn). rv_hard r then FO_NO_FIT_RESERVATION else FO_NO_FIT_TEMPORAL
        else FO_FIT_NOW)"
      using gate evidence \<open>agg < _ \<longleftrightarrow> _\<close> \<open>now < _ \<longleftrightarrow> _\<close> by (simp add: fit_spec_def)
    show ?thesis
    proof (cases rule: reservation_gate_spec [OF res, of d r0])
      case 1
      with gate spec evidence fit_now_metrics_ok [OF dev, where d = d and r = "r0\<lparr>fr_outcome := FO_FIT_NOW, fr_category := FC_UNKNOWN\<rparr>"]
      show ?thesis by (simp add: run)
    next
      case (2 r')
      with gate spec evidence show ?thesis by (simp add: run)
    qed
  qed
qed

section \<open>Properties\<close>


definition sample_resource :: "u64 \<Rightarrow> Resource" where
  "sample_resource i = \<lparr>res_id = TypedId i, res_generation = Generation 1, res_pool = TypedId 1,
     res_device = TypedId i, res_node = TypedId 1, res_memory_domain = TypedId 1,
     res_topology_group = Some 3, res_domain = D_CUDA_DEVICE_MEMORY, res_capacity = 4096,
     res_provenance = PV_MEASURED\<rparr>"

definition sample_generations :: KnownResourceGenerations where
  "sample_generations = default_generations\<lparr>kg_resource := Generation 1, kg_allocation := Generation 1,
     kg_reservation := Generation 1, kg_topology := Generation 1, kg_capacity := Generation 1\<rparr>"

definition sample_reservation :: "u64 \<Rightarrow> Duration \<Rightarrow> Duration \<Rightarrow> Reservation" where
  "sample_reservation i s e = \<lparr>rv_id = TypedId i, rv_generation = Generation 1, rv_resource = TypedId 1,
     rv_start = s, rv_end = e, rv_amount = 64, rv_hard = True, rv_policy_protected = False,
     rv_provenance = PV_REPORTED\<rparr>"

definition sample_snapshot :: FragmentationSnapshot where
  "sample_snapshot = default_snapshot\<lparr>snap_generations := sample_generations, snap_provenance := PV_MEASURED,
     snap_devices := [\<lparr>dev_resource = sample_resource 1, dev_layout = sample_layout\<rparr>],
     snap_reservations := [sample_reservation 1 10 20]\<rparr>"

lemma sample_layout_capacity: "lay_capacity sample_layout = 4096"
  using layout_reachable_inv [OF sample_layout_reachable] by simp

lemma sample_snapshot_ok: "snapshot_ok sample_snapshot"
  by (simp add: snapshot_ok_def devices_ok_def sample_snapshot_def sample_layout_inv sample_layout_capacity
      reservations_within_def sample_reservation_def horizon_def)


text \<open>
  C36: The window search.  When every reservation is a non-empty interval that ends within the
  horizon, \<open>temporal_continuous_fit\<close> never throws; a reported start is the earliest from which the
  required duration is free of every reservation and ends within the horizon, and no report means
  that no such window exists.  The answer is the same for every order \<open>std::sort\<close> may choose for
  reservations with equal starts.
\<close>

theorem temporal_continuous_fit_earliest:
  assumes "reservations_within rs horizon_end" and "horizon_start \<le> horizon_end" and "0 < required"
  shows "\<exists>res. temporal_continuous_fit rs horizon_start horizon_end required = Inr res \<and>
    first_window rs (unat horizon_end) (unat required) (unat horizon_start) res \<and>
    (\<forall>rs'. mset rs' = mset rs \<longrightarrow> sorted (map rv_start rs') \<longrightarrow>
       temporal_scan rs' horizon_end required horizon_start = Inr res)"
proof -
  have scan: "\<exists>res. temporal_scan rs' horizon_end required horizon_start = Inr res \<and>
      first_window rs (unat horizon_end) (unat required) (unat horizon_start) res"
    if "mset rs' = mset rs" "sorted (map rv_start rs')" for rs'
  proof -
    have set: "set rs' = set rs" using that(1) by (rule mset_eq_setD)
    then have "reservations_within rs' horizon_end" using assms(1) by (simp add: reservations_within_def)
    from temporal_scan_first_window [OF that(2) this assms(2,3)] show ?thesis
      by (simp add: first_window_set [OF set])
  qed
  obtain res where res: "temporal_scan (sort_key rv_start rs) horizon_end required horizon_start = Inr res"
    "first_window rs (unat horizon_end) (unat required) (unat horizon_start) res"
    using scan [of "sort_key rv_start rs"] by auto
  moreover have "temporal_scan rs' horizon_end required horizon_start = Inr res"
    if "mset rs' = mset rs" "sorted (map rv_start rs')" for rs'
    using scan [OF that] first_window_unique [OF res(2)] by blast
  ultimately show ?thesis using assms(3) by (auto simp: temporal_continuous_fit_def)
qed

theorem temporal_continuous_fit_earliest_witness:
  "\<exists>res. temporal_continuous_fit [sample_reservation 2 30 40, sample_reservation 1 5 20] 0 100 10 = Inr res \<and>
     first_window [sample_reservation 2 30 40, sample_reservation 1 5 20] 100 10 0 res"
proof -
  have "reservations_within [sample_reservation 2 30 40, sample_reservation 1 5 20] 100"
    by (simp add: reservations_within_def sample_reservation_def)
  from temporal_continuous_fit_earliest [OF this, of 0 10] show ?thesis by auto
qed

text \<open>
  Outside that precondition the search is not confined to the horizon.  A reservation that
  starts after the horizon makes it report a window that ends beyond the horizon, and a
  reservation that ends after the horizon makes the final subtraction throw.
\<close>

theorem temporal_continuous_fit_horizon_gap:
  "temporal_continuous_fit [sample_reservation 1 50 60] 0 20 30 = Inr (Some 0) \<and>
   temporal_continuous_fit [sample_reservation 1 0 60] 0 20 30 = Inl (ValueError ''Duration subtract underflow'')"
  by code_simp

end
