(* ===== verification/Verification.thy ===== *)
theory Verification
  imports Fit_Correct
begin

text \<open>
  \<open>src/verification/verification.cpp\<close>: the mandatory check after a remediation.  The lemmas show
  that on well-formed snapshots the outcome is the declarative \<open>verification_spec\<close>.
\<close>

section \<open>Definitions\<close>

text \<open>Line 10 tests the checked sum, line 11 the plain 64-bit sum.\<close>

fun accounting_closed :: "DeviceState list \<Rightarrow> bool res" where
  "accounting_closed [] = Inr True"
| "accounting_closed (d # ds) =
    chain (used_capacity (dev_layout d)) (\<lambda>used.
    chain (Bytes_add used (free_capacity (dev_layout d))) (\<lambda>s.
    if s \<noteq> total_capacity (dev_layout d) then Inr False
    else if used + free_capacity (dev_layout d) \<noteq> total_capacity (dev_layout d) then Inr False
    else accounting_closed ds))"

definition snapshot_free :: "FragmentationSnapshot \<Rightarrow> Bytes res" where
  "snapshot_free s = Bytes_sum (map (\<lambda>d. free_capacity (dev_layout d)) (snap_devices s)) 0"

definition snapshot_largest :: "FragmentationSnapshot \<Rightarrow> Bytes" where
  "snapshot_largest s =
    fold (\<lambda>d best. if largest_free_block (dev_layout d) > best then largest_free_block (dev_layout d) else best)
      (snap_devices s) 0"

definition must_survive :: "Allocation \<Rightarrow> bool" where
  "must_survive a \<longleftrightarrow> al_reservation a \<noteq> None \<or> al_policy_protected a \<or>
     al_movability a = MV_IMMOVABLE \<or> al_movability a = MV_RESERVATION_PROTECTED \<or>
     al_movability a = MV_POLICY_PROTECTED"

definition allocation_present :: "FragmentationSnapshot \<Rightarrow> AllocationId \<Rightarrow> bool" where
  "allocation_present s i \<longleftrightarrow> (\<exists>d \<in> set (snap_devices s). find_allocation (dev_layout d) i \<noteq> None)"

definition protected_intact :: "FragmentationSnapshot \<Rightarrow> FragmentationSnapshot \<Rightarrow> bool" where
  "protected_intact before after \<longleftrightarrow>
     (\<forall>d \<in> set (snap_devices before). \<forall>e \<in> set (lay_allocations (dev_layout d)).
        must_survive (snd e) \<longrightarrow> allocation_present after (fst e))"

definition stale_removed :: "FragmentationSnapshot \<Rightarrow> RemediationPlan \<Rightarrow> bool" where
  "stale_removed after plan \<longleftrightarrow>
     (\<forall>act \<in> set (plan_actions plan).
        case act_source_allocation act of None \<Rightarrow> True | Some i \<Rightarrow> \<not> allocation_present after i)"

definition verify_remediation ::
  "FragmentationSnapshot \<Rightarrow> FragmentationSnapshot \<Rightarrow> WorkloadDemand \<Rightarrow> RemediationPlan \<Rightarrow>
   VerificationResult res" where
  "verify_remediation before after demand plan =
    chain (snapshot_free before) (\<lambda>before_free.
    chain (snapshot_free after) (\<lambda>after_free.
    let before_largest = snapshot_largest before;
        after_largest = snapshot_largest after in
    chain (if before_free > before_largest then Bytes_sub before_free before_largest else Inr 0) (\<lambda>before_stranded.
    chain (if after_free > after_largest then Bytes_sub after_free after_largest else Inr 0) (\<lambda>after_stranded.
    chain (analyze_fit before demand) (\<lambda>before_result.
    chain (analyze_fit after demand) (\<lambda>after_result.
    chain (accounting_closed (snap_devices before)) (\<lambda>before_closed.
    chain (if before_closed then accounting_closed (snap_devices after) else Inr False) (\<lambda>closed.
    let r = default_verification\<lparr>vr_before_largest := before_largest, vr_after_largest := after_largest,
          vr_before_stranded := before_stranded, vr_after_stranded := after_stranded,
          vr_before_fit := (fr_outcome before_result = FO_FIT_NOW),
          vr_after_fit := (fr_outcome after_result = FO_FIT_NOW),
          vr_exact_accounting_closed := closed,
          vr_current_generations := (generations_complete (snap_generations after) \<and>
            snap_epoch after = snap_epoch before \<and>
            snap_policy_generation after = snap_policy_generation before),
          vr_no_protected_violation := protected_intact before after,
          vr_failed_stale_removed := stale_removed after plan\<rparr>
    in Inr (if \<not> vr_exact_accounting_closed r \<or> \<not> vr_current_generations r \<or> \<not> vr_no_protected_violation r
            then r\<lparr>vr_outcome := VO_VERIFICATION_FAILED,
                   vr_diagnostics :=
                     (if \<not> vr_exact_accounting_closed r then [''accounting not closed''] else []) @
                     (if \<not> vr_current_generations r then [''generations not current''] else []) @
                     (if \<not> vr_no_protected_violation r then [''protected violation''] else [])\<rparr>
            else if vr_after_fit r \<and> \<not> vr_before_fit r then r\<lparr>vr_outcome := VO_TARGET_FIT_ACHIEVED\<rparr>
            else if vr_after_fit r \<and> vr_before_fit r then r\<lparr>vr_outcome := VO_IMPROVED\<rparr>
            else if vr_after_stranded r < vr_before_stranded r then r\<lparr>vr_outcome := VO_PARTIAL_IMPROVEMENT\<rparr>
            else if vr_after_stranded r = vr_before_stranded r \<and> vr_after_largest r = vr_before_largest r
            then r\<lparr>vr_outcome := VO_NO_CHANGE\<rparr>
            else if vr_after_stranded r > vr_before_stranded r then r\<lparr>vr_outcome := VO_REGRESSION\<rparr>
            else r)))))))))"

section \<open>Well-formed snapshots\<close>

lemma accounting_closed_ok:
  "\<forall>d \<in> set ds. layout_inv (dev_layout d) \<Longrightarrow> accounting_closed ds = Inr True"
proof (induction ds)
  case (Cons d ds)
  let ?l = "dev_layout d"
  have inv: "layout_inv ?l" using Cons.prems by simp
  have eq: "lay_capacity ?l - lay_free_capacity ?l + lay_free_capacity ?l = lay_capacity ?l" by simp
  have "unat (lay_capacity ?l - lay_free_capacity ?l) + unat (lay_free_capacity ?l) < 2 ^ 64"
    using free_capacity_le [OF inv] unat_u64_less [of "lay_capacity ?l"] by (simp add: unat_sub word_le_nat_alt)
  then show ?case
    using Cons used_capacity_ok [OF inv] eq by (simp add: free_capacity_def total_capacity_def Bytes_add_ok)
qed simp

lemma fold_max: "fold (\<lambda>d best. if f d > best then f d else best) ds (b :: 'b :: linorder) = Max (insert b (f ` set ds))"
proof (induction ds arbitrary: b)
  case (Cons d ds)
  have "fold (\<lambda>d best. if f d > best then f d else best) (d # ds) b = Max (insert (max b (f d)) (f ` set ds))"
    by (simp add: Cons.IH max_def)
  also have "\<dots> = Max (insert b (f ` set (d # ds)))"
    by (cases "ds = []") (auto simp: max.assoc insert_commute)
  finally show ?case .
qed simp

definition stranded_bytes :: "FragmentationSnapshot \<Rightarrow> nat" where
  "stranded_bytes s = sum_list (map (\<lambda>d. card (free_bytes (dev_layout d))) (snap_devices s)) -
     unat (snapshot_largest s)"

lemma snapshot_stranded_ok:
  assumes ok: "devices_ok s"
  obtains f t where "snapshot_free s = Inr f"
    "(if f > snapshot_largest s then Bytes_sub f (snapshot_largest s) else Inr 0) = Inr t"
    "unat t = stranded_bytes s"
proof -
  let ?ls = "map dev_layout (snap_devices s)"
  have inv: "\<forall>d \<in> set (snap_devices s). layout_inv (dev_layout d)" using ok by (simp add: devices_ok_def)
  have eq: "sum_list (map (\<lambda>d. unat (free_capacity (dev_layout d))) (snap_devices s)) =
      sum_list (map (\<lambda>d. card (free_bytes (dev_layout d))) (snap_devices s))"
    using inv free_capacity_card by (intro arg_cong [where f = sum_list] map_cong) auto
  have "sum_list (map (\<lambda>d. unat (free_capacity (dev_layout d))) (snap_devices s)) \<le>
      sum_list (map (\<lambda>d. unat (lay_capacity (dev_layout d))) (snap_devices s))"
    using inv free_capacity_bound by (intro sum_list_mono) auto
  then have lt: "sum_list (map (\<lambda>d. unat (free_capacity (dev_layout d))) (snap_devices s)) < 2 ^ 64"
    using ok by (simp add: devices_ok_def)
  define f :: Bytes where "f = of_nat (sum_list (map (\<lambda>d. unat (free_capacity (dev_layout d))) (snap_devices s)))"
  have f: "unat f = sum_list (map (\<lambda>d. card (free_bytes (dev_layout d))) (snap_devices s))"
    using lt eq by (simp add: f_def unat_of_nat_small)
  have sum: "snapshot_free s = Inr f"
    using lt eq f by (simp add: snapshot_free_def Bytes_sum_iff comp_def)
  show thesis
  proof (cases "f > snapshot_largest s")
    case True
    then show thesis
      using sum f by (intro that [of f "f - snapshot_largest s"])
        (simp_all add: Bytes_sub_ok stranded_bytes_def unat_sub)
  next
    case False
    then show thesis
      using sum f by (intro that [of f 0]) (simp_all add: stranded_bytes_def word_less_nat_alt)
  qed
qed

definition evidence_current :: "FragmentationSnapshot \<Rightarrow> FragmentationSnapshot \<Rightarrow> bool" where
  "evidence_current before after \<longleftrightarrow> generations_complete (snap_generations after) \<and>
     snap_epoch after = snap_epoch before \<and> snap_policy_generation after = snap_policy_generation before"

definition verification_spec ::
  "FragmentationSnapshot \<Rightarrow> FragmentationSnapshot \<Rightarrow> WorkloadDemand \<Rightarrow> VerificationOutcome" where
  "verification_spec before after d =
    (if \<not> evidence_current before after \<or> \<not> protected_intact before after then VO_VERIFICATION_FAILED
     else if fit_spec after d = FO_FIT_NOW
     then if fit_spec before d = FO_FIT_NOW then VO_IMPROVED else VO_TARGET_FIT_ACHIEVED
     else if stranded_bytes after < stranded_bytes before then VO_PARTIAL_IMPROVEMENT
     else if stranded_bytes before < stranded_bytes after then VO_REGRESSION
     else if snapshot_largest after = snapshot_largest before then VO_NO_CHANGE
     else VO_REVALIDATION_REQUIRED)"

lemma verify_remediation_spec:
  assumes before: "snapshot_ok before" and after: "snapshot_ok after"
  shows "\<exists>r. verify_remediation before after d plan = Inr r \<and> vr_outcome r = verification_spec before after d \<and>
    vr_exact_accounting_closed r \<and> vr_failed_stale_removed r = stale_removed after plan"
proof -
  have dev: "devices_ok before" "devices_ok after" using assms by (simp_all add: snapshot_ok_def)
  obtain bf bt where b: "snapshot_free before = Inr bf"
    "(if bf > snapshot_largest before then Bytes_sub bf (snapshot_largest before) else Inr 0) = Inr bt"
    "unat bt = stranded_bytes before" by (rule snapshot_stranded_ok [OF dev(1)])
  obtain af ast where a: "snapshot_free after = Inr af"
    "(if af > snapshot_largest after then Bytes_sub af (snapshot_largest after) else Inr 0) = Inr ast"
    "unat ast = stranded_bytes after" by (rule snapshot_stranded_ok [OF dev(2)])
  obtain br ar where r: "analyze_fit before d = Inr br" "fr_outcome br = fit_spec before d"
    "analyze_fit after d = Inr ar" "fr_outcome ar = fit_spec after d"
    using analyze_fit_spec [OF before] analyze_fit_spec [OF after] by metis
  have closed: "accounting_closed (snap_devices before) = Inr True" "accounting_closed (snap_devices after) = Inr True"
    using dev by (auto intro: accounting_closed_ok simp: devices_ok_def)
  have less: "ast < bt \<longleftrightarrow> stranded_bytes after < stranded_bytes before" "bt < ast \<longleftrightarrow> stranded_bytes before < stranded_bytes after"
    "ast = bt \<longleftrightarrow> stranded_bytes after = stranded_bytes before"
    using a(3) b(3) by (simp_all add: word_less_nat_alt word_unat_eq_iff)
  have current: "(generations_complete (snap_generations after) \<and> snap_epoch after = snap_epoch before \<and>
      snap_policy_generation after = snap_policy_generation before) = evidence_current before after"
    by (simp add: evidence_current_def)
  show ?thesis
    unfolding verify_remediation_def a(1) b(1) chain_simps Let_def a(2) b(2) r(1,3) closed if_True current
    by (simp add: default_verification_def r(2,4) less verification_spec_def)
qed

section \<open>Properties\<close>



text \<open>
  Verification accepts inaction.  When the demand fits a current, well-formed snapshot,
  verifying that snapshot against itself reports \<open>IMPROVED\<close>, for every plan, although nothing
  changed and every allocation the plan was to release may still be there: \<open>failed_stale_removed\<close>
  is recorded but does not enter the outcome.
\<close>

theorem verify_unchanged_improved:
  assumes ok: "snapshot_ok s" and fits: "fit_spec s d = FO_FIT_NOW"
  shows "\<exists>r. verify_remediation s s d plan = Inr r \<and> vr_outcome r = VO_IMPROVED \<and>
    vr_failed_stale_removed r = stale_removed s plan"
proof -
  have "generations_complete (snap_generations s)" using fits by (auto simp: fit_spec_def split: if_splits)
  moreover have "\<forall>d \<in> set (snap_devices s). om_inv (lay_allocations (dev_layout d))"
    using ok layout_inv_allocations by (auto simp: snapshot_ok_def devices_ok_def)
  then have "protected_intact s s"
    by (fastforce simp: protected_intact_def allocation_present_def find_allocation_def om_find_None image_iff)
  ultimately have "verification_spec s s d = VO_IMPROVED"
    using fits by (simp add: verification_spec_def evidence_current_def)
  then show ?thesis using verify_remediation_spec [OF ok ok, of d plan] by auto
qed

theorem verify_unchanged_improved_witness:
  "\<exists>r. verify_remediation sample_snapshot sample_snapshot (default_demand\<lparr>dem_accelerator_count := 1\<rparr>)
       (default_plan\<lparr>plan_actions := [default_action\<lparr>act_source_allocation := Some (TypedId 1)\<rparr>]\<rparr>) = Inr r \<and>
     vr_outcome r = VO_IMPROVED \<and> \<not> vr_failed_stale_removed r"
proof -
  let ?plan = "default_plan\<lparr>plan_actions := [default_action\<lparr>act_source_allocation := Some (TypedId 1)\<rparr>]\<rparr>"
  have "map_sum id fr_outcome (analyze_fit sample_snapshot (default_demand\<lparr>dem_accelerator_count := 1\<rparr>)) = Inr FO_FIT_NOW" by code_simp
  then have "fit_spec sample_snapshot (default_demand\<lparr>dem_accelerator_count := 1\<rparr>) = FO_FIT_NOW"
    using analyze_fit_spec [OF sample_snapshot_ok, of "default_demand\<lparr>dem_accelerator_count := 1\<rparr>"] by auto
  moreover have "\<not> stale_removed sample_snapshot ?plan"
    using sample_layout_find by (simp add: stale_removed_def allocation_present_def sample_snapshot_def)
  ultimately show ?thesis
    using verify_unchanged_improved [OF sample_snapshot_ok, of "default_demand\<lparr>dem_accelerator_count := 1\<rparr>" ?plan] by auto
qed

end
