(* ===== verification/Coordinator.thy ===== *)
theory Coordinator
  imports Codec Protocol Planner Verification
begin

text \<open>
  \<open>coordinator/coordinator.hpp\<close> and \<open>coordinator/coordinator.cpp\<close>: the coordinator as a state record and
  one definition per message handler.  A handler returns the replies and the new state, or \<open>Inl\<close> when
  an exception escapes from it; nothing above \<open>handle\<close> catches one, so the state at that point is not
  part of the model.  The system clock and the host of \<open>save_state\<close> are the record \<open>env\<close>.
\<close>

section \<open>State\<close>

record WorkerResourceRecord =
  wr_resource :: Resource
  wr_layout :: ResourceLayout
  wr_worker :: WorkerId
  wr_boot :: WorkerBootId
  wr_alive :: bool
  wr_provenance :: Provenance

record Coordinator =
  co_epoch :: CoordinatorEpoch
  co_policy_generation :: PolicyGeneration
  co_resources :: "(ResourceId, WorkerResourceRecord) omap"
  co_plans :: "(FragmentationPlanId, RemediationPlan) omap"
  co_worker_boot :: "(WorkerId, WorkerBootId) omap"
  co_worker_alive :: "(WorkerId, bool) omap"
  co_persisted :: PersistedState
  co_next_plan_id :: u64
  co_snapshot_generation :: FragmentationSnapshotGeneration
  co_generations :: KnownResourceGenerations
  co_before_snapshots :: "(FragmentationPlanId, FragmentationSnapshot) omap"
  co_last_demand :: WorkloadDemand

record env =
  env_now :: i64
  env_host :: host

definition mk_Coordinator :: "CoordinatorEpoch \<Rightarrow> Coordinator" where
  "mk_Coordinator epoch = \<lparr>co_epoch = epoch, co_policy_generation = Generation 1, co_resources = [],
     co_plans = [], co_worker_boot = [], co_worker_alive = [], co_persisted = default_persisted_state,
     co_next_plan_id = 1, co_snapshot_generation = Generation 1,
     co_generations = \<lparr>kg_resource = Generation 1, kg_allocation = Generation 1,
       kg_reservation = Generation 1, kg_topology = Generation 1, kg_capacity = Generation 1,
       kg_capability = Generation 1, kg_placement = Generation 1, kg_health = Generation 1,
       kg_policy = Generation 1\<rparr>,
     co_before_snapshots = [], co_last_demand = default_demand\<rparr>"

section \<open>Helpers\<close>

definition fail :: "string \<Rightarrow> Message" where
  "fail why = default_message\<lparr>msg_type := MT_ERROR, msg_ok := False, msg_error := why\<rparr>"

text \<open>\<open>Message a; a.type = MsgType::ERROR; a.ok = true;\<close>\<close>

definition acknowledge :: Message where
  "acknowledge = default_message\<lparr>msg_type := MT_ERROR, msg_ok := True\<rparr>"

definition advance_resource_generation :: "Coordinator \<Rightarrow> Coordinator" where
  "advance_resource_generation c =
    (let g = co_generations c
     in c\<lparr>co_generations := g\<lparr>kg_resource := gen_next (kg_resource g),
            kg_allocation := gen_next (kg_allocation g)\<rparr>\<rparr>)"

definition advance_policy_generation :: "Coordinator \<Rightarrow> Coordinator" where
  "advance_policy_generation c = c\<lparr>co_policy_generation := gen_next (co_policy_generation c)\<rparr>"

text \<open>The loop of a range-based \<open>for\<close> that updates the values of a map in place.\<close>

definition om_update_all :: "('v \<Rightarrow> 'v) \<Rightarrow> ('k, 'v) omap \<Rightarrow> ('k, 'v) omap" where
  "om_update_all f m = map (\<lambda>e. (fst e, f (snd e))) m"

definition targets_worker :: "(ResourceId, WorkerResourceRecord) omap \<Rightarrow> WorkerId \<Rightarrow> RemediationPlan \<Rightarrow> bool" where
  "targets_worker resources worker p \<longleftrightarrow>
     (\<exists>act \<in> set (plan_actions p).
        case om_find resources (act_target_resource act) of None \<Rightarrow> False | Some rec \<Rightarrow> wr_worker rec = worker)"

definition mark_worker_dead :: "WorkerId \<Rightarrow> Coordinator \<Rightarrow> Coordinator" where
  "mark_worker_dead worker c =
    (let c = (if om_find (co_worker_alive c) worker \<noteq> None
              then c\<lparr>co_worker_alive := om_put worker False (co_worker_alive c)\<rparr> else c);
         c = c\<lparr>co_resources := om_update_all (\<lambda>rec. if wr_worker rec = worker then rec\<lparr>wr_alive := False\<rparr> else rec)
                 (co_resources c)\<rparr>
     in c\<lparr>co_plans := om_update_all (\<lambda>p. if targets_worker (co_resources c) worker p
              then p\<lparr>plan_state := PS_REVALIDATION_REQUIRED,
                     plan_precondition_failures := plan_precondition_failures p @ [''evidence source died'']\<rparr>
              else p) (co_plans c)\<rparr>)"

definition can_execute :: "Coordinator \<Rightarrow> RemediationPlan \<Rightarrow> Message \<Rightarrow> bool" where
  "can_execute c p m =
    (if gen_value (plan_generation p) \<noteq> msg_plan_gen m then False
     else if plan_policy_generation p \<noteq> co_policy_generation c then False
     else if plan_epoch p \<noteq> co_epoch c then False
     else plan_state p \<notin> {PS_SUPERSEDED, PS_CANCELLED, PS_ABORTED, PS_RETIRED, PS_REVALIDATION_REQUIRED, PS_BLOCKED})"

definition alive_records :: "Coordinator \<Rightarrow> WorkerResourceRecord list" where
  "alive_records c = filter wr_alive (map snd (co_resources c))"

definition assemble_snapshot :: "env \<Rightarrow> Coordinator \<Rightarrow> FragmentationSnapshot" where
  "assemble_snapshot e c = default_snapshot\<lparr>
     snap_id := TypedId 1, snap_generation := co_snapshot_generation c, snap_domain_id := TypedId 1,
     snap_domain_generation := Generation 1, snap_pool := TypedId 1, snap_pool_generation := Generation 1,
     snap_domain := D_COMPOSITE_RESOURCE, snap_generations := co_generations c,
     snap_source_worker := Generation 1, snap_epoch := co_epoch c,
     snap_policy_generation := co_policy_generation c,
     snap_capacity_generation := kg_capacity (co_generations c),
     snap_topology_generation := kg_topology (co_generations c), snap_evidence_time := env_now e,
     snap_provenance := (if \<exists>rec \<in> set (alive_records c). wr_provenance rec = PV_SYNTHETIC
                         then PV_SYNTHETIC else PV_MEASURED),
     snap_devices := map (\<lambda>rec. \<lparr>dev_resource = wr_resource rec, dev_layout = wr_layout rec\<rparr>) (alive_records c)\<rparr>"

section \<open>Recovery\<close>

definition recover_plan :: "PersistedPlan \<Rightarrow> RemediationPlan res" where
  "recover_plan pp =
    chain (mk_HealthyScore (pp_benefit pp)) (\<lambda>benefit.
    chain (mk_HealthyScore (pp_cost pp)) (\<lambda>cost.
    chain (mk_HealthyScore (pp_risk pp)) (\<lambda>risk.
    chain (mk_HealthyScore (pp_disruption pp)) (\<lambda>disruption.
    let p = default_plan\<lparr>plan_id := pp_id pp, plan_generation := pp_generation pp,
              plan_domain_id := pp_domain pp, plan_policy_generation := pp_policy_generation pp,
              plan_epoch := pp_epoch pp, plan_based_on_snapshot := pp_based_on_snapshot pp,
              plan_expected_capacity_recovered := pp_expected_capacity_recovered pp,
              plan_benefit := benefit, plan_cost := cost, plan_risk := risk, plan_disruption := disruption,
              plan_state := pp_state pp, plan_verification := pp_verification pp,
              plan_actions := map (\<lambda>k. default_action\<lparr>act_kind := k\<rparr>) (pp_action_kinds pp)\<rparr>
    in Inr (if depends_on_live_state (plan_state p)
            then p\<lparr>plan_state := PS_REVALIDATION_REQUIRED,
                   plan_precondition_failures := plan_precondition_failures p @
                     [''dynamic evidence not authoritative after restart'']\<rparr>
            else p)))))"

definition recover :: "PersistedState \<Rightarrow> Coordinator \<Rightarrow> Coordinator res" where
  "recover st c =
    (let c = c\<lparr>co_persisted := st,
           co_generations := (co_generations c)\<lparr>kg_resource := ps_resource_generation st,
             kg_allocation := ps_allocation_generation st, kg_reservation := ps_reservation_generation st,
             kg_policy := ps_policy_generation st\<rparr>,
           co_policy_generation := ps_policy_generation st, co_next_plan_id := ps_next_plan_id st\<rparr>
     in chain (fold_res (\<lambda>pp plans. chain (recover_plan pp) (\<lambda>p. Inr (om_put (plan_id p) p plans)))
          (ps_plans st) (co_plans c)) (\<lambda>plans.
        Inr (c\<lparr>co_plans := plans, co_resources := [], co_worker_alive := [], co_worker_boot := []\<rparr>)))"

section \<open>Message handlers\<close>

type_synonym reply = "(Message list \<times> Coordinator) res"

definition refuse :: "string \<Rightarrow> Coordinator \<Rightarrow> reply" where
  "refuse why c = Inr ([fail why], c)"

definition accept :: "Coordinator \<Rightarrow> reply" where
  "accept c = Inr ([acknowledge], c)"

definition handle_register :: "Message \<Rightarrow> Coordinator \<Rightarrow> reply" where
  "handle_register m c =
    (if msg_worker_boot m = 0 then refuse ''REGISTER requires fresh WorkerBootId'' c
     else
       let w = TypedId (msg_worker_id m);
           c = (case om_find (co_worker_boot c) w of
                  None \<Rightarrow> c
                | Some b \<Rightarrow> if gen_value b \<noteq> msg_worker_boot m then mark_worker_dead w c else c)
       in accept (c\<lparr>co_worker_boot := om_put w (Generation (msg_worker_boot m)) (co_worker_boot c),
                    co_worker_alive := om_put w True (co_worker_alive c)\<rparr>))"

text \<open>
  The two checks every evidence message starts with: the objection, and the state after
  \<open>worker_boot_[...]\<close>, which inserts a missing key.
\<close>

definition check_worker :: "Message \<Rightarrow> Coordinator \<Rightarrow> string option \<times> Coordinator" where
  "check_worker m c =
    (let w = TypedId (msg_worker_id m) in
     case om_find (co_worker_alive c) w of
       None \<Rightarrow> (Some ''unregistered/dead worker'', c)
     | Some alive \<Rightarrow>
       if \<not> alive then (Some ''unregistered/dead worker'', c)
       else case om_index (Generation 0) w (co_worker_boot c) of (b, boots) \<Rightarrow>
         let c = c\<lparr>co_worker_boot := boots\<rparr> in
         if gen_value b \<noteq> msg_worker_boot m then (Some ''stale WorkerBootId'', c) else (None, c))"

definition handle_publish_resource :: "Message \<Rightarrow> Coordinator \<Rightarrow> reply" where
  "handle_publish_resource m c =
    (case check_worker m c of
       (Some why, c) \<Rightarrow> refuse why c
     | (None, c) \<Rightarrow>
       let res = (msg_resource m)\<lparr>res_device := (if id_is_null (res_device (msg_resource m))
                    then TypedId (msg_worker_id m) else res_device (msg_resource m))\<rparr>;
           stale = (case om_find (co_resources c) (res_id res) of
                      None \<Rightarrow> False
                    | Some rec \<Rightarrow> gen_value (res_generation (wr_resource rec)) \<ge> gen_value (res_generation res))
       in if stale then refuse ''stale ResourceGeneration'' c
          else accept (advance_resource_generation (c\<lparr>co_resources := om_put (res_id res)
                 \<lparr>wr_resource = res, wr_layout = mk_layout (res_capacity res),
                  wr_worker = TypedId (msg_worker_id m), wr_boot = Generation (msg_worker_boot m),
                  wr_alive = True, wr_provenance = res_provenance res\<rparr> (co_resources c)\<rparr>)))"

fun insert_all :: "Allocation list \<Rightarrow> ResourceLayout \<Rightarrow> (string option \<times> ResourceLayout) res" where
  "insert_all [] l = Inr (None, l)"
| "insert_all (a # as) l =
    chain (insert_allocation l a) (\<lambda>(err, l').
      case err of None \<Rightarrow> insert_all as l' | Some e \<Rightarrow> Inr (Some e, l'))"

definition handle_publish_layout :: "Message \<Rightarrow> Coordinator \<Rightarrow> reply" where
  "handle_publish_layout m c =
    (case check_worker m c of
       (Some why, c) \<Rightarrow> refuse why c
     | (None, c) \<Rightarrow>
       let rid = res_id (msg_resource m) in
       case om_find (co_resources c) rid of
         None \<Rightarrow> refuse ''unknown resource'' c
       | Some rec \<Rightarrow>
         if wr_worker rec \<noteq> TypedId (msg_worker_id m) then refuse ''cross-worker resource claim'' c
         else if msg_resource_gen m < gen_value (res_generation (wr_resource rec))
         then refuse ''stale ResourceGeneration'' c
         else chain (insert_all (msg_allocations m) (mk_layout (res_capacity (wr_resource rec)))) (\<lambda>(err, l).
           case err of
             Some e \<Rightarrow> refuse (''layout insert rejected: '' @ e) c
           | None \<Rightarrow> accept (advance_resource_generation
                (c\<lparr>co_resources := om_put rid (rec\<lparr>wr_layout := l\<rparr>) (co_resources c)\<rparr>))))"

definition handle_publish_allocation :: "Message \<Rightarrow> Coordinator \<Rightarrow> reply" where
  "handle_publish_allocation m c =
    (case check_worker m c of
       (Some why, c) \<Rightarrow> refuse why c
     | (None, c) \<Rightarrow>
       let rid = res_id (msg_resource m) in
       case om_find (co_resources c) rid of
         None \<Rightarrow> refuse ''unknown resource'' c
       | Some rec \<Rightarrow>
         chain (insert_allocation (wr_layout rec) (msg_allocation m)) (\<lambda>(err, l).
           let c = c\<lparr>co_resources := om_put rid (rec\<lparr>wr_layout := l\<rparr>) (co_resources c)\<rparr> in
           case err of
             Some e \<Rightarrow> refuse (''allocation rejected: '' @ e) c
           | None \<Rightarrow> accept (advance_resource_generation c)))"

text \<open>The search of \<open>INVALIDATE_ALLOCATION\<close> through the resources of the worker, in key order.\<close>

fun invalidate_first :: "WorkerId \<Rightarrow> AllocationId \<Rightarrow> (ResourceId, WorkerResourceRecord) omap \<Rightarrow>
    (bool \<times> (ResourceId, WorkerResourceRecord) omap) res" where
  "invalidate_first w i [] = Inr (False, [])"
| "invalidate_first w i ((rid, rec) # rest) =
    (if wr_worker rec \<noteq> w
     then chain (invalidate_first w i rest) (\<lambda>(removed, rest'). Inr (removed, (rid, rec) # rest'))
     else chain (remove_allocation (wr_layout rec) i) (\<lambda>(err, l).
       let rec' = rec\<lparr>wr_layout := l\<rparr> in
       if err = None then Inr (True, (rid, rec') # rest)
       else chain (invalidate_first w i rest) (\<lambda>(removed, rest'). Inr (removed, (rid, rec') # rest'))))"

definition handle_invalidate_allocation :: "Message \<Rightarrow> Coordinator \<Rightarrow> reply" where
  "handle_invalidate_allocation m c =
    (case check_worker m c of
       (Some why, c) \<Rightarrow> refuse why c
     | (None, c) \<Rightarrow>
       chain (invalidate_first (TypedId (msg_worker_id m)) (TypedId (msg_allocation_id m)) (co_resources c))
         (\<lambda>(removed, resources).
           let c = c\<lparr>co_resources := resources\<rparr> in
           if \<not> removed then refuse ''allocation not found'' c
           else accept (advance_resource_generation c)))"

definition device_detail :: "nat \<Rightarrow> FragmentationMetrics \<Rightarrow> string" where
  "device_detail i met =
    ''device['' @ decimal i @ ''] free='' @ decimal (unat (met_free_capacity met)) @
    '' largest='' @ decimal (unat (met_largest_free_block met)) @
    '' stranded='' @ decimal (unat (met_stranded_capacity met)) @ ''; ''"

definition handle_query_fragmentation :: "env \<Rightarrow> Coordinator \<Rightarrow> reply" where
  "handle_query_fragmentation e c =
    chain (map_res (\<lambda>d. compute_metrics (dev_layout d) None) (snap_devices (assemble_snapshot e c))) (\<lambda>mets.
      Inr ([default_message\<lparr>msg_type := MT_QUERY_FRAGMENTATION, msg_ok := True,
              msg_detail := concat (map (\<lambda>(i, met). device_detail i met) (enumerate 0 mets))\<rparr>], c))"

definition first_string :: "string list \<Rightarrow> string" where
  "first_string ss = (case ss of [] \<Rightarrow> '''' | s # _ \<Rightarrow> s)"

definition handle_query_fit :: "env \<Rightarrow> Message \<Rightarrow> Coordinator \<Rightarrow> reply" where
  "handle_query_fit e m c =
    chain (analyze_fit (assemble_snapshot e c) (msg_demand m)) (\<lambda>r.
      Inr ([default_message\<lparr>msg_type := MT_QUERY_FIT, msg_ok := True, msg_fit_outcome := fr_outcome r,
              msg_detail := first_string (fr_block_diagnostics r)\<rparr>], c))"

definition handle_create_plan :: "env \<Rightarrow> Message \<Rightarrow> Coordinator \<Rightarrow> reply" where
  "handle_create_plan e m c =
    (let s = assemble_snapshot e c;
         c = c\<lparr>co_last_demand := msg_demand m\<rparr>;
         policy = default_policy\<lparr>pol_generation := co_policy_generation c\<rparr>
     in chain (plan_remediation s (msg_demand m) policy default_weights (TypedId (co_next_plan_id c))
                 (Generation (co_next_plan_id c))) (\<lambda>plan.
        case plan of
          None \<Rightarrow> Inr ([default_message\<lparr>msg_type := MT_ERROR, msg_ok := False,
                          msg_detail := ''no beneficial action''\<rparr>], c)
        | Some p \<Rightarrow>
            let p = p\<lparr>plan_state := PS_PLAN_READY\<rparr>;
                c = c\<lparr>co_plans := om_put (plan_id p) p (co_plans c),
                      co_before_snapshots := om_put (plan_id p) s (co_before_snapshots c),
                      co_next_plan_id := id_value (plan_id p) + 1\<rparr>
            in Inr ([default_message\<lparr>msg_type := MT_PLAN_RESULT, msg_ok := True, msg_plan := p\<rparr>], c)))"

text \<open>Writing through the iterator of \<open>plans_.find\<close>.\<close>

definition set_plan :: "FragmentationPlanId \<Rightarrow> RemediationPlan \<Rightarrow> Coordinator \<Rightarrow> Coordinator" where
  "set_plan i p c = c\<lparr>co_plans := om_put i p (co_plans c)\<rparr>"

definition with_plan :: "Message \<Rightarrow> Coordinator \<Rightarrow> (FragmentationPlanId \<Rightarrow> RemediationPlan \<Rightarrow> reply) \<Rightarrow> reply" where
  "with_plan m c f =
    (case om_find (co_plans c) (TypedId (msg_plan_id m)) of
       None \<Rightarrow> refuse ''unknown plan'' c | Some p \<Rightarrow> f (TypedId (msg_plan_id m)) p)"

definition handle_approve_plan :: "Message \<Rightarrow> Coordinator \<Rightarrow> reply" where
  "handle_approve_plan m c = with_plan m c (\<lambda>i p.
    if plan_state p = PS_SUPERSEDED then refuse ''plan superseded'' c
    else if plan_policy_generation p \<noteq> co_policy_generation c then refuse ''stale PolicyGeneration'' c
    else accept (set_plan i (p\<lparr>plan_state := PS_APPROVED\<rparr>) c))"

definition handle_begin_action :: "Message \<Rightarrow> Coordinator \<Rightarrow> reply" where
  "handle_begin_action m c = with_plan m c (\<lambda>i p.
    if plan_state p \<noteq> PS_APPROVED then refuse ''plan not approved'' c
    else if \<not> can_execute c p m then refuse ''execution authority stale'' c
    else if unat (msg_action_index m) \<ge> length (plan_actions p) then refuse ''bad action index'' c
    else accept (set_plan i (p\<lparr>plan_state := PS_EXECUTING\<rparr>) c))"

text \<open>Lines 278 to 287: release the source allocation of the completed action.\<close>

definition release_source :: "PlanAction \<Rightarrow> Coordinator \<Rightarrow> Coordinator res" where
  "release_source act c =
    (case act_source_allocation act of
       None \<Rightarrow> Inr c
     | Some i \<Rightarrow>
       case om_find (co_resources c) (act_target_resource act) of
         None \<Rightarrow> Inr c
       | Some rec \<Rightarrow>
         chain (remove_allocation (wr_layout rec) i) (\<lambda>(_, l).
           Inr (advance_resource_generation
             (c\<lparr>co_resources := om_put (act_target_resource act) (rec\<lparr>wr_layout := l\<rparr>) (co_resources c)\<rparr>))))"

definition handle_action_complete :: "Message \<Rightarrow> Coordinator \<Rightarrow> reply" where
  "handle_action_complete m c = with_plan m c (\<lambda>i p.
    if plan_state p \<noteq> PS_EXECUTING then refuse ''plan not executing'' c
    else if unat (msg_action_index m) \<ge> length (plan_actions p) then refuse ''bad action index'' c
    else chain (if msg_action_ok m then release_source (plan_actions p ! unat (msg_action_index m)) c else Inr c)
      (\<lambda>c. accept (set_plan i (p\<lparr>plan_state := PS_VERIFYING\<rparr>) c)))"

fun state_after_verification :: "VerificationOutcome \<Rightarrow> PlanState" where
  "state_after_verification VO_TARGET_FIT_ACHIEVED = PS_COMPLETED"
| "state_after_verification VO_IMPROVED = PS_COMPLETED"
| "state_after_verification VO_PARTIAL_IMPROVEMENT = PS_COMPLETED"
| "state_after_verification VO_NO_CHANGE = PS_PARTIALLY_COMPLETED"
| "state_after_verification VO_REGRESSION = PS_FAILED"
| "state_after_verification VO_VERIFICATION_FAILED = PS_FAILED"
| "state_after_verification VO_REVALIDATION_REQUIRED = PS_REVALIDATION_REQUIRED"

definition handle_verify :: "env \<Rightarrow> Message \<Rightarrow> Coordinator \<Rightarrow> reply" where
  "handle_verify e m c = with_plan m c (\<lambda>i p.
    if plan_state p \<noteq> PS_VERIFYING then refuse ''plan not ready to verify'' c
    else case om_find (co_before_snapshots c) i of
           None \<Rightarrow> refuse ''no before snapshot'' c
         | Some before \<Rightarrow>
           chain (verify_remediation before (assemble_snapshot e c) (co_last_demand c) p) (\<lambda>v.
             Inr ([default_message\<lparr>msg_type := MT_VERIFY, msg_ok := True, msg_verification_outcome := vr_outcome v,
                     msg_detail := first_string (vr_diagnostics v)\<rparr>],
               set_plan i (p\<lparr>plan_verification := Some (vr_outcome v),
                             plan_state := state_after_verification (vr_outcome v)\<rparr>) c)))"

definition handle_cancel_plan :: "Message \<Rightarrow> Coordinator \<Rightarrow> reply" where
  "handle_cancel_plan m c = with_plan m c (\<lambda>i p. accept (set_plan i (p\<lparr>plan_state := PS_CANCELLED\<rparr>) c))"

definition handle_advance_generation :: "Message \<Rightarrow> Coordinator \<Rightarrow> reply" where
  "handle_advance_generation m c =
    (let g = co_generations c in
     if msg_generation_kind m = 0
     then accept (c\<lparr>co_generations := g\<lparr>kg_resource := gen_next (kg_resource g)\<rparr>\<rparr>)
     else if msg_generation_kind m = 1
     then accept (c\<lparr>co_generations := g\<lparr>kg_allocation := gen_next (kg_allocation g)\<rparr>\<rparr>)
     else if msg_generation_kind m = 2
     then accept (c\<lparr>co_generations := g\<lparr>kg_policy := gen_next (kg_policy g)\<rparr>,
                    co_policy_generation := gen_next (kg_policy g)\<rparr>)
     else refuse ''bad generation kind'' c)"

definition handle_revalidate :: "Message \<Rightarrow> Coordinator \<Rightarrow> reply" where
  "handle_revalidate m c = with_plan m c (\<lambda>i p. accept (set_plan i (p\<lparr>plan_state := PS_REVALIDATION_REQUIRED\<rparr>) c))"

section \<open>Saving\<close>

definition persist_plan :: "RemediationPlan \<Rightarrow> PersistedPlan" where
  "persist_plan p = \<lparr>pp_id = plan_id p, pp_generation = plan_generation p, pp_domain = plan_domain_id p,
     pp_state = plan_state p, pp_verification = plan_verification p,
     pp_policy_generation = plan_policy_generation p, pp_epoch = plan_epoch p,
     pp_based_on_snapshot = plan_based_on_snapshot p,
     pp_expected_capacity_recovered = plan_expected_capacity_recovered p,
     pp_benefit = plan_benefit p, pp_cost = plan_cost p, pp_risk = plan_risk p,
     pp_disruption = plan_disruption p, pp_action_count = of_nat (length (plan_actions p)),
     pp_action_kinds = map act_kind (plan_actions p)\<rparr>"

definition persist_reservations :: "ReservationGeneration \<Rightarrow> WorkerResourceRecord \<Rightarrow> Reservation list" where
  "persist_reservations g rec =
    List.map_filter (\<lambda>e. case al_reservation (snd e) of
        None \<Rightarrow> None
      | Some i \<Rightarrow> Some \<lparr>rv_id = i, rv_generation = g, rv_resource = res_id (wr_resource rec), rv_start = 0,
          rv_end = 1, rv_amount = al_length (snd e), rv_hard = True, rv_policy_protected = False,
          rv_provenance = PV_REPORTED\<rparr>) (lay_allocations (wr_layout rec))"

definition persist :: "Coordinator \<Rightarrow> PersistedState" where
  "persist c = default_persisted_state\<lparr>
     ps_resource_generation := kg_resource (co_generations c),
     ps_allocation_generation := kg_allocation (co_generations c),
     ps_reservation_generation := kg_reservation (co_generations c),
     ps_policy_generation := co_policy_generation c, ps_epoch := co_epoch c,
     ps_next_plan_id := co_next_plan_id c, ps_carried_live_dynamic_state := True,
     ps_plans := map (persist_plan \<circ> snd) (co_plans c),
     ps_reservations := concat (map (persist_reservations (kg_reservation (co_generations c)) \<circ> snd) (co_resources c))\<rparr>"

definition handle_save :: "env \<Rightarrow> Message \<Rightarrow> Coordinator \<Rightarrow> file_system \<Rightarrow> Message list \<times> file_system" where
  "handle_save e m c fs =
    (let path = (if msg_detail m = '''' then ''fg_state.bin'' else msg_detail m) in
     case save_state (env_host e) (persist c) path fs of
       (Inl err, fs') \<Rightarrow> ([fail err], fs')
     | (Inr _, fs') \<Rightarrow> ([acknowledge], fs'))"

section \<open>The dispatcher\<close>

definition handle :: "env \<Rightarrow> Message \<Rightarrow> Coordinator \<Rightarrow> file_system \<Rightarrow> (Message list \<times> Coordinator \<times> file_system) res" where
  "handle e m c fs =
    (let keep = (\<lambda>r :: reply. chain r (\<lambda>(out, c'). Inr (out, c', fs))) in
     case msg_type m of
       MT_HELLO \<Rightarrow> Inr ([], c, fs)
     | MT_REGISTER \<Rightarrow> keep (handle_register m c)
     | MT_PUBLISH_RESOURCE \<Rightarrow> keep (handle_publish_resource m c)
     | MT_PUBLISH_LAYOUT \<Rightarrow> keep (handle_publish_layout m c)
     | MT_PUBLISH_ALLOCATION \<Rightarrow> keep (handle_publish_allocation m c)
     | MT_INVALIDATE_ALLOCATION \<Rightarrow> keep (handle_invalidate_allocation m c)
     | MT_QUERY_FRAGMENTATION \<Rightarrow> keep (handle_query_fragmentation e c)
     | MT_QUERY_FIT \<Rightarrow> keep (handle_query_fit e m c)
     | MT_CREATE_PLAN \<Rightarrow> keep (handle_create_plan e m c)
     | MT_PLAN_RESULT \<Rightarrow> keep (refuse ''unhandled'' c)
     | MT_APPROVE_PLAN \<Rightarrow> keep (handle_approve_plan m c)
     | MT_BEGIN_ACTION \<Rightarrow> keep (handle_begin_action m c)
     | MT_ACTION_COMPLETE \<Rightarrow> keep (handle_action_complete m c)
     | MT_VERIFY \<Rightarrow> keep (handle_verify e m c)
     | MT_CANCEL_PLAN \<Rightarrow> keep (handle_cancel_plan m c)
     | MT_ADVANCE_GENERATION \<Rightarrow> keep (handle_advance_generation m c)
     | MT_REVALIDATE \<Rightarrow> keep (handle_revalidate m c)
     | MT_SAVE \<Rightarrow> (case handle_save e m c fs of (out, fs') \<Rightarrow> Inr (out, c, fs'))
     | MT_SHUTDOWN \<Rightarrow> Inr ([], c, fs)
     | MT_ERROR \<Rightarrow> Inr ([], c, fs))"

end
