(* ===== verification/Planner_Scores.thy ===== *)
theory Planner_Scores
  imports Planner Fit_Correct
begin

text \<open>
  The scores of the planner are finite doubles in \<open>[0, 1]\<close>, so that no \<open>HealthyScore\<close> constructor
  throws.  The averages are sums of up to \<open>2 ^ 46\<close> rounded terms; they stay below 1 because rounding
  is monotone and exact on the grid of multiples of \<open>2 ^ -52\<close> that bounds them.
\<close>

section \<open>Scores\<close>

lemma mk_HealthyScore_unit: "unit_double v \<Longrightarrow> mk_HealthyScore v = Inr v"
  by (simp add: mk_HealthyScore_def unit_double_def d_less_def d_lit_def)

lemma unit_double_lit_range: "0 \<le> x \<Longrightarrow> x \<le> 1 \<Longrightarrow> unit_double (d_lit x)"
  by (simp add: d_lit_def unit_double_round)

lemma unit_double_mul: "unit_double a \<Longrightarrow> unit_double b \<Longrightarrow> unit_double (d_mul a b)"
  unfolding d_mul_def by (rule unit_double_round) (simp_all add: unit_double_def mult_le_one)

lemma unit_double_minmax:
  "unit_double a \<Longrightarrow> unit_double b \<Longrightarrow> unit_double (d_min a b)"
  "unit_double a \<Longrightarrow> unit_double b \<Longrightarrow> unit_double (d_max a b)"
  by (simp_all add: d_min_def d_max_def)

lemma disruption_of_unit: "unit_double (disruption_of m)"
  by (cases m) (simp_all add: unit_double_lit_range)

definition weights_ok :: "PlanningWeights \<Rightarrow> bool" where
  "weights_ok w \<longleftrightarrow> unit_double (w_displacement_cost_weight w) \<and> unit_double (w_reclaim_value w)"

lemma candidate_disruption:
  assumes "weights_ok w"
  shows "unit_double (rc_disruption (candidate_of w i e))"
  using assms by (auto simp: candidate_of_def weights_ok_def unit_double_lit_range
      intro!: unit_double_mul unit_double_minmax unit_double_complement disruption_of_unit)

definition action_scores_unit :: "PlanAction \<Rightarrow> bool" where
  "action_scores_unit a \<longleftrightarrow> unit_double (act_disruption a) \<and> unit_double (act_cost a) \<and> unit_double (act_risk a)"

lemma make_action_ok:
  assumes "weights_ok w" and "unit_double (rc_disruption c)"
  obtains act where "make_action snap w c = Inr act" "action_scores_unit act"
    "act_source_allocation act = Some (rc_id c)"
    "act_target_resource act = res_id (dev_resource (snap_devices snap ! rc_device_index c))"
    "act_expected_capacity_recovered act = rc_length c" "act_affected_owner act = rc_owner c"
    "act_kind act = kind_for (rc_movability c)" "act_disruption act = rc_disruption c"
proof -
  have scores: "unit_double (d_min (d_lit 1) (d_mul (w_displacement_cost_weight w) (rc_disruption c)))"
    "unit_double (d_min (d_lit 1) (d_mul (d_lit (6 / 10)) (rc_disruption c)))"
    using assms by (auto simp: weights_ok_def unit_double_lit_range intro!: unit_double_minmax unit_double_mul)
  show thesis
    by (rule that [OF make_action_def [of snap w c, unfolded mk_HealthyScore_unit [OF unit_double_lit(2)]
            mk_HealthyScore_unit [OF scores(1)] mk_HealthyScore_unit [OF scores(2)]
            mk_HealthyScore_unit [OF assms(2)] chain_simps]])
      (use scores assms(2) in \<open>simp_all add: action_scores_unit_def\<close>)
qed

section \<open>Averages\<close>

text \<open>
  A sum of \<open>n\<close> doubles in \<open>[0, 1]\<close> stays below \<open>n\<close> as long as \<open>n\<close> is exactly representable,
  because rounding is monotone and exact on the bounds.
\<close>

lemma d_add_bound:
  assumes "0 \<le> d_val a" and "d_val a \<le> of_nat k" and "0 \<le> d_val b" and "d_val b \<le> 1" and "Suc k \<le> 2 ^ 53"
  shows "0 \<le> d_val (d_add a b)" "d_val (d_add a b) \<le> of_nat (Suc k)"
proof -
  show "0 \<le> d_val (d_add a b)" unfolding d_add_def using assms by (intro d_round_nonneg_val) simp
  have "d_val (d_round (d_val a + d_val b)) \<le> d_val (d_round (of_nat (Suc k)))"
    using assms by (intro d_round_mono) simp_all
  also have "\<dots> = of_nat (Suc k)" using assms(5) by (rule d_round_nat)
  finally show "d_val (d_add a b) \<le> of_nat (Suc k)" by (simp add: d_add_def)
qed

text \<open>A sum of \<open>n\<close> doubles below the grid point \<open>t * 2 ^ -52\<close> stays below \<open>n * t * 2 ^ -52\<close>.\<close>

lemma grid_exact: "m \<le> 2 ^ 53 \<Longrightarrow> d_val (d_round (of_nat m * pow2 (- 52))) = of_nat m * pow2 (- 52)"
  using d_round_exact [of "int m" "- 52"] by simp

lemma grid_le_one: "m \<le> 2 ^ 52 \<Longrightarrow> of_nat m * pow2 (- 52) \<le> 1"
proof -
  assume "m \<le> 2 ^ 52"
  then have "(of_nat m :: rat) \<le> of_nat (2 ^ 52)" by (simp only: of_nat_le_iff)
  then have "of_nat m * pow2 (- 52) \<le> pow2 52 * pow2 (- 52)"
    using pow2_of_nat [of 52] by (intro mult_right_mono) (simp_all add: less_imp_le)
  then show ?thesis by (simp flip: pow2_add)
qed

lemma d_add_grid_bound:
  assumes "0 \<le> d_val a" and "d_val a \<le> of_nat (k * t) * pow2 (- 52)"
    and "0 \<le> d_val b" and "d_val b \<le> of_nat t * pow2 (- 52)" and "Suc k * t \<le> 2 ^ 52"
  shows "unit_double (d_add a b)" "d_val (d_add a b) \<le> of_nat (Suc k * t) * pow2 (- 52)"
proof -
  have "d_val a + d_val b \<le> of_nat (k * t) * pow2 (- 52) + of_nat t * pow2 (- 52)"
    using assms(2,4) by (rule add_mono)
  also have "\<dots> = of_nat (Suc k * t) * pow2 (- 52)" by (simp add: algebra_simps)
  finally have le: "d_val a + d_val b \<le> of_nat (Suc k * t) * pow2 (- 52)" .
  with grid_le_one [OF assms(5)] show "unit_double (d_add a b)"
    unfolding d_add_def using assms(1,3) by (intro unit_double_round) linarith+
  have "d_val (d_round (d_val a + d_val b)) \<le> d_val (d_round (of_nat (Suc k * t) * pow2 (- 52)))"
    using le assms(1,3) by (intro d_round_mono) simp_all
  also have "\<dots> = of_nat (Suc k * t) * pow2 (- 52)" by (rule grid_exact, rule le_trans [OF assms(5)]) simp
  finally show "d_val (d_add a b) \<le> of_nat (Suc k * t) * pow2 (- 52)" by (simp add: d_add_def)
qed

lemma sum_scores_bound:
  assumes "\<forall>x \<in> set xs. 0 \<le> d_val x \<and> d_val x \<le> 1" and "0 \<le> d_val a" and "d_val a \<le> of_nat k"
    and "k + length xs \<le> 2 ^ 53"
  shows "0 \<le> d_val (fold (\<lambda>x s. d_add s x) xs a) \<and>
    d_val (fold (\<lambda>x s. d_add s x) xs a) \<le> of_nat (k + length xs)"
  using assms
proof (induction xs arbitrary: a k)
  case (Cons x xs)
  have "0 \<le> d_val (d_add a x)" "d_val (d_add a x) \<le> of_nat (Suc k)"
    using Cons.prems d_add_bound [of a k x] by auto
  with Cons.IH [of "d_add a x" "Suc k"] Cons.prems show ?case by simp
qed simp

lemma sum_grid_bound:
  assumes "\<forall>x \<in> set xs. 0 \<le> d_val x \<and> d_val x \<le> of_nat t * pow2 (- 52)"
    and "unit_double a" and "d_val a \<le> of_nat (k * t) * pow2 (- 52)" and "(k + length xs) * t \<le> 2 ^ 52"
  shows "unit_double (fold (\<lambda>x s. d_add s x) xs a)"
  using assms
proof (induction xs arbitrary: a k)
  case (Cons x xs)
  have "Suc k * t \<le> (k + length (x # xs)) * t" by (intro mult_right_mono) simp_all
  then have "Suc k * t \<le> 2 ^ 52" using Cons.prems(4) by (rule le_trans)
  then have "unit_double (d_add a x)" "d_val (d_add a x) \<le> of_nat (Suc k * t) * pow2 (- 52)"
    using Cons.prems d_add_grid_bound [of a k t x] by (auto simp: unit_double_def)
  with Cons.IH [of "d_add a x" "Suc k"] Cons.prems show ?case by simp
qed simp

lemma fold_triple:
  "fold (\<lambda>a (d, c, r). (d_add d (f a), d_add c (g a), d_add r (h a))) as (d, c, r) =
   (fold (\<lambda>x s. d_add s x) (map f as) d, fold (\<lambda>x s. d_add s x) (map g as) c,
    fold (\<lambda>x s. d_add s x) (map h as) r)"
  by (induction as arbitrary: d c r) simp_all

lemma grid_point_exists:
  assumes "0 < n" and "n \<le> (2 :: nat) ^ 46"
  obtains t :: nat where "97 / 100 / of_nat n \<le> of_nat t * pow2 (- 52)" "n * t \<le> 2 ^ 52" "t \<le> 2 ^ 53"
proof -
  define q where "q = (2 ^ 52 * 97) div (100 * n)"
  define t where "t = q + 1"
  have "n * q \<le> 2 ^ 52 * 97 div 100"
    unfolding q_def div_mult2_eq by (rule times_div_less_eq_dividend)
  moreover have "n * t = n * q + n" by (simp add: t_def)
  moreover have "2 ^ 52 * 97 div 100 + 2 ^ 46 \<le> (2 ^ 52 :: nat)" by simp
  ultimately have nt: "n * t \<le> 2 ^ 52" using assms(2) by linarith
  have "t \<le> n * t" using assms(1) by simp
  with nt have "t \<le> 2 ^ 52" by (rule order_trans [rotated])
  then have "t \<le> 2 ^ 53" by (rule order_trans) simp
  moreover have "97 / 100 / of_nat n \<le> of_nat t * pow2 (- 52)"
  proof -
    have "2 ^ 52 * 97 < t * (100 * n)"
      using dividend_less_times_div [of "100 * n" "2 ^ 52 * 97"] assms(1) unfolding q_def [symmetric] t_def
      by (simp add: algebra_simps)
    then have "(of_nat (2 ^ 52 * 97) :: rat) \<le> of_nat (t * (100 * n))" by (simp only: of_nat_le_iff)
    then have "97 * pow2 52 \<le> of_nat t * (100 * of_nat n)"
      using pow2_of_nat [of 52] by simp
    then have "97 * pow2 52 * pow2 (- 52) \<le> of_nat t * (100 * of_nat n) * pow2 (- 52)"
      by (intro mult_right_mono) (simp_all add: less_imp_le)
    moreover have "97 * pow2 52 * pow2 (- 52) = 97" by (simp add: mult.assoc pow2_minus)
    ultimately have "97 \<le> of_nat t * pow2 (- 52) * (100 * of_nat n)" by (simp only: mult.commute mult.left_commute)
    then show ?thesis using assms(1) by (simp add: divide_le_eq mult.commute mult.left_commute)
  qed
  ultimately show thesis using nt that by blast
qed

definition action_disruption_ok :: "PlanAction \<Rightarrow> bool" where
  "action_disruption_ok a \<longleftrightarrow> action_scores_unit a \<and> d_val (act_disruption a) \<le> 97 / 100"

lemma average_scores_unit:
  assumes ok: "\<forall>a \<in> set actions. action_disruption_ok a" and n: "length actions \<le> 2 ^ 46"
    and avg: "average_scores actions = (d, c, r)"
  shows "unit_double d \<and> unit_double c \<and> unit_double r"
proof (cases "actions = []")
  case True
  with avg show ?thesis by (auto simp: average_scores_def)
next
  case False
  let ?n = "length actions" and ?N = "d_of_u64 (of_nat (length actions))"
  have pos: "0 < ?n" using False by simp
  have N: "d_val ?N = of_nat ?n"
    using n d_of_u64_exact [of "of_nat ?n"] by (simp add: unat_of_nat_small del: of_nat_unat)
  obtain t where t: "97 / 100 / of_nat ?n \<le> of_nat t * pow2 (- 52)" "?n * t \<le> 2 ^ 52" "t \<le> 2 ^ 53"
    using grid_point_exists [OF pos n] .
  have disr: "0 \<le> d_val (d_div (act_disruption a) ?N) \<and> d_val (d_div (act_disruption a) ?N) \<le> of_nat t * pow2 (- 52)"
    if "a \<in> set actions" for a
  proof -
    have a: "0 \<le> d_val (act_disruption a)" "d_val (act_disruption a) \<le> 97 / 100"
      using ok that by (auto simp: action_disruption_ok_def action_scores_unit_def unit_double_def)
    have "d_val (act_disruption a) / of_nat ?n \<le> 97 / 100 / of_nat ?n"
      using a(2) by (intro divide_right_mono) simp_all
    with t(1) have "d_val (act_disruption a) / of_nat ?n \<le> of_nat t * pow2 (- 52)" by (rule order_trans [rotated])
    then have "d_val (d_div (act_disruption a) ?N) \<le> d_val (d_round (of_nat t * pow2 (- 52)))"
      unfolding d_div_def N using a(1) by (intro d_round_mono) simp_all
    with grid_exact [OF t(3)] a(1) show ?thesis by (simp add: d_div_def N d_round_nonneg_val)
  qed
  have "unit_double (fold (\<lambda>x s. d_add s x) (map (\<lambda>a. d_div (act_disruption a) ?N) actions) (d_lit 0))"
    using disr t(2) by (intro sum_grid_bound [where t = t and k = 0]) (auto, simp add: d_lit_def)
  moreover have sums: "0 \<le> d_val (fold (\<lambda>x s. d_add s x) (map f actions) (d_lit 0)) \<and>
      d_val (fold (\<lambda>x s. d_add s x) (map f actions) (d_lit 0)) \<le> of_nat ?n"
    if "\<forall>a \<in> set actions. unit_double (f a)" for f
    using sum_scores_bound [of "map f actions" "d_lit 0" 0] that n by (auto simp: d_lit_def unit_double_def)
  have unit_div: "unit_double (d_div s ?N)" if "0 \<le> d_val s \<and> d_val s \<le> of_nat ?n" for s
    unfolding d_div_def N using that pos by (intro unit_double_round) (simp_all add: divide_le_eq)
  have "unit_double (d_div (fold (\<lambda>x s. d_add s x) (map act_cost actions) (d_lit 0)) ?N)"
    "unit_double (d_div (fold (\<lambda>x s. d_add s x) (map act_risk actions) (d_lit 0)) ?N)"
    using ok by (auto intro!: unit_div sums simp: action_disruption_ok_def action_scores_unit_def)
  ultimately show ?thesis
    using avg False unfolding average_scores_def Let_def fold_triple by auto
qed

lemma movable_disruption: "may_move m \<Longrightarrow> d_val (disruption_of m) \<le> 96 / 100"
proof -
  have "d_val (d_round (95 / 100)) \<le> 96 / 100" by code_simp
  moreover have "d_val (d_round x) \<le> d_val (d_round (95 / 100))" if "0 \<le> x" "x \<le> 95 / 100" for x
    using that by (rule d_round_mono)
  ultimately have le: "d_val (d_lit x) \<le> 96 / 100" if "0 \<le> x" "x \<le> 95 / 100" for x
    using that unfolding d_lit_def by (meson order_trans)
  assume "may_move m"
  then show ?thesis by (cases m) (simp_all only: disruption_of.simps may_move.simps; (rule le)?; simp)+
qed

lemma candidate_disruption_bound:
  assumes "weights_ok w" and "may_move (al_movability (snd e))"
  shows "d_val (rc_disruption (candidate_of w i e)) \<le> 97 / 100"
proof -
  let ?m = "d_max (d_lit (5 / 100)) (d_sub (d_lit 1) (w_displacement_cost_weight w))"
  have "unit_double ?m"
    using assms(1) by (auto simp: weights_ok_def unit_double_lit_range intro!: unit_double_minmax unit_double_complement)
  then have "d_val (disruption_of (al_movability (snd e))) * d_val ?m \<le> 96 / 100 * 1"
    using movable_disruption [OF assms(2)] disruption_of_unit [of "al_movability (snd e)"]
    by (intro mult_mono) (auto simp: unit_double_def)
  then have "d_val (rc_disruption (candidate_of w i e)) \<le> d_val (d_round (96 / 100))"
    using \<open>unit_double ?m\<close> disruption_of_unit [of "al_movability (snd e)"]
    unfolding candidate_of_def ReclaimCandidate.select_convs d_mul_def
    by (intro d_round_mono) (auto simp: unit_double_def)
  also have "\<dots> \<le> 97 / 100" by code_simp
  finally show ?thesis .
qed

section \<open>The benefit\<close>

lemma unit_double_round_below_one:
  assumes "0 \<le> y" and "d_val (d_round y) < 1"
  shows "unit_double (d_round y)"
proof -
  have n: "0 \<le> d_round_nonneg y" "d_round_nonneg y < 2 ^ 63"
    using d_round_nonneg_range [OF assms(1)] by simp_all
  then have v: "d_val (d_round y) = pattern_val (d_round_nonneg y)" "d_exponent (d_round y) = d_round_nonneg y div 2 ^ 52"
    using assms(1) by (simp_all add: d_round_def d_val_pattern)
  have "d_round_nonneg y < 1023 * 2 ^ 52"
  proof (rule ccontr)
    assume "\<not> d_round_nonneg y < 1023 * 2 ^ 52"
    then have "pattern_val (1023 * 2 ^ 52) \<le> pattern_val (d_round_nonneg y)" by (intro pattern_val_mono) simp_all
    with assms(2) v(1) show False by (simp only: pattern_val_one)
  qed
  then have "d_exponent (d_round y) < 1023" using n v(2) by simp
  then show ?thesis using assms d_round_nonneg_val [OF assms(1)] by (simp add: unit_double_def d_isfinite_def)
qed

lemma unit_double_min_one: "0 \<le> y \<Longrightarrow> unit_double (d_min (d_lit 1) (d_round y))"
  using unit_double_round_below_one [of y] by (simp add: d_min_def d_less_def d_lit_def) (simp flip: d_lit_def)

lemma benefit_unit:
  assumes "unit_double w"
  shows "unit_double (d_min (d_lit 1) (d_add (d_mul (d_lit (6 / 10)) w)
    (d_mul (d_lit (4 / 10)) (d_div (d_of_u64 r) (d_max (d_lit 1) x)))))"
proof -
  have lit: "0 \<le> d_val (d_lit q)" if "0 \<le> q" for q using that by (simp add: d_lit_def d_round_nonneg_val)
  have "1 \<le> d_val (d_max (d_lit 1) x)" by (simp add: d_max_def d_less_def d_lit_def)
  then have "0 \<le> d_val (d_div (d_of_u64 r) (d_max (d_lit 1) x))"
    unfolding d_div_def using d_of_u64_nonneg [of r] by (intro d_round_nonneg_val) simp
  then have "0 \<le> d_val (d_mul (d_lit (4 / 10)) (d_div (d_of_u64 r) (d_max (d_lit 1) x)))"
    unfolding d_mul_def by (intro d_round_nonneg_val mult_nonneg_nonneg lit) simp_all
  moreover have "0 \<le> d_val (d_mul (d_lit (6 / 10)) w)"
    unfolding d_mul_def using assms
    by (intro d_round_nonneg_val mult_nonneg_nonneg lit) (simp_all add: unit_double_def)
  ultimately show ?thesis unfolding d_add_def by (intro unit_double_min_one) simp
qed

end
