(* ===== verification/Planner_Correct.thy ===== *)
theory Planner_Correct
  imports Planner_Scores
begin

text \<open>
  The planner on well-formed snapshots: it returns a plan exactly when the demand does not fit now
  but fits once the unprotected allocations are gone, and the plan releases only such allocations
  and no more of the sorted candidates than needed.
\<close>

section \<open>Evaluating a list of layouts\<close>

definition layouts_ok :: "ResourceLayout list \<Rightarrow> bool" where
  "layouts_ok ls \<longleftrightarrow> (\<forall>l \<in> set ls. layout_inv l) \<and>
     sum_list (map (\<lambda>l. unat (lay_capacity l)) ls) < 2 ^ 64 \<and> length ls < 2 ^ 64"

definition layouts_fit :: "WorkloadDemand \<Rightarrow> nat set list \<Rightarrow> bool" where
  "layouts_fit d fs \<longleftrightarrow> needed_devices d \<le> length (filter (\<lambda>f. fits_in f d) fs) \<and>
     unat (dem_aggregate_memory d) \<le> sum_list (map card fs)"

lemma eval_fit_exact:
  assumes "\<forall>l \<in> set ls. layout_inv l" and "unat (fs_satisfying s) + length ls < 2 ^ 64"
    and "unat (fs_aggregate_free s) + sum_list (map (\<lambda>l. card (free_bytes l)) ls) < 2 ^ 64"
  shows "\<exists>s'. fold_res (\<lambda>lay s.
      chain (if free_capacity lay \<ge> dem_per_device_memory d \<and> largest_free_block lay \<ge> dem_per_device_memory d
             then Count_add (fs_satisfying s) 1 else Inr (fs_satisfying s)) (\<lambda>n.
      chain (Bytes_add (fs_aggregate_free s) (free_capacity lay)) (\<lambda>a.
      Inr \<lparr>fs_satisfying = n, fs_aggregate_free = a\<rparr>))) ls s = Inr s' \<and>
    unat (fs_satisfying s') = unat (fs_satisfying s) + length (filter (\<lambda>l. fits_in (free_bytes l) d) ls) \<and>
    unat (fs_aggregate_free s') = unat (fs_aggregate_free s) + sum_list (map (\<lambda>l. card (free_bytes l)) ls)"
  using assms
proof (induction ls arbitrary: s)
  case (Cons l ls)
  have inv: "layout_inv l" using Cons.prems(1) by simp
  let ?a = "fs_aggregate_free s + free_capacity l"
  have a: "unat ?a = unat (fs_aggregate_free s) + card (free_bytes l)"
    "Bytes_add (fs_aggregate_free s) (free_capacity l) = Inr ?a"
    using Cons.prems(3) unat_add_no_overflow [of "fs_aggregate_free s" "free_capacity l"]
    by (auto simp: Bytes_add_ok free_capacity_card [OF inv])
  note sat = satisfies_iff [OF inv, of d]
  show ?case
  proof (cases "fits_in (free_bytes l) d")
    case True
    let ?n = "fs_satisfying s + 1"
    have "unat ?n = unat (fs_satisfying s) + 1" "Count_add (fs_satisfying s) 1 = Inr ?n"
      using Cons.prems(2) unat_add_no_overflow [of "fs_satisfying s" 1] by (auto simp: Count_add_ok)
    with True Cons.IH [of "\<lparr>fs_satisfying = ?n, fs_aggregate_free = ?a\<rparr>"] Cons.prems a sat
    show ?thesis by auto
  next
    case False
    with Cons.IH [of "\<lparr>fs_satisfying = fs_satisfying s, fs_aggregate_free = ?a\<rparr>"] Cons.prems a sat
    show ?thesis by auto
  qed
qed simp

lemma free_sum_le:
  "\<forall>l \<in> set ls. layout_inv l \<Longrightarrow>
   sum_list (map (\<lambda>l. card (free_bytes l)) ls) \<le> sum_list (map (\<lambda>l. unat (lay_capacity l)) ls)"
  using free_capacity_card free_capacity_bound by (intro sum_list_mono) fastforce

lemma needed_count_nat: "unat (needed_count d) = needed_devices d"
  by (simp add: needed_count_def needed_devices_def)

lemma eval_fit_spec:
  assumes "layouts_ok ls"
  obtains s where "eval_fit ls d = Inr s"
    "fit_state_ok d s \<longleftrightarrow> layouts_fit d (map free_bytes ls)"
    "(fs_satisfying s < needed_count d \<or> fs_aggregate_free s < dem_aggregate_memory d) \<longleftrightarrow>
       \<not> layouts_fit d (map free_bytes ls)"
proof -
  have inv: "\<forall>l \<in> set ls. layout_inv l" using assms by (simp add: layouts_ok_def)
  obtain s where s: "eval_fit ls d = Inr s"
    "unat (fs_satisfying s) = length (filter (\<lambda>l. fits_in (free_bytes l) d) ls)"
    "unat (fs_aggregate_free s) = sum_list (map (\<lambda>l. card (free_bytes l)) ls)"
    using eval_fit_exact [OF inv, of "\<lparr>fs_satisfying = 0, fs_aggregate_free = 0\<rparr>" d] assms free_sum_le [OF inv]
    by (auto simp: eval_fit_def layouts_ok_def)
  then show thesis
    by (intro that [of s]) (auto simp: fit_state_ok_def layouts_fit_def word_le_nat_alt word_less_nat_alt
        needed_count_nat filter_map comp_def)
qed

section \<open>Releasing allocations across devices\<close>

type_synonym alloc_key = "nat \<times> AllocationId"

definition removed_from :: "alloc_key set \<Rightarrow> ResourceLayout list \<Rightarrow> ResourceLayout list \<Rightarrow> bool" where
  "removed_from S ls ls' \<longleftrightarrow> length ls' = length ls \<and>
     (\<forall>i < length ls. layout_inv (ls' ! i) \<and> lay_capacity (ls' ! i) = lay_capacity (ls ! i) \<and>
        lay_allocations (ls' ! i) = filter (\<lambda>e. (i, fst e) \<notin> S) (lay_allocations (ls ! i)))"

definition free_sum :: "ResourceLayout list \<Rightarrow> nat" where
  "free_sum ls = sum_list (map (\<lambda>l. unat (free_capacity l)) ls)"

lemma removed_from_refl: "\<forall>l \<in> set ls. layout_inv l \<Longrightarrow> removed_from {} ls ls"
  by (simp add: removed_from_def)

lemma removed_from_unique: "removed_from S ls xs \<Longrightarrow> removed_from S ls ys \<Longrightarrow> xs = ys"
  by (rule nth_equalityI) (auto simp: removed_from_def intro: layout_canonical)

lemma removed_from_ok:
  assumes "removed_from S ls ls'" and "layouts_ok ls"
  shows "layouts_ok ls'"
proof -
  have "map (\<lambda>l. unat (lay_capacity l)) ls' = map (\<lambda>l. unat (lay_capacity l)) ls"
    using assms(1) by (intro nth_equalityI) (auto simp: removed_from_def)
  with assms show ?thesis by (auto simp: layouts_ok_def removed_from_def in_set_conv_nth)
qed

lemma remove_step:
  assumes rem: "removed_from S ls ls'" and i: "i < length ls" and find: "om_find (lay_allocations (ls ! i)) k = Some a"
    and inv: "\<forall>l \<in> set ls. layout_inv l" and new: "(i, k) \<notin> S"
  obtains l' where "remove_allocation (ls' ! i) k = Inr (None, l')"
    "removed_from (insert (i, k) S) ls (ls'[i := l'])" "free_sum (ls'[i := l']) = free_sum ls' + unat (al_length a)"
proof -
  have li: "layout_inv (ls' ! i)" and cap: "lay_capacity (ls' ! i) = lay_capacity (ls ! i)"
    and al: "lay_allocations (ls' ! i) = filter (\<lambda>e. (i, fst e) \<notin> S) (lay_allocations (ls ! i))"
    using rem i by (auto simp: removed_from_def)
  have "(k, a) \<in> set (lay_allocations (ls ! i))"
    using find inv i layout_inv_allocations by (metis nth_mem om_find_in_set)
  then have "(k, a) \<in> set (lay_allocations (ls' ! i))" using new by (simp add: al)
  then have "om_find (lay_allocations (ls' ! i)) k = Some a"
    using layout_inv_allocations [OF li] by (simp add: om_find_in_set)
  then obtain l' where l': "remove_allocation (ls' ! i) k = Inr (None, l')" "layout_inv l'"
    "lay_capacity l' = lay_capacity (ls' ! i)" "lay_allocations l' = om_erase k (lay_allocations (ls' ! i))"
    "unat (free_capacity l') = unat (free_capacity (ls' ! i)) + unat (al_length a)"
    using device_layout.release [OF li] by blast
  have "i < length ls'" using rem i by (simp add: removed_from_def)
  moreover from this have "unat (free_capacity (ls' ! i)) \<le> free_sum ls'"
    unfolding free_sum_def by (intro member_le_sum_list_nat) (auto intro: nth_mem)
  ultimately have gain: "free_sum (ls'[i := l']) = free_sum ls' + unat (al_length a)"
    using l'(5) by (simp add: free_sum_def map_update sum_list_update)
  have "removed_from (insert (i, k) S) ls (ls'[i := l'])"
    unfolding removed_from_def
  proof (intro conjI allI impI)
    show "length (ls'[i := l']) = length ls" using rem by (simp add: removed_from_def)
    fix j assume j: "j < length ls"
    have len: "length ls' = length ls" using rem by (simp add: removed_from_def)
    show "layout_inv (ls'[i := l'] ! j)" "lay_capacity (ls'[i := l'] ! j) = lay_capacity (ls ! j)"
      using rem j l' cap len by (cases "j = i"; simp add: removed_from_def)+
    show "lay_allocations (ls'[i := l'] ! j) =
        filter (\<lambda>e. (j, fst e) \<notin> insert (i, k) S) (lay_allocations (ls ! j))"
    proof (cases "j = i")
      case True
      then show ?thesis using len i l'(4) by (auto simp: al om_erase_def intro!: filter_cong)
    next
      case False
      then show ?thesis using rem j len by (auto simp: nth_list_update removed_from_def intro!: filter_cong)
    qed
  qed
  with l'(1) gain that show thesis by blast
qed

section \<open>The candidates\<close>

abbreviation rc_key :: "ReclaimCandidate \<Rightarrow> alloc_key" where
  "rc_key c \<equiv> (rc_device_index c, rc_id c)"

definition candidate_ok :: "FragmentationSnapshot \<Rightarrow> ReclaimCandidate \<Rightarrow> bool" where
  "candidate_ok snap c \<longleftrightarrow> rc_device_index c < length (snap_devices snap) \<and>
     (\<exists>a. om_find (lay_allocations (device_layout_at snap (rc_device_index c))) (rc_id c) = Some a \<and>
        \<not> is_protected a \<and> rc_length c = al_length a \<and> rc_movability c = al_movability a \<and> rc_owner c = al_owner a) \<and>
     unit_double (rc_disruption c) \<and> d_val (rc_disruption c) \<le> 97 / 100"

lemma planner_reclaimable_iff: "planner_reclaimable a \<longleftrightarrow> \<not> is_protected a"
  by (auto simp: planner_reclaimable_def protected_iff_not_eligible eligible_for_reclaim_def)

lemma mset_insert_stable [simp]: "mset (insert_stable lt x xs) = add_mset x (mset xs)"
  by (induction xs) auto

lemma mset_stable_sort [simp]: "mset (stable_sort lt xs) = mset xs"
  by (induction xs) (auto simp: stable_sort_def)

lemma set_stable_sort [simp]: "set (stable_sort lt xs) = set xs"
  using mset_eq_setD [OF mset_stable_sort] .

lemma insert_stable_sorted:
  assumes "\<And>a b. lt a b \<Longrightarrow> key a \<le> key b" and "\<And>a b. \<not> lt a b \<Longrightarrow> key b \<le> (key a :: 'b :: linorder)"
    and "sorted (map key xs)"
  shows "sorted (map key (insert_stable lt x xs))"
  using assms(3)
proof (induction xs)
  case (Cons y xs)
  have "set (insert_stable lt x xs) = insert x (set xs)"
    using mset_eq_setD [of "insert_stable lt x xs" "x # xs"] by simp
  with Cons assms(1,2) show ?case by (auto intro: order_trans [of "key x" "key y"])
qed simp

lemma stable_sort_sorted:
  assumes "\<And>a b. lt a b \<Longrightarrow> key a \<le> key b" and "\<And>a b. \<not> lt a b \<Longrightarrow> key b \<le> (key a :: 'b :: linorder)"
  shows "sorted (map key (stable_sort lt xs))"
  unfolding stable_sort_def by (induction xs) (auto intro: insert_stable_sorted [OF assms])

lemma candidates_by_disruption: "sorted (map (\<lambda>c. d_val (rc_disruption c)) (stable_sort candidate_less cs))"
  by (rule stable_sort_sorted) (auto simp: candidate_less_def d_less_def split: if_splits)

definition reclaim_keys :: "FragmentationSnapshot \<Rightarrow> alloc_key set" where
  "reclaim_keys snap = {(i, fst e) |i e. i < length (snap_devices snap) \<and>
     e \<in> set (lay_allocations (device_layout_at snap i)) \<and> \<not> is_protected (snd e)}"

lemma collect_candidates_keys: "rc_key ` set (collect_candidates snap w) = reclaim_keys snap"
proof -
  have "rc_key ` set (collect_candidates snap w) =
      (\<Union>i \<in> {..< length (snap_devices snap)}. (\<lambda>e. (i, fst e)) `
        {e \<in> set (lay_allocations (device_layout_at snap i)). \<not> is_protected (snd e)})"
    by (simp add: collect_candidates_def planner_reclaimable_iff candidate_of_def image_UN image_image
        atLeast0LessThan)
  also have "\<dots> = reclaim_keys snap" unfolding reclaim_keys_def by blast
  finally show ?thesis .
qed

lemma collect_candidates_ok:
  assumes "devices_ok snap" and "weights_ok w" and "c \<in> set (collect_candidates snap w)"
  shows "candidate_ok snap c"
proof -
  obtain i e where i: "i < length (snap_devices snap)" and e: "e \<in> set (lay_allocations (device_layout_at snap i))"
    "\<not> is_protected (snd e)" and c: "c = candidate_of w i e"
    using assms(3) by (auto simp: collect_candidates_def planner_reclaimable_iff)
  have "om_find (lay_allocations (device_layout_at snap i)) (fst e) = Some (snd e)"
    using e(1) layout_inv_allocations [OF devices_ok_inv [OF assms(1) i]] by (simp add: om_find_in_set)
  moreover have "may_move (al_movability (snd e))" using e(2) by (simp add: is_protected_alt)
  ultimately show ?thesis
    using i e c candidate_disruption [OF assms(2)] candidate_disruption_bound [OF assms(2)]
    by (auto simp: candidate_ok_def candidate_of_def)
qed

lemma distinct_indexed_concat:
  assumes "distinct is" and "\<And>i. i \<in> set is \<Longrightarrow> distinct (map g (f i))"
    and "\<And>i x. i \<in> set is \<Longrightarrow> x \<in> set (f i) \<Longrightarrow> fst (g x) = i"
  shows "distinct (map g (concat (map f is)))"
  using assms
proof (induction "is")
  case (Cons i "is")
  have "fst y = i" if "y \<in> g ` set (f i)" for y using Cons.prems(3) that by auto
  moreover have "fst y \<noteq> i" if y: "y \<in> g ` set (concat (map f is))" for y
  proof -
    obtain x j where "y = g x" "x \<in> set (f j)" "j \<in> set is" using y by auto
    with Cons.prems show ?thesis by (metis distinct.simps(2) list.set_intros(2))
  qed
  ultimately have "g ` set (f i) \<inter> g ` set (concat (map f is)) = {}" by blast
  with Cons show ?case by (simp del: set_concat)
qed simp

lemma collect_candidates_distinct:
  assumes ok: "devices_ok snap"
  shows "distinct (map rc_key (collect_candidates snap w))"
  unfolding collect_candidates_def
proof (rule distinct_indexed_concat)
  fix i assume "i \<in> set [0 ..< length (snap_devices snap)]"
  then have "layout_inv (device_layout_at snap i)" using devices_ok_inv [OF ok] by simp
  then have "distinct (map fst (filter (\<lambda>e. planner_reclaimable (snd e)) (lay_allocations (device_layout_at snap i))))"
    using om_inv_distinct layout_inv_allocations by (intro distinct_map_filter) blast
  then show "distinct (map rc_key (map (candidate_of w i)
      (filter (\<lambda>e. planner_reclaimable (snd e)) (lay_allocations (device_layout_at snap i)))))"
    by (simp add: candidate_of_def comp_def distinct_map inj_on_def) blast
qed (auto simp: candidate_of_def)

section \<open>The greedy loop\<close>

text \<open>The free bytes of every device once the allocations \<open>K\<close> are released.\<close>

definition free_without :: "alloc_key set \<Rightarrow> FragmentationSnapshot \<Rightarrow> nat set list" where
  "free_without K snap = map (\<lambda>i. {0 ..< unat (lay_capacity (device_layout_at snap i))} -
     (\<Union>e \<in> {e \<in> set (lay_allocations (device_layout_at snap i)). (i, fst e) \<notin> K}. alloc_bytes (snd e)))
   [0 ..< length (snap_devices snap)]"

lemma removed_from_free:
  "removed_from K (map dev_layout (snap_devices snap)) ls \<Longrightarrow> map free_bytes ls = free_without K snap"
  by (rule nth_equalityI) (auto simp: removed_from_def free_without_def free_bytes_def used_bytes_def)

lemma plan_loop_run:
  assumes ok: "layouts_ok (map dev_layout (snap_devices snap))" and w: "weights_ok w"
    and "\<forall>c \<in> set cands. candidate_ok snap c" and "distinct (map rc_key cands)"
    and "S \<inter> rc_key ` set cands = {}" and "removed_from S (map dev_layout (snap_devices snap)) devs"
  shows "\<exists>k devs' acts. k \<le> length cands \<and>
    plan_loop snap d w cands devs actions = Inr (devs', actions @ acts) \<and>
    map_res (make_action snap w) (take k cands) = Inr acts \<and>
    removed_from (S \<union> rc_key ` set (take k cands)) (map dev_layout (snap_devices snap)) devs' \<and>
    free_sum devs' = free_sum devs + sum_list (map (\<lambda>c. unat (rc_length c)) (take k cands)) \<and>
    (k = length cands \<or> layouts_fit d (map free_bytes devs')) \<and>
    (\<forall>j < k. \<not> layouts_fit d (free_without (S \<union> rc_key ` set (take j cands)) snap))"
  using assms(3-)
proof (induction cands arbitrary: S devs actions)
  case Nil
  then show ?case by (intro exI [of _ 0]) simp
next
  case (Cons c cands)
  let ?base = "map dev_layout (snap_devices snap)"
  obtain s where s: "eval_fit devs d = Inr s" "fit_state_ok d s \<longleftrightarrow> layouts_fit d (map free_bytes devs)"
    using eval_fit_spec [OF removed_from_ok [OF Cons.prems(4) ok]] by metis
  show ?case
  proof (cases "layouts_fit d (map free_bytes devs)")
    case True
    with s Cons.prems(4) show ?thesis by (intro exI [of _ 0]) simp
  next
    case False
    have c: "candidate_ok snap c" using Cons.prems(1) by simp
    then obtain a where a: "om_find (lay_allocations (?base ! rc_device_index c)) (rc_id c) = Some a"
      "rc_device_index c < length ?base" "al_length a = rc_length c" by (auto simp: candidate_ok_def)
    obtain l' where l': "remove_allocation (devs ! rc_device_index c) (rc_id c) = Inr (None, l')"
      "removed_from (insert (rc_key c) S) ?base (devs[rc_device_index c := l'])"
      "free_sum (devs[rc_device_index c := l']) = free_sum devs + unat (rc_length c)"
      using remove_step [OF Cons.prems(4) a(2,1)] a(3) ok Cons.prems(3) by (auto simp: layouts_ok_def)
    obtain act where act: "make_action snap w c = Inr act"
      using make_action_ok [OF w] c by (metis candidate_ok_def)
    have "insert (rc_key c) S \<inter> rc_key ` set cands = {}" using Cons.prems(2,3) by auto
    from Cons.IH [OF _ _ this l'(2), of "actions @ [act]"] Cons.prems(1,2)
    obtain k devs' acts where k: "k \<le> length cands"
      "plan_loop snap d w cands (devs[rc_device_index c := l']) (actions @ [act]) = Inr (devs', (actions @ [act]) @ acts)"
      "map_res (make_action snap w) (take k cands) = Inr acts"
      "removed_from (insert (rc_key c) S \<union> rc_key ` set (take k cands)) ?base devs'"
      "free_sum devs' = free_sum (devs[rc_device_index c := l']) + sum_list (map (\<lambda>c. unat (rc_length c)) (take k cands))"
      "k = length cands \<or> layouts_fit d (map free_bytes devs')"
      "\<forall>j < k. \<not> layouts_fit d (free_without (insert (rc_key c) S \<union> rc_key ` set (take j cands)) snap)"
      by auto
    have "\<not> layouts_fit d (free_without (S \<union> rc_key ` set (take j (c # cands))) snap)" if j: "j < Suc k" for j
    proof (cases j)
      case 0
      with removed_from_free [OF Cons.prems(4)] False show ?thesis by simp
    next
      case (Suc i)
      with j k(7) show ?thesis by simp
    qed
    moreover have "plan_loop snap d w (c # cands) devs actions = Inr (devs', actions @ act # acts)"
      using s False l'(1) act k(2) by (simp add: Let_def)
    ultimately show ?thesis
      using k act l'(3) by (intro exI [of _ "Suc k"] exI [of _ devs'] exI [of _ "act # acts"]) simp
  qed
qed

section \<open>Finishing the plan\<close>

lemma finish_plan_ok:
  assumes w: "weights_ok w" and acts: "\<forall>a \<in> set (plan_actions plan). action_disruption_ok a"
    and n: "length (plan_actions plan) \<le> 2 ^ 46"
    and sum: "sum_list (map (\<lambda>a. unat (act_expected_capacity_recovered a)) (plan_actions plan)) < 2 ^ 64"
  obtains p where "finish_plan pol w fb plan = Inr p" "plan_actions p = plan_actions plan"
    "plan_id p = plan_id plan" "plan_epoch p = plan_epoch plan" "plan_generation p = plan_generation plan"
    "unat (plan_expected_capacity_recovered p) =
       sum_list (map (\<lambda>a. unat (act_expected_capacity_recovered a)) (plan_actions plan))"
    "unit_double (plan_benefit p)" "unit_double (plan_cost p)" "unit_double (plan_risk p)" "unit_double (plan_disruption p)"
    "plan_state p = (if d_less (pol_max_disruption pol) (plan_disruption p) then PS_BLOCKED
       else if pol_require_verification pol then PS_PLAN_READY else plan_state plan)"
proof -
  obtain d c r where avg: "average_scores (plan_actions plan) = (d, c, r)" by (metis prod_cases3)
  have units: "unit_double d" "unit_double c" "unit_double r"
    using average_scores_unit [OF acts n avg] by simp_all
  define rec :: Bytes where "rec = of_nat (sum_list (map (\<lambda>a. unat (act_expected_capacity_recovered a)) (plan_actions plan)))"
  have rec: "unat rec = sum_list (map (\<lambda>a. unat (act_expected_capacity_recovered a)) (plan_actions plan))"
    using sum by (simp add: rec_def unat_of_nat_small)
  have sum_ok: "Bytes_sum (map act_expected_capacity_recovered (plan_actions plan)) 0 = Inr rec"
    using sum rec by (simp add: Bytes_sum_iff comp_def)
  have ben: "unit_double (d_min (d_lit 1) (d_add (d_mul (d_lit (6 / 10)) (w_reclaim_value w))
      (d_mul (d_lit (4 / 10)) (d_div (d_of_u64 rec) (d_max (d_lit 1) (d_add (d_of_u64 fb) (d_of_u64 rec)))))))"
    using w by (intro benefit_unit) (simp add: weights_ok_def)
  show thesis
    by (rule that [OF finish_plan_def [of pol w fb plan, unfolded sum_ok avg Let_def prod.case
            mk_HealthyScore_unit [OF unit_double_lit(2)] mk_HealthyScore_unit [OF ben]
            mk_HealthyScore_unit [OF units(1)] mk_HealthyScore_unit [OF units(2)] mk_HealthyScore_unit [OF units(3)]
            chain_simps]])
      (use ben units rec in simp_all)
qed

section \<open>The planner decides\<close>

text \<open>The demand fits the devices of a snapshot, given which bytes of a layout count as free.\<close>

definition demand_fits :: "(ResourceLayout \<Rightarrow> nat set) \<Rightarrow> FragmentationSnapshot \<Rightarrow> WorkloadDemand \<Rightarrow> bool" where
  "demand_fits free snap d \<longleftrightarrow>
     needed_devices d \<le> card {i. i < length (snap_devices snap) \<and> fits_in (free (device_layout_at snap i)) d} \<and>
     unat (dem_aggregate_memory d) \<le> (\<Sum>i < length (snap_devices snap). card (free (device_layout_at snap i)))"

lemma layouts_fit_card:
  "layouts_fit d fs \<longleftrightarrow> needed_devices d \<le> card {i. i < length fs \<and> fits_in (fs ! i) d} \<and>
     unat (dem_aggregate_memory d) \<le> (\<Sum>i < length fs. card (fs ! i))"
  by (simp add: layouts_fit_def length_filter_conv_card sum_list_sum_nth atLeast0LessThan)

lemma demand_fits_layouts:
  "demand_fits free snap d \<longleftrightarrow> layouts_fit d (map free (map dev_layout (snap_devices snap)))"
proof -
  let ?n = "length (snap_devices snap)"
  let ?fs = "map free (map dev_layout (snap_devices snap))"
  have "{i. i < length ?fs \<and> fits_in (?fs ! i) d} = {i. i < ?n \<and> fits_in (free (device_layout_at snap i)) d}"
    by auto
  moreover have "(\<Sum>i < length ?fs. card (?fs ! i)) = (\<Sum>i < ?n. card (free (device_layout_at snap i)))"
    by (intro sum.cong) auto
  ultimately show ?thesis unfolding demand_fits_def layouts_fit_card by simp
qed

lemma reclaim_keys_member:
  assumes "devices_ok snap" and "i < length (snap_devices snap)" and "e \<in> set (lay_allocations (device_layout_at snap i))"
  shows "(i, fst e) \<in> reclaim_keys snap \<longleftrightarrow> \<not> is_protected (snd e)"
proof -
  have "distinct (map fst (lay_allocations (device_layout_at snap i)))"
    by (rule om_inv_distinct [OF layout_inv_allocations [OF devices_ok_inv [OF assms(1,2)]]])
  then have uniq: "snd f = snd e" if "f \<in> set (lay_allocations (device_layout_at snap i))" "fst f = fst e" for f
    using that assms(3) by (metis eq_key_imp_eq_value prod.collapse)
  have "(i, fst e) \<in> reclaim_keys snap \<longleftrightarrow>
      (\<exists>f \<in> set (lay_allocations (device_layout_at snap i)). fst f = fst e \<and> \<not> is_protected (snd f))"
    unfolding reclaim_keys_def mem_Collect_eq prod.inject using assms(2) by metis
  with uniq assms(3) show ?thesis by metis
qed

lemma free_without_all:
  assumes ok: "devices_ok snap"
  shows "free_without (reclaim_keys snap) snap = map reclaim_free_bytes (map dev_layout (snap_devices snap))"
proof (rule nth_equalityI)
  fix i assume "i < length (free_without (reclaim_keys snap) snap)"
  then have i: "i < length (snap_devices snap)" by (simp add: free_without_def)
  have "{e \<in> set (lay_allocations (device_layout_at snap i)). (i, fst e) \<notin> reclaim_keys snap} =
      {e \<in> set (lay_allocations (device_layout_at snap i)). is_protected (snd e)}"
    using reclaim_keys_member [OF ok i] by blast
  then show "free_without (reclaim_keys snap) snap ! i = map reclaim_free_bytes (map dev_layout (snap_devices snap)) ! i"
    using i by (simp add: free_without_def reclaim_free_bytes_def protected_bytes_def)
qed (simp add: free_without_def)

lemma free_without_none: "free_without {} snap = map free_bytes (map dev_layout (snap_devices snap))"
  by (rule nth_equalityI) (simp_all add: free_without_def free_bytes_def used_bytes_def)

lemma layouts_fit_mono:
  assumes "length fs = length gs" and "\<And>i. i < length fs \<Longrightarrow> fs ! i \<subseteq> gs ! i"
    and "\<And>i. i < length gs \<Longrightarrow> finite (gs ! i)" and "layouts_fit d fs"
  shows "layouts_fit d gs"
proof -
  have "{i. i < length fs \<and> fits_in (fs ! i) d} \<subseteq> {i. i < length gs \<and> fits_in (gs ! i) d}"
    using assms(1,2) by (fastforce simp: fits_in_def)
  then have "card {i. i < length fs \<and> fits_in (fs ! i) d} \<le> card {i. i < length gs \<and> fits_in (gs ! i) d}"
    by (intro card_mono) auto
  moreover have "(\<Sum>i < length fs. card (fs ! i)) \<le> (\<Sum>i < length gs. card (gs ! i))"
    using assms(1-3) by (auto intro!: sum_mono card_mono)
  ultimately show ?thesis using assms(4) unfolding layouts_fit_card by linarith
qed

lemma free_without_mono:
  assumes "K \<subseteq> L" and "layouts_fit d (free_without K snap)"
  shows "layouts_fit d (free_without L snap)"
  using assms by (intro layouts_fit_mono [OF _ _ _ assms(2)]) (auto simp: free_without_def)

text \<open>What a plan is made of: the allocations it releases, in the order of its actions.\<close>

definition action_for :: "FragmentationSnapshot \<Rightarrow> alloc_key \<Rightarrow> PlanAction \<Rightarrow> bool" where
  "action_for snap ik act \<longleftrightarrow> fst ik < length (snap_devices snap) \<and>
     act_target_resource act = res_id (dev_resource (snap_devices snap ! fst ik)) \<and>
     act_source_allocation act = Some (snd ik) \<and>
     (\<exists>a. find_allocation (device_layout_at snap (fst ik)) (snd ik) = Some a \<and> \<not> is_protected a \<and>
        act_expected_capacity_recovered act = al_length a \<and> act_affected_owner act = al_owner a \<and>
        act_kind act = kind_for (al_movability a))"

lemma actions_for:
  assumes "weights_ok w" and "\<forall>c \<in> set cs. candidate_ok snap c" and "map_res (make_action snap w) cs = Inr acts"
  shows "list_all2 (action_for snap) (map rc_key cs) acts \<and>
    (\<forall>a \<in> set acts. action_disruption_ok a) \<and>
    map (\<lambda>a. unat (act_expected_capacity_recovered a)) acts = map (\<lambda>c. unat (rc_length c)) cs \<and>
    map act_disruption acts = map rc_disruption cs"
  using assms(2,3)
proof (induction cs arbitrary: acts)
  case (Cons c cs)
  obtain act acts' where acts: "make_action snap w c = Inr act" "map_res (make_action snap w) cs = Inr acts'"
    "acts = act # acts'"
    using Cons.prems by (auto simp: chain_Inr_iff)
  have c: "candidate_ok snap c" using Cons.prems by simp
  then have "unit_double (rc_disruption c)" by (simp add: candidate_ok_def)
  from make_action_ok [OF assms(1) this] acts(1) have act: "action_scores_unit act"
    "act_source_allocation act = Some (rc_id c)"
    "act_target_resource act = res_id (dev_resource (snap_devices snap ! rc_device_index c))"
    "act_expected_capacity_recovered act = rc_length c" "act_affected_owner act = rc_owner c"
    "act_kind act = kind_for (rc_movability c)" "act_disruption act = rc_disruption c"
    by (metis sum.inject(2))+
  have "action_for snap (rc_key c) act" "action_disruption_ok act"
    using c act by (auto simp: action_for_def action_disruption_ok_def candidate_ok_def find_allocation_def)
  then show ?case using Cons.IH [of acts'] Cons.prems(1) acts act(4,7) by simp
qed simp

definition planner_input_ok :: "FragmentationSnapshot \<Rightarrow> PlanningWeights \<Rightarrow> bool" where
  "planner_input_ok snap w \<longleftrightarrow> devices_ok snap \<and> weights_ok w \<and> length (collect_candidates snap w) \<le> 2 ^ 46"

lemma free_sum_bound:
  assumes "layouts_ok ls" shows "free_sum ls < 2 ^ 64"
proof -
  have "free_sum ls \<le> sum_list (map (\<lambda>l. unat (lay_capacity l)) ls)"
    unfolding free_sum_def using assms free_capacity_bound by (intro sum_list_mono) (auto simp: layouts_ok_def)
  with assms show ?thesis by (simp add: layouts_ok_def)
qed

lemma free_sum_card: "\<forall>l \<in> set ls. layout_inv l \<Longrightarrow> free_sum ls = sum_list (map card (map free_bytes ls))"
  unfolding free_sum_def by (induction ls) (simp_all add: free_capacity_card)

definition start_plan :: "FragmentationSnapshot \<Rightarrow> FragmentationPlanId \<Rightarrow> FragmentationPlanGeneration \<Rightarrow> RemediationPlan" where
  "start_plan snap pid pg = default_plan\<lparr>plan_id := pid, plan_generation := pg, plan_domain_id := snap_domain_id snap,
     plan_based_on_snapshot := snap_generation snap,
     plan_policy_generation := snap_policy_generation snap, plan_epoch := snap_epoch snap\<rparr>"

text \<open>One run of the planner: what the loop did and how its result was finished.\<close>

lemma plan_remediation_run:
  assumes ok: "planner_input_ok snap w" and short: "\<not> layouts_fit d (free_without {} snap)"
  obtains ks acts fb where "list_all2 (action_for snap) ks acts" "distinct ks" "set ks \<subseteq> reclaim_keys snap"
    "\<forall>a \<in> set acts. action_disruption_ok a" "length acts \<le> 2 ^ 46"
    "sum_list (map (\<lambda>a. unat (act_expected_capacity_recovered a)) acts) < 2 ^ 64"
    "sum_list (map card (free_without (set ks) snap)) =
       sum_list (map card (free_without {} snap)) + sum_list (map (\<lambda>a. unat (act_expected_capacity_recovered a)) acts)"
    "sorted (map (\<lambda>a. d_val (act_disruption a)) acts)"
    "set ks = reclaim_keys snap \<or> layouts_fit d (free_without (set ks) snap)"
    "\<forall>j < length ks. \<not> layouts_fit d (free_without (set (take j ks)) snap)"
    "plan_remediation snap d pol w pid pg =
       (if layouts_fit d (free_without (set ks) snap)
        then chain (finish_plan pol w fb (start_plan snap pid pg\<lparr>plan_actions := acts\<rparr>)) (\<lambda>p. Inr (Some p))
        else Inr None)"
proof -
  let ?base = "map dev_layout (snap_devices snap)"
  define cs where "cs = stable_sort candidate_less (collect_candidates snap w)"
  have dev: "devices_ok snap" and w: "weights_ok w" using ok by (simp_all add: planner_input_ok_def)
  have base: "layouts_ok ?base" using dev by (auto simp: layouts_ok_def devices_ok_def comp_def)
  then have refl: "removed_from {} ?base ?base" by (intro removed_from_refl) (simp add: layouts_ok_def)
  have cands: "\<forall>c \<in> set cs. candidate_ok snap c" using collect_candidates_ok [OF dev w] by (simp add: cs_def)
  have perm: "mset (map rc_key cs) = mset (map rc_key (collect_candidates snap w))" by (simp add: cs_def)
  then have dist: "distinct (map rc_key cs)"
    using collect_candidates_distinct [OF dev] mset_eq_imp_distinct_iff by blast
  have keys: "rc_key ` set cs = reclaim_keys snap"
    using collect_candidates_keys [of snap w] by (simp add: cs_def)
  obtain k devs' acts where k: "k \<le> length cs" "plan_loop snap d w cs ?base [] = Inr (devs', acts)"
    "map_res (make_action snap w) (take k cs) = Inr acts"
    "removed_from (rc_key ` set (take k cs)) ?base devs'"
    "free_sum devs' = free_sum ?base + sum_list (map (\<lambda>c. unat (rc_length c)) (take k cs))"
    "k = length cs \<or> layouts_fit d (map free_bytes devs')"
    "\<forall>j < k. \<not> layouts_fit d (free_without (rc_key ` set (take j cs)) snap)"
    using plan_loop_run [OF base w cands dist _ refl, of d "[]"] by auto
  define ks where "ks = map rc_key (take k cs)"
  have setks: "set ks = rc_key ` set (take k cs)" by (simp add: ks_def)
  have acts: "list_all2 (action_for snap) ks acts" "\<forall>a \<in> set acts. action_disruption_ok a"
    "map (\<lambda>a. unat (act_expected_capacity_recovered a)) acts = map (\<lambda>c. unat (rc_length c)) (take k cs)"
    "map act_disruption acts = map rc_disruption (take k cs)"
    using actions_for [OF w _ k(3)] cands by (auto simp: ks_def dest: in_set_takeD)
  note free = removed_from_free [OF k(4), folded setks]
  obtain s where s: "eval_fit ?base d = Inr s" "\<not> fit_state_ok d s"
    using eval_fit_spec [OF base] short removed_from_free [OF refl] by metis
  obtain t where t: "eval_fit devs' d = Inr t"
    "(fs_satisfying t < needed_count d \<or> fs_aggregate_free t < dem_aggregate_memory d) \<longleftrightarrow>
       \<not> layouts_fit d (free_without (set ks) snap)"
    using eval_fit_spec [OF removed_from_ok [OF k(4) base]] free by metis
  obtain fb where fb: "Bytes_sum (map free_capacity ?base) 0 = Inr fb"
    using free_sum_bound [OF base] Bytes_sum_iff [of "map free_capacity ?base" 0 "of_nat (free_sum ?base)"]
    by (simp add: free_sum_def comp_def unat_of_nat_small)
  have inv: "\<forall>l \<in> set ?base. layout_inv l" "\<forall>l \<in> set devs'. layout_inv l"
    using base removed_from_ok [OF k(4) base] by (simp_all add: layouts_ok_def)
  have gain: "sum_list (map card (free_without (set ks) snap)) = sum_list (map card (free_without {} snap)) +
      sum_list (map (\<lambda>a. unat (act_expected_capacity_recovered a)) acts)"
    using k(5) free_sum_card [OF inv(1)] free_sum_card [OF inv(2)]
    by (simp only: free removed_from_free [OF refl] acts(3))
  moreover have "sum_list (map (\<lambda>a. unat (act_expected_capacity_recovered a)) acts) < 2 ^ 64"
    using k(5) acts(3) free_sum_bound [OF removed_from_ok [OF k(4) base]] by simp
  moreover have "length acts \<le> 2 ^ 46"
  proof -
    have "length acts = length ks" using acts(1) by (simp add: list_all2_lengthD)
    also have "\<dots> \<le> length (collect_candidates snap w)"
      using mset_eq_length [OF perm] by (simp add: ks_def)
    finally show ?thesis using ok by (simp add: planner_input_ok_def)
  qed
  moreover have "\<forall>j < length ks. \<not> layouts_fit d (free_without (set (take j ks)) snap)"
    using k(1,7) by (simp add: ks_def take_map min_def)
  moreover have "set ks = reclaim_keys snap \<or> layouts_fit d (free_without (set ks) snap)"
    using k(6) keys free setks by auto
  moreover have "sorted (map (\<lambda>a. d_val (act_disruption a)) acts)"
  proof -
    have "map (\<lambda>a. d_val (act_disruption a)) acts = map d_val (map act_disruption acts)" by simp
    also have "\<dots> = take k (map (\<lambda>c. d_val (rc_disruption c)) cs)" by (simp add: acts(4) take_map comp_def)
    finally show ?thesis using candidates_by_disruption by (simp add: cs_def sorted_wrt_take)
  qed
  moreover have "distinct ks" using dist by (simp add: ks_def distinct_take flip: take_map)
  moreover have "set ks \<subseteq> reclaim_keys snap" using keys setks by (auto dest: in_set_takeD)
  moreover have "plan_remediation snap d pol w pid pg =
      (if layouts_fit d (free_without (set ks) snap)
       then chain (finish_plan pol w fb (start_plan snap pid pg\<lparr>plan_actions := acts\<rparr>)) (\<lambda>p. Inr (Some p))
       else Inr None)"
    using s t k(2) fb by (simp add: plan_remediation_def Let_def start_plan_def cs_def)
  ultimately show thesis using that acts(1,2) by blast
qed

lemma plan_remediation_some:
  assumes ok: "planner_input_ok snap w" and plan: "plan_remediation snap d pol w pid pg = Inr (Some p)"
  shows "\<not> demand_fits free_bytes snap d"
proof
  assume "demand_fits free_bytes snap d"
  then have fits: "layouts_fit d (map free_bytes (map dev_layout (snap_devices snap)))"
    by (simp only: demand_fits_layouts)
  have "layouts_ok (map dev_layout (snap_devices snap))"
    using ok by (auto simp: planner_input_ok_def layouts_ok_def devices_ok_def comp_def)
  from eval_fit_spec [OF this] obtain s where "eval_fit (map dev_layout (snap_devices snap)) d = Inr s" "fit_state_ok d s"
    using fits by metis
  with plan show False by (simp add: plan_remediation_def Let_def)
qed

lemma plan_keys:
  assumes ok: "planner_input_ok snap w" and plan: "plan_remediation snap d pol w pid pg = Inr (Some p)"
  obtains ks where "list_all2 (action_for snap) ks (plan_actions p)" "distinct ks" "set ks \<subseteq> reclaim_keys snap"
    "layouts_fit d (free_without (set ks) snap)"
proof -
  have w: "weights_ok w" using ok by (simp add: planner_input_ok_def)
  have short: "\<not> layouts_fit d (free_without {} snap)"
    using plan_remediation_some [OF ok plan] by (simp add: demand_fits_layouts free_without_none)
  obtain ks acts fb where run: "list_all2 (action_for snap) ks acts" "distinct ks" "set ks \<subseteq> reclaim_keys snap"
    "\<forall>a \<in> set acts. action_disruption_ok a" "length acts \<le> 2 ^ 46"
    "sum_list (map (\<lambda>a. unat (act_expected_capacity_recovered a)) acts) < 2 ^ 64"
    "plan_remediation snap d pol w pid pg =
       (if layouts_fit d (free_without (set ks) snap)
        then chain (finish_plan pol w fb (start_plan snap pid pg\<lparr>plan_actions := acts\<rparr>)) (\<lambda>p. Inr (Some p))
        else Inr None)"
    using plan_remediation_run [OF ok short] by metis
  have fits: "layouts_fit d (free_without (set ks) snap)" using plan run(7) by (auto split: if_splits)
  obtain q where "finish_plan pol w fb (start_plan snap pid pg\<lparr>plan_actions := acts\<rparr>) = Inr q" "plan_actions q = acts"
    by (rule finish_plan_ok [OF w, where plan = "start_plan snap pid pg\<lparr>plan_actions := acts\<rparr>" and pol = pol and fb = fb])
      (use run in simp_all)
  with plan run(7) fits have "plan_actions p = acts" by simp
  with run fits that show thesis by blast
qed

section \<open>Properties\<close>

lemma demand_fits_without:
  "demand_fits free_bytes snap d \<longleftrightarrow> layouts_fit d (free_without {} snap)"
  "devices_ok snap \<Longrightarrow> demand_fits reclaim_free_bytes snap d \<longleftrightarrow> layouts_fit d (free_without (reclaim_keys snap) snap)"
  by (simp_all add: demand_fits_layouts free_without_none free_without_all)

lemma planner_total:
  assumes ok: "planner_input_ok snap w"
  shows "\<exists>r. plan_remediation snap d pol w pid pg = Inr r \<and>
    (r \<noteq> None \<longleftrightarrow> \<not> demand_fits free_bytes snap d \<and> demand_fits reclaim_free_bytes snap d)"
proof (cases "layouts_fit d (free_without {} snap)")
  case True
  have "devices_ok snap" using ok by (simp add: planner_input_ok_def)
  then have "layouts_ok (map dev_layout (snap_devices snap))" by (auto simp: layouts_ok_def devices_ok_def comp_def)
  then obtain s where "eval_fit (map dev_layout (snap_devices snap)) d = Inr s" "fit_state_ok d s"
    using eval_fit_spec True free_without_none by metis
  then have "plan_remediation snap d pol w pid pg = Inr None" by (simp add: plan_remediation_def Let_def)
  with True show ?thesis by (simp add: demand_fits_without)
next
  case False
  have dev: "devices_ok snap" and w: "weights_ok w" using ok by (simp_all add: planner_input_ok_def)
  obtain ks acts fb where run: "set ks \<subseteq> reclaim_keys snap" "\<forall>a \<in> set acts. action_disruption_ok a"
    "length acts \<le> 2 ^ 46" "sum_list (map (\<lambda>a. unat (act_expected_capacity_recovered a)) acts) < 2 ^ 64"
    "set ks = reclaim_keys snap \<or> layouts_fit d (free_without (set ks) snap)"
    "plan_remediation snap d pol w pid pg =
       (if layouts_fit d (free_without (set ks) snap)
        then chain (finish_plan pol w fb (start_plan snap pid pg\<lparr>plan_actions := acts\<rparr>)) (\<lambda>p. Inr (Some p))
        else Inr None)"
    using plan_remediation_run [OF ok False] by metis
  obtain p where "finish_plan pol w fb (start_plan snap pid pg\<lparr>plan_actions := acts\<rparr>) = Inr p"
    by (rule finish_plan_ok [OF w, of "start_plan snap pid pg\<lparr>plan_actions := acts\<rparr>"]) (use run in simp_all)
  moreover have "layouts_fit d (free_without (set ks) snap) \<longleftrightarrow> layouts_fit d (free_without (reclaim_keys snap) snap)"
    using run(1,5) free_without_mono by metis
  ultimately show ?thesis using run(6) False by (simp add: demand_fits_without dev)
qed



lemma default_weights_ok: "weights_ok default_weights"
  by (simp add: weights_ok_def default_weights_def unit_double_lit_range)

abbreviation sample_demand :: WorkloadDemand where
  "sample_demand \<equiv> default_demand\<lparr>dem_per_device_memory := 3000\<rparr>"

lemma sample_layout_allocations: "lay_allocations sample_layout = [(TypedId 1, sample_alloc 1 1024 512 MV_EVICTABLE)]"
  by code_simp

lemma sample_planner_input: "planner_input_ok sample_snapshot default_weights"
proof -
  have "length (collect_candidates sample_snapshot default_weights) \<le> 1"
    by (simp add: collect_candidates_def sample_snapshot_def sample_layout_allocations)
  then show ?thesis using sample_snapshot_ok default_weights_ok by (simp add: planner_input_ok_def snapshot_ok_def)
qed

lemma sample_demand_fits:
  "\<not> demand_fits free_bytes sample_snapshot sample_demand"
  "demand_fits reclaim_free_bytes sample_snapshot sample_demand"
proof -
  have "largest_free_block sample_layout = 2560" by code_simp
  then have "\<not> fits_in (free_bytes sample_layout) sample_demand"
    unfolding fits_in_def longest_run_iff [OF sample_layout_inv] by simp
  then show "\<not> demand_fits free_bytes sample_snapshot sample_demand"
    by (simp add: demand_fits_layouts layouts_fit_def sample_snapshot_def needed_devices_def default_demand_def)
  have "protected_bytes sample_layout = {}"
    by (simp add: protected_bytes_def sample_layout_allocations sample_alloc_def is_protected_def)
  then have "{0 ..< 0 + 3000} \<subseteq> reclaim_free_bytes sample_layout"
    by (auto simp: reclaim_free_bytes_def sample_layout_capacity)
  then have "fits_in (reclaim_free_bytes sample_layout) sample_demand"
    unfolding fits_in_def by (intro exI [of _ 0]) simp
  then show "demand_fits reclaim_free_bytes sample_snapshot sample_demand"
    by (simp add: demand_fits_layouts layouts_fit_def sample_snapshot_def needed_devices_def default_demand_def)
qed


lemma sample_plan_exists:
  "\<exists>p. plan_remediation sample_snapshot sample_demand default_policy default_weights (TypedId 1) (Generation 1) =
     Inr (Some p)"
  using planner_total [OF sample_planner_input, of sample_demand default_policy "TypedId 1" "Generation 1"]
    sample_demand_fits by auto


end
