(* ===== verification/Codec_Correct.thy ===== *)
theory Codec_Correct
  imports Codec
begin

text \<open>
  The state codec: the in-place patching of the encoder writes the scores where they belong, the
  decoder reads back what the encoder wrote, accepts only sealed and validated buffers, and saving is
  atomic.
\<close>

section \<open>The encoder as concatenation\<close>

lemma overwrite_window:
  assumes "n \<le> length xs"
  shows "fold (\<lambda>k buf. buf[length pre + k := f k]) [0 ..< n] (pre @ xs @ post) =
    pre @ map f [0 ..< n] @ drop n xs @ post"
  using assms
proof (induction n)
  case (Suc n)
  then have "drop n xs = xs ! n # drop (Suc n) xs" by (simp add: Cons_nth_drop_Suc)
  with Suc show ?case by (simp add: list_update_append)
qed simp

lemma overwrite_u64:
  assumes "length xs = 8"
  shows "fold (\<lambda>k buf. buf[length pre + k := ucast (drop_bit (8 * k) v AND 0xFF)]) [0 ..< 8] (pre @ xs @ post) =
    pre @ w_u64 v @ post"
  using overwrite_window [of 8 xs pre "\<lambda>k. ucast (drop_bit (8 * k) v AND 0xFF)" post] assms
  by (simp add: w_u64_def le_bytes_def)

lemma put_scores_append: "put_scores a b c d buf = buf @ w_u64 a @ w_u64 b @ w_u64 c @ w_u64 d"
proof -
  let ?z = "w_u64 0"
  have u: "[0 ..< 4] = [0, 1, 2, 3 :: nat]" by (simp add: upt_rec)
  have base: "length (buf @ ?z @ ?z @ ?z @ ?z) - 32 = length buf" by simp
  have "fold (\<lambda>k b'. b'[length buf + 0 * 8 + k := ucast (drop_bit (8 * k) a AND 0xFF)]) [0 ..< 8] (buf @ ?z @ ?z @ ?z @ ?z) =
      buf @ w_u64 a @ ?z @ ?z @ ?z"
    using overwrite_u64 [of ?z buf a "?z @ ?z @ ?z"] by simp
  moreover have "fold (\<lambda>k b'. b'[length buf + 1 * 8 + k := ucast (drop_bit (8 * k) b AND 0xFF)]) [0 ..< 8] (buf @ w_u64 a @ ?z @ ?z @ ?z) =
      buf @ w_u64 a @ w_u64 b @ ?z @ ?z"
    using overwrite_u64 [of ?z "buf @ w_u64 a" b "?z @ ?z"] by simp
  moreover have "fold (\<lambda>k b'. b'[length buf + 2 * 8 + k := ucast (drop_bit (8 * k) c AND 0xFF)]) [0 ..< 8] (buf @ w_u64 a @ w_u64 b @ ?z @ ?z) =
      buf @ w_u64 a @ w_u64 b @ w_u64 c @ ?z"
    using overwrite_u64 [of ?z "buf @ w_u64 a @ w_u64 b" c ?z] by (simp add: add.assoc)
  moreover have "fold (\<lambda>k b'. b'[length buf + 3 * 8 + k := ucast (drop_bit (8 * k) d AND 0xFF)]) [0 ..< 8] (buf @ w_u64 a @ w_u64 b @ w_u64 c @ ?z) =
      buf @ w_u64 a @ w_u64 b @ w_u64 c @ w_u64 d"
    using overwrite_u64 [of ?z "buf @ w_u64 a @ w_u64 b @ w_u64 c" d "[]"] by (simp add: add.assoc)
  ultimately show ?thesis
    unfolding put_scores_def overwrite_scores_def Let_def base u fold.simps comp_def id_apply
    by (simp only: nth_Cons_0 nth_Cons_Suc One_nat_def numeral_2_eq_2 numeral_3_eq_3)
qed

definition plan_bytes :: "PersistedPlan \<Rightarrow> u8 list" where
  "plan_bytes p =
    w_u64 (id_value (pp_id p)) @ w_u64 (gen_value (pp_generation p)) @
    w_u64 (id_value (pp_domain p)) @ w_u8 (enum_byte all_plan_state (pp_state p)) @
    w_opt (\<lambda>v. w_u8 (enum_byte all_verification_outcome v)) (pp_verification p) @
    w_u64 (gen_value (pp_policy_generation p)) @ w_u64 (gen_value (pp_epoch p)) @
    w_u64 (gen_value (pp_based_on_snapshot p)) @ w_u64 (pp_expected_capacity_recovered p) @
    w_u64 (pp_benefit p) @ w_u64 (pp_cost p) @ w_u64 (pp_risk p) @ w_u64 (pp_disruption p) @
    w_u32 (ucast (pp_action_count p)) @ w_size (length (pp_action_kinds p)) @
    w_list (\<lambda>k. w_u8 (enum_byte all_action_kind k)) (pp_action_kinds p)"

lemma put_persisted_plan_append: "put_persisted_plan p buf = buf @ plan_bytes p"
  by (simp add: put_persisted_plan_def put_scores_append plan_bytes_def)

lemma put_persisted_plans_append: "fold put_persisted_plan ps buf = buf @ w_list plan_bytes ps"
  by (induction ps arbitrary: buf) (simp_all add: put_persisted_plan_append w_list_def)

section \<open>Reading back\<close>

definition scores_finite :: "PersistedPlan \<Rightarrow> bool" where
  "scores_finite p \<longleftrightarrow> d_isfinite (pp_benefit p) \<and> d_isfinite (pp_cost p) \<and> d_isfinite (pp_risk p) \<and>
     d_isfinite (pp_disruption p)"

definition plan_fits :: "PersistedPlan \<Rightarrow> bool" where
  "plan_fits p \<longleftrightarrow> scores_finite p \<and> length (pp_action_kinds p) \<le> 1000000"

definition stored_plan :: "PersistedPlan \<Rightarrow> PersistedPlan" where
  "stored_plan p = p\<lparr>pp_action_count := ucast (ucast (pp_action_count p) :: u32)\<rparr>"

definition stored_reservation :: "Reservation \<Rightarrow> Reservation" where
  "stored_reservation r = r\<lparr>rv_provenance := PV_REPORTED\<rparr>"

lemma size_bound:
  assumes "n \<le> 1000000"
  shows "unat (of_nat n :: u32) = n" and "\<not> (of_nat n :: u32) > 1000000"
proof -
  show *: "unat (of_nat n :: u32) = n" using assms by (intro unat_size) simp
  show "\<not> (of_nat n :: u32) > 1000000" using assms by (simp add: word_less_nat_alt *)
qed

lemma check_finite_at: "d_isfinite v \<Longrightarrow> check_finite v which r = Inr (v, r)"
  by (simp add: check_finite_def)

lemma get_persisted_plan_at:
  assumes "plan_fits p"
  shows "get_persisted_plan (reader_at pre (plan_bytes p @ rest)) =
    Inr (stored_plan p, reader_at (pre @ plan_bytes p) rest)"
proof -
  have n: "length (pp_action_kinds p) \<le> 1000000" using assms by (simp add: plan_fits_def)
  show ?thesis
    using assms
    by (simp add: wire_action_kind.get_times get_persisted_plan_def plan_bytes_def rd_bind_def wire_simps rd_size_at size_bound [OF n]
        wire_verification.get_opt option.map_ident check_finite_at plan_fits_def scores_finite_def)
      (simp add: stored_plan_def)
qed

interpretation wire_plan: wire_codec plan_bytes get_persisted_plan plan_fits stored_plan
  by unfold_locales (rule get_persisted_plan_at)

interpretation wire_reservation: wire_codec put_persisted_reservation get_persisted_reservation
  "\<lambda>r. rv_start r < rv_end r" stored_reservation
  by unfold_locales
    (simp add: get_persisted_reservation_def put_persisted_reservation_def rd_bind_def wire_simps stored_reservation_def)

interpretation wire_stub: wire_codec put_verification_stub get_verification_stub "\<lambda>_. True" "\<lambda>v. v"
  by unfold_locales
    (simp add: get_verification_stub_def put_verification_stub_def rd_bind_def wire_simps wire_verification.get_put)

lemma get_counted_at:
  assumes "wire_codec put get fit view" and "\<forall>x \<in> set xs. fit x" and "length xs \<le> 1000000"
  shows "get_counted t e get (reader_at pre (w_size (length xs) @ w_list put xs @ rest)) =
    Inr (map view xs, reader_at (pre @ w_size (length xs) @ w_list put xs) rest)"
  using wire_codec.get_times [OF assms(1,2), of "pre @ w_size (length xs)" rest]
  by (simp add: get_counted_def rd_bind_def rd_size_at rd_simps size_bound [OF assms(3)])

lemmas codec_counted_at =
  get_counted_at [OF wire_plan.wire_codec_axioms] get_counted_at [OF wire_reservation.wire_codec_axioms]
  get_counted_at [OF wire_stub.wire_codec_axioms]

section \<open>The whole state\<close>

definition counts_ok :: "PersistedState \<Rightarrow> bool" where
  "counts_ok st \<longleftrightarrow> length (ps_plans st) \<le> 1000000 \<and> length (ps_reservations st) \<le> 1000000 \<and>
     length (ps_verification_history st) \<le> 1000000 \<and>
     (\<forall>p \<in> set (ps_plans st). length (pp_action_kinds p) \<le> 1000000)"

definition state_valid :: "PersistedState \<Rightarrow> bool" where
  "state_valid st \<longleftrightarrow> distinct (map pp_id (ps_plans st)) \<and> (\<forall>p \<in> set (ps_plans st). scores_finite p) \<and>
     (\<forall>r \<in> set (ps_reservations st). rv_start r < rv_end r)"

definition stored_state :: "PersistedState \<Rightarrow> PersistedState" where
  "stored_state st = st\<lparr>ps_plans := map stored_plan (ps_plans st),
     ps_reservations := map stored_reservation (ps_reservations st), ps_needs_revalidation := True\<rparr>"

definition recovered_state :: "PersistedState \<Rightarrow> PersistedState" where
  "recovered_state st = (stored_state st)\<lparr>ps_plans := map (degrade_plan \<circ> stored_plan) (ps_plans st)\<rparr>"

lemma decode_body_at:
  assumes "counts_ok st" and "state_valid st"
  shows "decode_body (reader_at [] (encode_body st @ rest)) = Inr (stored_state st, reader_at (encode_body st) rest)"
  using assms
  by (simp add: decode_body_def encode_body_def rd_bind_def wire_simps put_persisted_plans_append codec_counted_at
      counts_ok_def state_valid_def plan_fits_def)
    (simp add: stored_state_def)

lemma map_stored_plan_id: "map pp_id (map stored_plan ps) = map pp_id ps"
  by (simp add: stored_plan_def)

lemma decode_encode_bytes:
  assumes "counts_ok st" and "state_valid st"
  shows "decode_state (encode_bytes st) = Inr (recovered_state st)"
proof -
  have "distinct (map pp_id (ps_plans (stored_state st)))"
    using assms(2) by (simp add: stored_state_def stored_plan_def state_valid_def comp_def)
  then show ?thesis
    using decode_body_at [OF assms, of "w_u32 (crc32 (encode_body st))"]
    by (simp add: rd_u32_at [where rest = "[]", simplified] decode_state_def encode_bytes_def mk_Reader_at rd_bind_def rd_simps)
      (simp add: recovered_state_def stored_state_def)
qed

lemma map_filter_Nil: "List.map_filter f xs = [] \<longleftrightarrow> (\<forall>x \<in> set xs. f x = None)"
  by (induction xs) (simp_all add: map_filter_simps split: option.splits)

lemma first_objection_None: "first_objection f xs = None \<longleftrightarrow> (\<forall>x \<in> set xs. f x = None)"
  unfolding map_filter_Nil [symmetric] by (simp add: first_objection_def split: list.splits)

lemma plan_objection_None:
  "plan_objection p = None \<longleftrightarrow> scores_finite p \<and> (pp_state p = PS_COMPLETED \<longrightarrow> pp_verification p \<noteq> None)"
  by (auto simp: plan_objection_def scores_finite_def)

lemma encode_state_ok:
  "encode_state st = Inr bs \<longleftrightarrow> bs = encode_bytes st \<and>
     (\<forall>p \<in> set (ps_plans st). scores_finite p \<and> (pp_state p = PS_COMPLETED \<longrightarrow> pp_verification p \<noteq> None)) \<and>
     (\<forall>r \<in> set (ps_reservations st). rv_start r < rv_end r)"
proof -
  have p: "first_objection plan_objection (ps_plans st) = None \<longleftrightarrow>
      (\<forall>p \<in> set (ps_plans st). scores_finite p \<and> (pp_state p = PS_COMPLETED \<longrightarrow> pp_verification p \<noteq> None))"
    by (simp only: first_objection_None plan_objection_None)
  have r: "first_objection reservation_objection (ps_reservations st) = None \<longleftrightarrow>
      (\<forall>r \<in> set (ps_reservations st). rv_start r < rv_end r)"
    by (auto simp: first_objection_None reservation_objection_def not_le)
  show ?thesis unfolding p [symmetric] r [symmetric] by (auto simp: encode_state_def split: option.splits)
qed

section \<open>What the decoder accepts\<close>

lemma rd_keeps_check_finite [keeps_intros]: "rd_keeps (check_finite v w)"
  by (auto simp: rd_keeps_def check_finite_def)

lemma rd_keeps_codec [keeps_intros]:
  "rd_keeps get_persisted_plan" "rd_keeps get_persisted_reservation" "rd_keeps get_verification_stub"
  unfolding get_persisted_plan_def get_persisted_reservation_def get_verification_stub_def
  by (intro keeps_intros)+

lemma rd_keeps_counted [keeps_intros]: "rd_keeps p \<Longrightarrow> rd_keeps (get_counted t e p)"
  unfolding get_counted_def by (intro keeps_intros)

lemma rd_keeps_decode_body: "rd_keeps decode_body"
  unfolding decode_body_def by (intro keeps_intros)

lemma decode_state_InrE:
  assumes "decode_state bs = Inr s"
  obtains st r where "decode_body (mk_Reader bs) = Inr (st, r)" "distinct (map pp_id (ps_plans st))"
    "s = st\<lparr>ps_needs_revalidation := True, ps_plans := map degrade_plan (ps_plans st)\<rparr>" "crc_sealed bs"
proof -
  obtain y where "rd_bind decode_body (\<lambda>st.
      rd_bind (rd_guard (\<not> distinct (map pp_id (ps_plans st))) ''duplicate plan id'') (\<lambda>_.
      rd_bind (rd_check rd_err) (\<lambda>_ r.
      rd_bind (rd_guard (rd_pos r > length bs) ''oversized frame'') (\<lambda>_.
      rd_bind rd_u32 (\<lambda>stored_crc.
      rd_bind (rd_check (\<lambda>_. ''missing checksum'')) (\<lambda>_ r.
      rd_bind (rd_guard (stored_crc \<noteq> crc32 (take (rd_pos r - 4) bs)) ''checksum mismatch'') (\<lambda>_.
      rd_bind (rd_guard (rd_pos r \<noteq> length bs) ''trailing garbage'') (\<lambda>_.
      rd_return (st\<lparr>ps_needs_revalidation := True, ps_plans := map degrade_plan (ps_plans st)\<rparr>))) r))) r)))
      (mk_Reader bs) = Inr (s, y)"
    using assms unfolding decode_state_def
    by (cases rule: sum.exhaust [of "rd_bind _ _ _"]) (auto simp: map_sum_def split: sum.splits)
  then obtain st r c r' where 1: "decode_body (mk_Reader bs) = Inr (st, r)" "distinct (map pp_id (ps_plans st))"
    "(rd_u32 r :: string + _) = Inr (c, r')" "rd_ok r'" "c = crc32 (take (rd_pos r' - 4) bs)" "rd_pos r' = length bs"
    "s = st\<lparr>ps_needs_revalidation := True, ps_plans := map degrade_plan (ps_plans st)\<rparr>"
    by (elim rd_bind_InrE rd_guard_InrE rd_check_InrE, intro that) (assumption | simp add: rd_simps)+
  have p: "rd_p r = bs" "rd_pos r \<le> length bs"
    using rd_keeps_decode_body 1(1) unfolding rd_keeps_def by (fastforce simp: mk_Reader_def)+
  from 1(3,4) obtain w: "c = le_value (take 4 (drop (rd_pos r) bs))" "rd_pos r' = rd_pos r + 4" "4 \<le> length bs - rd_pos r"
    by (auto simp: rd_u32_def p elim: rd_word_InrE)
  have "crc_sealed bs" using w 1(5,6) by (simp add: crc_sealed_def)
  with 1 show thesis by (intro that)
qed

definition rd_gives :: "('e, 'a) rd \<Rightarrow> ('a \<Rightarrow> bool) \<Rightarrow> bool" where
  "rd_gives m P \<longleftrightarrow> (\<forall>r x r'. m r = Inr (x, r') \<longrightarrow> P x)"

lemma rd_times_all:
  assumes "rd_gives m P" and "rd_times n m r = Inr (xs, r')"
  shows "length xs = n \<and> (\<forall>x \<in> set xs. P x)"
  using assms(2)
proof (induction n arbitrary: r xs r')
  case 0
  then show ?case by (simp add: rd_return_def)
next
  case (Suc n)
  then obtain x r1 ys where "m r = Inr (x, r1)" "rd_times n m r1 = Inr (ys, r')" "xs = x # ys"
    by (auto elim!: rd_bind_InrE simp: rd_return_def)
  then show ?case using Suc.IH [of r1 ys r'] assms(1) by (auto simp: rd_gives_def)
qed

lemma get_counted_all:
  assumes "rd_gives m P" and "get_counted t e m r = Inr (xs, r')"
  shows "length xs \<le> 1000000 \<and> (\<forall>x \<in> set xs. P x)"
proof -
  obtain n :: u32 and r1 where n: "\<not> n > 1000000" "rd_times (unat n) m r1 = Inr (xs, r')"
    using assms(2) unfolding get_counted_def by (elim rd_bind_InrE rd_guard_InrE rd_check_InrE) simp
  from n(1) have "unat n \<le> 1000000" by (simp add: word_less_nat_alt)
  moreover have "length xs = unat n \<and> (\<forall>x \<in> set xs. P x)"
    by (rule rd_times_all [OF assms(1) n(2)])
  ultimately show ?thesis by simp
qed

lemma check_finite_InrE:
  assumes "check_finite v w r = Inr (x, r')" and "rd_ok r'"
  obtains "d_isfinite v" "x = v" "r' = r"
  using assms by (auto simp: check_finite_def split: if_splits)

lemma get_persisted_plan_fits: "rd_gives get_persisted_plan plan_fits"
  unfolding rd_gives_def
proof (intro allI impI)
  fix r p r' assume "get_persisted_plan r = Inr (p, r')"
  then obtain b c k d r0 r1 r2 r3 r4 b' c' k' d' r5 kinds r6 and m :: u32 where
    f: "check_finite b ''benefit'' r0 = Inr (b', r1)" "check_finite c ''cost'' r1 = Inr (c', r2)"
      "check_finite k ''risk'' r2 = Inr (k', r3)" "check_finite d ''disruption'' r3 = Inr (d', r4)" "rd_ok r4"
    and m: "\<not> m > 1000000" "rd_times (unat m) (rd_enum all_action_kind 18 ''invalid action kind enum'') r5 = Inr (kinds, r6)"
    and p: "pp_benefit p = b'" "pp_cost p = c'" "pp_risk p = k'" "pp_disruption p = d'" "pp_action_kinds p = kinds"
    unfolding get_persisted_plan_def
    by (elim rd_bind_InrE rd_guard_InrE rd_check_InrE) (auto simp: rd_return_def)
  from f have "scores_finite p"
    by (auto simp: scores_finite_def p elim!: check_finite_InrE)
  moreover have "length kinds = unat m" using rd_times_all [OF _ m(2), of "\<lambda>_. True"] by (simp add: rd_gives_def)
  ultimately show "plan_fits p" using m(1) by (simp add: plan_fits_def p word_less_nat_alt)
qed

lemma get_persisted_reservation_interval:
  "rd_gives get_persisted_reservation (\<lambda>v. rv_start v < rv_end v)"
  unfolding rd_gives_def get_persisted_reservation_def
  by (intro allI impI, elim rd_bind_InrE rd_guard_InrE rd_check_InrE) (auto simp: rd_return_def)

lemma decode_body_valid:
  assumes "decode_body r = Inr (st, r')"
  shows "counts_ok st" and "\<forall>p \<in> set (ps_plans st). scores_finite p"
    and "\<forall>v \<in> set (ps_reservations st). rv_start v < rv_end v" and "ps_needs_revalidation st"
proof -
  obtain r1 r2 r3 r4 r5 r6 t1 e1 t2 e2 t3 e3 where
    lists: "get_counted t1 e1 get_persisted_plan r1 = Inr (ps_plans st, r2)"
      "get_counted t2 e2 get_persisted_reservation r3 = Inr (ps_reservations st, r4)"
      "get_counted t3 e3 get_verification_stub r5 = Inr (ps_verification_history st, r6)"
    and rev: "ps_needs_revalidation st"
    using assms unfolding decode_body_def
    by (elim rd_bind_InrE rd_guard_InrE rd_check_InrE) (auto simp: rd_return_def)
  have any: "rd_gives get_verification_stub (\<lambda>_. True)" by (simp add: rd_gives_def)
  note get_counted_all [OF get_persisted_plan_fits lists(1)] get_counted_all [OF any lists(3)]
    get_counted_all [OF get_persisted_reservation_interval lists(2)]
  with rev show "counts_ok st" "\<forall>p \<in> set (ps_plans st). scores_finite p"
    "\<forall>v \<in> set (ps_reservations st). rv_start v < rv_end v" "ps_needs_revalidation st"
    by (auto simp: counts_ok_def plan_fits_def)
qed

lemma degrade_plan_simps:
  "pp_id (degrade_plan p) = pp_id p" "scores_finite (degrade_plan p) = scores_finite p"
  "pp_action_kinds (degrade_plan p) = pp_action_kinds p" "\<not> depends_on_live_state (pp_state (degrade_plan p))"
  by (simp_all add: degrade_plan_def scores_finite_def)

section \<open>Properties of the codec\<close>


definition sample_persisted_plan :: PersistedPlan where
  "sample_persisted_plan = \<lparr>pp_id = TypedId 7, pp_generation = Generation 7, pp_domain = TypedId 1,
     pp_state = PS_EXECUTING, pp_verification = None, pp_policy_generation = Generation 1,
     pp_epoch = Generation 1, pp_based_on_snapshot = Generation 1, pp_expected_capacity_recovered = 4096,
     pp_benefit = 0, pp_cost = 0, pp_risk = 0, pp_disruption = 0, pp_action_count = 1,
     pp_action_kinds = [AK_RELEASE_UNUSED]\<rparr>"

definition sample_persisted_state :: PersistedState where
  "sample_persisted_state = default_persisted_state\<lparr>ps_plans := [sample_persisted_plan]\<rparr>"

lemma zero_finite [simp]: "d_isfinite 0"
  by (simp add: d_isfinite_def d_exponent_def)

lemma sample_persisted_ok: "counts_ok sample_persisted_state" "state_valid sample_persisted_state"
  by (simp_all add: counts_ok_def state_valid_def scores_finite_def sample_persisted_state_def
      sample_persisted_plan_def default_persisted_state_def)

lemma sample_encode: "encode_state sample_persisted_state = Inr (encode_bytes sample_persisted_state)"
  unfolding encode_state_ok
  by (simp add: scores_finite_def sample_persisted_state_def sample_persisted_plan_def default_persisted_state_def)


text \<open>
  C22: The decoder rejects corruption.  When a buffer is accepted, no buffer that differs from it in
  a window of at most four consecutive bytes, anywhere, header and checksum included, is accepted.
\<close>

theorem decode_state_detects_corruption:
  assumes "decode_state (u @ w @ v) = Inr s" and "length w' = length w" "length w \<le> 4" "w' \<noteq> w"
  shows "\<exists>e. decode_state (u @ w' @ v) = Inl e"
proof (rule ccontr)
  assume "\<nexists>e. decode_state (u @ w' @ v) = Inl e"
  then obtain s' where "decode_state (u @ w' @ v) = Inr s'" by (cases "decode_state (u @ w' @ v)") auto
  then have "crc_sealed (u @ w' @ v)" by (rule decode_state_InrE)
  moreover have "crc_sealed (u @ w @ v)" using assms(1) by (rule decode_state_InrE)
  ultimately show False using crc_seal.burst assms(2-) by metis
qed

theorem decode_state_detects_corruption_witness:
  "\<exists>e. decode_state ((encode_bytes sample_persisted_state)[0 := 0xAA]) = Inl e"
proof -
  let ?bs = "encode_bytes sample_persisted_state"
  have d: "decode_state ?bs = Inr (recovered_state sample_persisted_state)"
    by (rule decode_encode_bytes [OF sample_persisted_ok])
  obtain c cs where bs: "?bs = c # cs" "c = 0x47"
    by (simp add: encode_bytes_def encode_body_def put_persisted_plans_append w_u32_def le_bytes_def upt_rec
        persistence_magic_def)
  show ?thesis using decode_state_detects_corruption [of "[]" "[c]" cs _ "[0xAA]"] d bs by simp
qed

text \<open>
  C25: The decoder validates.  Every state it returns has distinct plan ids, finite scores, proper
  reservation intervals, bounded lists, no plan in a state that depends on live evidence, and asks for
  revalidation.
\<close>

theorem decode_state_validates:
  assumes "decode_state bs = Inr s"
  shows "state_valid s \<and> counts_ok s \<and> ps_needs_revalidation s \<and>
    (\<forall>p \<in> set (ps_plans s). \<not> depends_on_live_state (pp_state p))"
proof -
  obtain st r where st: "decode_body (mk_Reader bs) = Inr (st, r)" "distinct (map pp_id (ps_plans st))"
    "s = st\<lparr>ps_needs_revalidation := True, ps_plans := map degrade_plan (ps_plans st)\<rparr>"
    using assms by (rule decode_state_InrE)
  show ?thesis
    using decode_body_valid [OF st(1)] st(2)
    by (auto simp: st(3) state_valid_def counts_ok_def degrade_plan_simps comp_def)
qed

theorem decode_state_validates_witness:
  "state_valid (recovered_state sample_persisted_state)"
  using decode_state_validates [OF decode_encode_bytes [OF sample_persisted_ok]] by blast

text \<open>
  The decoder does not reject everything the encoder refuses to write: a buffer that holds a
  \<open>COMPLETED\<close> plan without a verification outcome, which \<open>encode_state\<close> reports as an error, is
  accepted and the plan stays \<open>COMPLETED\<close>.
\<close>

theorem decode_state_accepts_unverified:
  "\<exists>st bs s p. encode_state st = Inl ''persisting COMPLETED plan without verification'' \<and>
     decode_state bs = Inr s \<and> p \<in> set (ps_plans s) \<and> pp_state p = PS_COMPLETED \<and> pp_verification p = None"
proof -
  let ?p = "sample_persisted_plan\<lparr>pp_state := PS_COMPLETED\<rparr>"
  let ?st = "default_persisted_state\<lparr>ps_plans := [?p]\<rparr>"
  have "counts_ok ?st" "state_valid ?st"
    by (simp_all add: counts_ok_def state_valid_def scores_finite_def sample_persisted_plan_def default_persisted_state_def)
  then have "decode_state (encode_bytes ?st) = Inr (recovered_state ?st)" by (rule decode_encode_bytes)
  moreover have "encode_state ?st = Inl ''persisting COMPLETED plan without verification''"
    by (simp add: encode_state_def first_objection_def plan_objection_def map_filter_simps sample_persisted_plan_def)
  moreover have "stored_plan ?p \<in> set (ps_plans (recovered_state ?st))"
    by (simp add: recovered_state_def stored_state_def degrade_plan_def stored_plan_def)
  ultimately show ?thesis by (intro exI conjI) (assumption | simp add: stored_plan_def sample_persisted_plan_def)+
qed

section \<open>Saving and loading\<close>



definition sample_host :: host where
  "sample_host = \<lparr>h_can_open = (\<lambda>_. True), h_fwrite = (\<lambda>n. n), h_fread = (\<lambda>n. n), h_rename_replaces = False\<rparr>"


text \<open>
  On a host whose \<open>std::rename\<close> does not replace an existing file, as the platform the source is
  written for documents, a state can be saved only once under a path: every later save of an encodable
  state fails and the old state stays.
\<close>

theorem save_state_no_overwrite:
  assumes "\<not> h_rename_replaces h" and "fs path = Some old" and "encode_state st = Inr bs"
  shows "\<exists>e fs'. save_state h st path fs = (Inl e, fs') \<and> fs' path = Some old"
  using assms by (auto simp: save_state_def h_rename_def Let_def)

theorem save_state_no_overwrite_witness:
  "\<exists>e fs'. save_state sample_host sample_persisted_state ''a'' [''a'' \<mapsto> []] = (Inl e, fs') \<and> fs' ''a'' = Some []"
  by (rule save_state_no_overwrite [OF _ _ sample_encode]) (simp_all add: sample_host_def)

end
