(* ===== verification/Protocol_Correct.thy ===== *)
theory Protocol_Correct
  imports Protocol Planner_Scores
begin

text \<open>
  The wire protocol: what the payload codec carries of a message, that frames are read back exactly,
  however the stream is cut into chunks, and that no corrupted frame is accepted.
\<close>

section \<open>Counted lists and scores\<close>

lemma rd_counted_at:
  assumes "wire_codec put get fit view" and "\<forall>x \<in> set xs. fit x" and "length xs \<le> unat bound"
  shows "rd_counted bound get (reader_at pre (w_counted put xs @ rest)) =
    Inr (map view xs, reader_at (pre @ w_counted put xs) rest)"
proof -
  have "unat bound < 2 ^ 32" using unsigned_less [of bound] by simp
  with assms(3) have n: "unat (of_nat (length xs) :: u32) = length xs" by (intro unat_size) simp
  with assms(3) have "\<not> of_nat (length xs) > bound" by (simp add: word_less_nat_alt)
  then show ?thesis
    using wire_codec.get_times [OF assms(1,2), of "pre @ w_size (length xs)" rest]
    by (simp add: rd_counted_def w_counted_def rd_bind_def rd_size_at rd_simps n)
qed

lemma rd_score_at:
  "unit_double v \<Longrightarrow> rd_score (reader_at pre (w_u64 v @ rest)) = Inr (v, reader_at (pre @ w_u64 v) rest)"
  by (simp add: rd_score_def mk_HealthyScore_unit rd_bind_def rd_u64_at rd_simps)

section \<open>The parts of a message\<close>

lemma map_option_cancel [simp]: "map_option TypedId (map_option id_value x) = x"
  by (cases x) simp_all

lemma map_cancel [simp]: "map (TypedId \<circ> id_value) xs = xs"
  by (induction xs) simp_all

lemmas wire_part_simps = rd_bind_def wire_simps wire_u64.get_opt wire_verification.get_opt option.map_ident

interpretation wire_alloc: wire_codec put_alloc get_alloc "\<lambda>_. True" "\<lambda>a. a"
  by unfold_locales (simp add: get_alloc_def put_alloc_def wire_part_simps)

interpretation wire_resource: wire_codec put_resource get_resource "\<lambda>_. True" "\<lambda>r. r"
  by unfold_locales (simp add: get_resource_def put_resource_def wire_part_simps)

interpretation wire_demand: wire_codec put_demand get_demand
  "\<lambda>d. \<not> elastic_inverted (dem_elastic_min d) (dem_elastic_max d)" "\<lambda>d. d"
  by unfold_locales (simp add: get_demand_def put_demand_def wire_part_simps)

definition strings_fit :: "string list \<Rightarrow> bool" where
  "strings_fit ss \<longleftrightarrow> length ss \<le> 1000 \<and> (\<forall>s \<in> set ss. length s < 2 ^ 32)"

lemma rd_strings_at:
  "strings_fit ss \<Longrightarrow> rd_counted 1000 rd_str (reader_at pre (w_counted w_str ss @ rest)) =
    Inr (ss, reader_at (pre @ w_counted w_str ss) rest)"
  using rd_counted_at [OF wire_str.wire_codec_axioms, of ss 1000] by (simp add: strings_fit_def)

definition action_fits :: "PlanAction \<Rightarrow> bool" where
  "action_fits a \<longleftrightarrow> length (act_affected_allocations a) \<le> 100000 \<and>
     strings_fit (act_required_preconditions a) \<and> strings_fit (act_proof_obligations a) \<and>
     unit_double (act_expected_fit_improvement a) \<and> unit_double (act_cost a) \<and> unit_double (act_risk a) \<and> unit_double (act_disruption a)"

definition action_view :: "PlanAction \<Rightarrow> PlanAction" where
  "action_view a = a\<lparr>act_generations := default_generations\<rparr>"

lemma rd_affected_at:
  "length xs \<le> 100000 \<Longrightarrow> rd_counted 100000 rd_u64 (reader_at pre (w_counted w_u64 xs @ rest)) =
    Inr (xs, reader_at (pre @ w_counted w_u64 xs) rest)"
  using rd_counted_at [OF wire_u64.wire_codec_axioms, of xs 100000] by simp

interpretation wire_action: wire_codec put_action get_action action_fits action_view
  by unfold_locales
    (simp add: get_action_def put_action_def wire_part_simps action_fits_def rd_score_at rd_strings_at rd_affected_at,
     simp add: action_view_def default_action_def)

definition plan_wire_fits :: "RemediationPlan \<Rightarrow> bool" where
  "plan_wire_fits p \<longleftrightarrow> length (plan_actions p) \<le> 100000 \<and> (\<forall>a \<in> set (plan_actions p). action_fits a) \<and>
     unit_double (plan_expected_fit_improvement p) \<and> unit_double (plan_benefit p) \<and> unit_double (plan_cost p) \<and>
     unit_double (plan_risk p) \<and> unit_double (plan_disruption p) \<and> strings_fit (plan_factor_explanation p) \<and>
     strings_fit (plan_precondition_failures p)"

definition plan_view :: "RemediationPlan \<Rightarrow> RemediationPlan" where
  "plan_view p = p\<lparr>plan_actions := map action_view (plan_actions p)\<rparr>"

lemma rd_actions_at:
  "length xs \<le> 100000 \<Longrightarrow> \<forall>a \<in> set xs. action_fits a \<Longrightarrow>
    rd_counted 100000 get_action (reader_at pre (w_counted put_action xs @ rest)) =
    Inr (map action_view xs, reader_at (pre @ w_counted put_action xs) rest)"
  using rd_counted_at [OF wire_action.wire_codec_axioms, of xs 100000] by simp

interpretation wire_rplan: wire_codec put_plan get_plan plan_wire_fits plan_view
  by unfold_locales
    (simp add: get_plan_def put_plan_def wire_part_simps plan_wire_fits_def rd_score_at rd_strings_at rd_actions_at,
     simp add: plan_view_def)

lemma rd_allocs_at:
  "length xs \<le> 100000 \<Longrightarrow> rd_counted 100000 get_alloc (reader_at pre (w_counted put_alloc xs @ rest)) =
    Inr (xs, reader_at (pre @ w_counted put_alloc xs) rest)"
  using rd_counted_at [OF wire_alloc.wire_codec_axioms, of xs 100000] by simp

section \<open>Payloads\<close>

text \<open>What the wire carries of a message: the fields of its type and the footer.\<close>

fun fields_view :: "MsgType \<Rightarrow> Message \<Rightarrow> Message" where
  "fields_view MT_REGISTER m = default_message\<lparr>msg_worker_id := msg_worker_id m,
     msg_worker_boot := msg_worker_boot m, msg_epoch := msg_epoch m\<rparr>"
| "fields_view MT_PUBLISH_RESOURCE m = default_message\<lparr>msg_worker_id := msg_worker_id m,
     msg_worker_boot := msg_worker_boot m, msg_epoch := msg_epoch m, msg_resource := msg_resource m\<rparr>"
| "fields_view MT_PUBLISH_LAYOUT m = default_message\<lparr>msg_worker_id := msg_worker_id m,
     msg_worker_boot := msg_worker_boot m, msg_epoch := msg_epoch m,
     msg_resource := default_resource\<lparr>res_id := res_id (msg_resource m)\<rparr>,
     msg_resource_gen := msg_resource_gen m, msg_allocations := msg_allocations m\<rparr>"
| "fields_view MT_PUBLISH_ALLOCATION m = default_message\<lparr>msg_worker_id := msg_worker_id m,
     msg_worker_boot := msg_worker_boot m, msg_epoch := msg_epoch m,
     msg_resource := default_resource\<lparr>res_id := res_id (msg_resource m)\<rparr>, msg_allocation := msg_allocation m\<rparr>"
| "fields_view MT_INVALIDATE_ALLOCATION m = default_message\<lparr>msg_worker_id := msg_worker_id m,
     msg_worker_boot := msg_worker_boot m, msg_epoch := msg_epoch m,
     msg_allocation_id := msg_allocation_id m, msg_new_generation := msg_new_generation m\<rparr>"
| "fields_view MT_QUERY_FRAGMENTATION m = default_message\<lparr>msg_epoch := msg_epoch m\<rparr>"
| "fields_view MT_QUERY_FIT m = default_message\<lparr>msg_epoch := msg_epoch m, msg_demand := msg_demand m\<rparr>"
| "fields_view MT_CREATE_PLAN m = default_message\<lparr>msg_epoch := msg_epoch m,
     msg_policy_gen := msg_policy_gen m, msg_demand := msg_demand m\<rparr>"
| "fields_view MT_PLAN_RESULT m = default_message\<lparr>msg_plan := plan_view (msg_plan m)\<rparr>"
| "fields_view MT_APPROVE_PLAN m = default_message\<lparr>msg_plan_id := msg_plan_id m,
     msg_plan_gen := msg_plan_gen m, msg_policy_gen := msg_policy_gen m\<rparr>"
| "fields_view MT_BEGIN_ACTION m = default_message\<lparr>msg_plan_id := msg_plan_id m,
     msg_plan_gen := msg_plan_gen m, msg_action_index := msg_action_index m, msg_epoch := msg_epoch m,
     msg_policy_gen := msg_policy_gen m\<rparr>"
| "fields_view MT_ACTION_COMPLETE m = default_message\<lparr>msg_plan_id := msg_plan_id m,
     msg_action_index := msg_action_index m, msg_action_ok := msg_action_ok m,
     msg_new_generation := msg_new_generation m\<rparr>"
| "fields_view MT_VERIFY m = default_message\<lparr>msg_plan_id := msg_plan_id m, msg_plan_gen := msg_plan_gen m\<rparr>"
| "fields_view MT_CANCEL_PLAN m = default_message\<lparr>msg_plan_id := msg_plan_id m, msg_plan_gen := msg_plan_gen m\<rparr>"
| "fields_view MT_ADVANCE_GENERATION m = default_message\<lparr>msg_generation_kind := msg_generation_kind m,
     msg_gen_value := msg_gen_value m\<rparr>"
| "fields_view MT_REVALIDATE m = default_message\<lparr>msg_plan_id := msg_plan_id m, msg_plan_gen := msg_plan_gen m\<rparr>"
| "fields_view MT_ERROR m = default_message\<lparr>msg_error := msg_error m\<rparr>"
| "fields_view MT_HELLO m = default_message"
| "fields_view MT_SAVE m = default_message"
| "fields_view MT_SHUTDOWN m = default_message"

definition message_view :: "Message \<Rightarrow> Message" where
  "message_view m = (fields_view (msg_type m) m)\<lparr>msg_type := msg_type m, msg_ok := msg_ok m,
     msg_fit_outcome := msg_fit_outcome m, msg_verification_outcome := msg_verification_outcome m,
     msg_detail := msg_detail m\<rparr>"

fun fields_fit :: "MsgType \<Rightarrow> Message \<Rightarrow> bool" where
  "fields_fit MT_PUBLISH_LAYOUT m = (length (msg_allocations m) \<le> 100000)"
| "fields_fit MT_QUERY_FIT m = (\<not> elastic_inverted (dem_elastic_min (msg_demand m)) (dem_elastic_max (msg_demand m)))"
| "fields_fit MT_CREATE_PLAN m = (\<not> elastic_inverted (dem_elastic_min (msg_demand m)) (dem_elastic_max (msg_demand m)))"
| "fields_fit MT_PLAN_RESULT m = plan_wire_fits (msg_plan m)"
| "fields_fit MT_ERROR m = (length (msg_error m) < 2 ^ 32)"
| "fields_fit _ m = True"

definition message_fits :: "Message \<Rightarrow> bool" where
  "message_fits m \<longleftrightarrow> fields_fit (msg_type m) m \<and> length (msg_detail m) < 2 ^ 32"

lemma get_fields_at:
  "fields_fit t m \<Longrightarrow> get_fields t (reader_at pre (put_fields t m @ rest)) =
    Inr ((fields_view t m)\<lparr>msg_type := t\<rparr>, reader_at (pre @ put_fields t m) rest)"
  by (cases t)
    (simp_all add: rd_bind_def wire_simps wire_resource.get_put wire_alloc.get_put wire_demand.get_put
      wire_rplan.get_put rd_allocs_at rd_str_at)

lemma enum_byte_in_range:
  "\<not> enum_byte all_msg_type t > 19" "all_msg_type ! unat (enum_byte all_msg_type t) = t"
proof -
  have "enum_of_byte all_msg_type (enum_byte all_msg_type t) = Some t" by (intro enum_of_byte_enum_byte) simp_all
  then have "unat (enum_byte all_msg_type t) < 20" and eq: "all_msg_type ! unat (enum_byte all_msg_type t) = t"
    by (auto simp: enum_of_byte_def split: if_splits)
  then show "\<not> enum_byte all_msg_type t > 19" by (simp add: word_less_nat_alt)
  show "all_msg_type ! unat (enum_byte all_msg_type t) = t" by (rule eq)
qed

lemma decode_encode_payload:
  assumes "message_fits m"
  shows "decode_payload (encode_payload m) = Inr (Some (message_view m))"
  using assms
  by (simp add: decode_payload_def get_message_def get_footer_def encode_payload_def mk_Reader_at rd_bind_def wire_simps
      enum_byte_in_range message_fits_def get_fields_at rd_str_at [where rest = "[]", simplified] decode_outcome_def)
    (simp add: message_view_def)

section \<open>Frames\<close>

definition payload_fits :: "Message \<Rightarrow> bool" where
  "payload_fits m \<longleftrightarrow> message_fits m \<and> length (encode_payload m) \<le> 16777216"

lemma payload_size:
  assumes "n \<le> 16777216"
  shows "unat (of_nat n :: u32) = n" and "\<not> (of_nat n :: u32) > protocol_max_payload"
    and "unat (12 + (of_nat n :: u32)) = 12 + n" and "unat (16 + (of_nat n :: u32)) = 16 + n"
proof -
  show *: "unat (of_nat n :: u32) = n" using assms by (intro unat_size) simp
  show "\<not> (of_nat n :: u32) > protocol_max_payload"
    using assms by (simp add: word_less_nat_alt * protocol_max_payload_def)
  have "unat (of_nat (12 + n) :: u32) = 12 + n" "unat (of_nat (16 + n) :: u32) = 16 + n"
    using assms by (intro unat_size; simp)+
  then show "unat (12 + (of_nat n :: u32)) = 12 + n" "unat (16 + (of_nat n :: u32)) = 16 + n"
    by (simp_all only: of_nat_add of_nat_numeral)
qed

lemma w_list_u8: "w_list w_u8 bs = bs"
  by (induction bs) (simp_all add: w_list_def w_u8_def)

interpretation wire_u8: wire_codec w_u8 rd_u8 "\<lambda>_. True" "\<lambda>b. b"
  by unfold_locales (rule rd_u8_at)

lemma rd_bytes_at: "rd_times (length bs) rd_u8 (reader_at pre (bs @ rest)) = Inr (bs, reader_at (pre @ bs) rest)"
  using wire_u8.get_times [of bs] by (simp add: w_list_u8)

lemma length_frame_encode: "length (frame_encode m) = 16 + length (encode_payload m)"
  by (simp add: frame_encode_def Let_def)

lemma frame_encode_sealed: "crc_sealed (frame_encode m)"
  unfolding frame_encode_def Let_def by (rule crc_sealed_append)

lemma frame_decode_payload:
  assumes n: "length (encode_payload m) \<le> 16777216"
  shows "frame_decode (frame_encode m) = decode_payload (encode_payload m)"
proof -
  let ?p = "encode_payload m"
  let ?out = "w_u32 protocol_magic @ w_u32 protocol_version @ w_size (length ?p) @ ?p"
  have f: "frame_encode m = ?out @ w_u32 (crc32 ?out)" by (simp add: frame_encode_def Let_def)
  have "get_frame (frame_encode m) (mk_Reader (frame_encode m)) = Inr (?p, reader_at (frame_encode m) [])"
    unfolding get_frame_def f mk_Reader_at
    by (simp add: rd_bind_def rd_u32_at rd_size_at rd_simps payload_size [OF n] rd_bytes_at
        rd_u32_at [where rest = "[]", simplified])
  then show ?thesis by (simp add: frame_decode_def length_frame_encode decode_outcome_def)
qed

lemma frame_decode_encode:
  assumes "payload_fits m"
  shows "frame_decode (frame_encode m) = Inr (Some (message_view m))"
  using assms frame_decode_payload [of m] decode_encode_payload [of m] by (simp add: payload_fits_def)

lemma rd_u8_ok:
  assumes "rd_u8 r = Inr (x, r')" and "rd_ok r'"
  shows "r' = r\<lparr>rd_pos := rd_pos r + 1\<rparr>"
  using assms by (auto simp: rd_u8_def rd_range_def split: if_splits)

lemma rd_bytes_ok:
  "(rd_times n rd_u8 r :: 'e + _) = Inr (xs, r') \<Longrightarrow> rd_ok r' \<Longrightarrow> rd_pos r \<le> length (rd_p r) \<Longrightarrow>
   rd_pos r' = rd_pos r + n \<and> rd_p r' = rd_p r"
proof (induction n arbitrary: r xs)
  case 0
  then show ?case by (simp add: rd_return_def)
next
  case (Suc n)
  from Suc.prems(1) obtain x r1 ys where 1: "(rd_u8 r :: 'e + _) = Inr (x, r1)"
    "(rd_times n rd_u8 r1 :: 'e + _) = Inr (ys, r')"
    by (auto elim!: rd_bind_InrE simp: rd_return_def)
  have keep: "rd_keeps (rd_u8 :: ('e, u8) rd)" "rd_keeps (rd_times n rd_u8 :: ('e, u8 list) rd)"
    by (intro keeps_intros)+
  from keep(1) 1(1) Suc.prems(3) have r1: "rd_p r1 = rd_p r" "rd_pos r1 \<le> length (rd_p r1)"
    unfolding rd_keeps_def by metis+
  with keep(2) 1(2) Suc.prems(2) have "rd_ok r1" unfolding rd_keeps_def by metis
  then have "r1 = r\<lparr>rd_pos := rd_pos r + 1\<rparr>" by (rule rd_u8_ok [OF 1(1)])
  then show ?case using Suc.IH [OF 1(2) Suc.prems(2) r1(2)] by simp
qed

lemma rd_u32_room:
  assumes "rd_u32 r = Inr (x, r')" and "4 \<le> length (rd_p r) - rd_pos r"
  shows "r' = r\<lparr>rd_pos := rd_pos r + 4\<rparr>"
  using assms by (auto simp: rd_u32_def rd_word_def rd_range_def split: if_splits)

text \<open>Readers whose only early exit is \<open>Malformed\<close>: no exception escapes from them.\<close>

definition no_throw :: "(decode_stop, 'a) rd \<Rightarrow> bool" where
  "no_throw m \<longleftrightarrow> (\<forall>r e. m r = Inl e \<longrightarrow> e = Malformed)"

named_theorems no_throw_intros

lemma no_throw_basic [no_throw_intros]:
  "no_throw (rd_return x)" "no_throw (rd_stop Malformed)" "no_throw (rd_guard b Malformed)"
  "no_throw (rd_check (\<lambda>_. Malformed))"
  by (simp_all add: no_throw_def rd_return_def rd_stop_def rd_guard_def rd_check_def)

lemma no_throw_bind [no_throw_intros]: "no_throw m \<Longrightarrow> (\<And>x. no_throw (f x)) \<Longrightarrow> no_throw (rd_bind m f)"
  unfolding no_throw_def rd_bind_def by (auto split: sum.splits)

lemma no_throw_if [no_throw_intros]: "no_throw a \<Longrightarrow> no_throw b \<Longrightarrow> no_throw (if c then a else b)"
  by simp

lemma no_throw_reads [no_throw_intros]: "no_throw rd_u8" "no_throw rd_u32" "no_throw rd_u64"
  by (auto simp: no_throw_def rd_u8_def rd_u32_def rd_u64_def rd_word_def rd_range_def split: if_splits)

lemma no_throw_str [no_throw_intros]: "no_throw rd_str"
  unfolding rd_str_def
  by (rule no_throw_bind [OF no_throw_reads(2)]) (auto simp: no_throw_def rd_range_def split: if_splits)

lemma no_throw_b1 [no_throw_intros]: "no_throw rd_b1"
  unfolding rd_b1_def by (intro no_throw_intros)

lemma no_throw_enum [no_throw_intros]: "no_throw (rd_enum all hi Malformed)"
  unfolding rd_enum_def by (intro no_throw_intros)

lemma no_throw_opt [no_throw_intros]: "no_throw p \<Longrightarrow> no_throw (rd_opt p)"
  unfolding rd_opt_def by (intro no_throw_intros)

lemma no_throw_times [no_throw_intros]: "no_throw p \<Longrightarrow> no_throw (rd_times n p)"
  by (induction n) (auto intro!: no_throw_intros)

lemma no_throw_counted [no_throw_intros]: "no_throw p \<Longrightarrow> no_throw (rd_counted b p)"
  unfolding rd_counted_def by (intro no_throw_intros)

lemma no_throw_parts [no_throw_intros]: "no_throw get_alloc" "no_throw get_demand" "no_throw get_resource"
  unfolding get_alloc_def get_demand_def get_resource_def by (intro no_throw_intros)+

lemma no_throw_fields: "t \<noteq> MT_PLAN_RESULT \<Longrightarrow> no_throw (get_fields t)"
  by (cases t) (auto intro!: no_throw_intros)

lemma no_throw_frame: "no_throw (get_frame data)"
  unfolding get_frame_def by (intro no_throw_intros)

lemma get_frame_sealed:
  assumes "get_frame data (mk_Reader data) = Inr (payload, r)" and "16 \<le> length data"
  shows "crc_sealed data"
proof -
  obtain plen stored :: u32 and m v r1 r2 r3 r4 r5 where
    1: "(rd_u32 (mk_Reader data) :: decode_stop + _) = Inr (m, r1)" "(rd_u32 r1 :: decode_stop + _) = Inr (v, r2)"
      "(rd_u32 r2 :: decode_stop + _) = Inr (plen, r3)" "rd_ok r3"
    and plen: "\<not> plen > protocol_max_payload" "length data = unat (12 + plen + 4)"
    and 2: "(rd_times (unat plen) rd_u8 r3 :: decode_stop + _) = Inr (payload, r4)"
      "(rd_u32 r4 :: decode_stop + _) = Inr (stored, r5)" "rd_ok r5"
    and crc: "stored = crc32 (take (unat (12 + plen)) data)"
    using assms(1) unfolding get_frame_def
    by (elim rd_bind_InrE rd_guard_InrE rd_check_InrE) (auto simp: rd_return_def)
  have r3: "rd_p r3 = data" "rd_pos r3 = 12"
  proof -
    have "r1 = (mk_Reader data)\<lparr>rd_pos := 4\<rparr>" using rd_u32_room [OF 1(1)] assms(2) by (simp add: mk_Reader_def)
    then have "r2 = (mk_Reader data)\<lparr>rd_pos := 8\<rparr>" using rd_u32_room [OF 1(2)] assms(2) by (simp add: mk_Reader_def)
    then show "rd_p r3 = data" "rd_pos r3 = 12" using rd_u32_room [OF 1(3)] assms(2) by (simp_all add: mk_Reader_def)
  qed
  have "rd_ok r4" using rd_keeps_u32 2(2,3) r3 rd_bytes_ok [OF 2(1)]
    by (auto simp: rd_u32_def rd_word_def rd_range_def split: if_splits)
  then have r4: "rd_pos r4 = 12 + unat plen" "rd_p r4 = data" using rd_bytes_ok [OF 2(1)] r3 assms(2) by simp_all
  have "unat plen \<le> 16777216" using plen(1) by (simp add: word_less_nat_alt protocol_max_payload_def)
  from payload_size [OF this] have sz: "unat (12 + plen) = 12 + unat plen" "unat (12 + plen + 4) = 16 + unat plen"
    by simp_all
  from 2(2,3) have "stored = le_value (take 4 (drop (12 + unat plen) data))"
    by (auto simp: rd_u32_def r4 elim: rd_word_InrE)
  then show ?thesis using plen(2) sz crc by (simp add: crc_sealed_def)
qed

lemma frame_decode_sealed:
  assumes "frame_decode data \<noteq> Inr None"
  shows "crc_sealed data"
proof -
  have "16 \<le> length data" using assms by (auto simp: frame_decode_def split: if_splits)
  moreover obtain p r where "get_frame data (mk_Reader data) = Inr (p, r)"
  proof (cases "get_frame data (mk_Reader data)")
    case (Inl e)
    then have "e = Malformed" using no_throw_frame unfolding no_throw_def by blast
    then show ?thesis using assms Inl by (simp add: frame_decode_def decode_outcome_def split: if_splits)
  qed auto
  ultimately show ?thesis by (intro get_frame_sealed)
qed

section \<open>The streaming decoder\<close>

fun feed_all :: "u8 list \<Rightarrow> u8 list list \<Rightarrow> Message option res list \<times> u8 list" where
  "feed_all buf [] = ([], buf)"
| "feed_all buf (c # cs) =
    (case feed buf c of (r, buf') \<Rightarrow> (case feed_all buf' cs of (rs, buf'') \<Rightarrow> (r # rs, buf'')))"

lemma frame_length_field:
  assumes "prefix @ suffix = frame_encode m @ rest" and "12 \<le> length prefix"
  shows "(le_value (take 4 (drop 8 prefix)) :: u32) = of_nat (length (encode_payload m))"
proof -
  have "take 4 (drop 8 prefix) = take 4 (drop 8 (prefix @ suffix))" using assms(2) by simp
  also have "\<dots> = w_size (length (encode_payload m))"
    unfolding assms(1) by (simp add: frame_encode_def Let_def)
  finally show ?thesis by (simp add: w_size_def w_u32_def le_value_le_bytes)
qed

lemma feed_partial:
  assumes m: "payload_fits m" and pre: "buf @ data @ suffix = frame_encode m" and "suffix \<noteq> []"
  shows "feed buf data = (Inr None, buf @ data)"
proof -
  have n: "length (encode_payload m) \<le> 16777216" using m by (simp add: payload_fits_def)
  have len: "length (buf @ data) < 16 + length (encode_payload m)"
    using arg_cong [OF pre, of length] assms(3) by (cases suffix) (simp_all add: length_frame_encode)
  show ?thesis
  proof (cases "length (buf @ data) < 16")
    case True
    then show ?thesis by (simp add: feed_def)
  next
    case False
    then have "(le_value (take 4 (drop 8 (buf @ data))) :: u32) = of_nat (length (encode_payload m))"
      using frame_length_field [of "buf @ data" suffix m "[]"] pre by simp
    then show ?thesis
      using False len payload_size [OF n] unfolding feed_def Let_def by simp
  qed
qed

lemma feed_frame:
  assumes n: "length (encode_payload m) \<le> 16777216" and pre: "buf @ data = frame_encode m @ rest"
  shows "feed buf data =
    (case decode_payload (encode_payload m) of Inl e \<Rightarrow> (Inl e, frame_encode m @ rest) | Inr x \<Rightarrow> (Inr x, rest))"
proof -
  have f: "(le_value (take 4 (drop 8 (frame_encode m @ rest))) :: u32) = of_nat (length (encode_payload m))"
    using frame_length_field [of "frame_encode m @ rest" "[]" m rest] by (simp add: length_frame_encode)
  have "take (16 + length (encode_payload m)) (frame_encode m @ rest) = frame_encode m"
    "drop (16 + length (encode_payload m)) (frame_encode m @ rest) = rest"
    by (simp_all add: length_frame_encode)
  then show ?thesis
    using payload_size [OF n] f frame_decode_payload [OF n] unfolding feed_def Let_def pre
    by (simp add: length_frame_encode del: take_append drop_append split: sum.split)
qed

lemma feed_complete:
  assumes m: "payload_fits m" and pre: "buf @ data = frame_encode m @ rest"
  shows "feed buf data = (Inr (Some (message_view m)), rest)"
  using feed_frame [OF _ pre] m decode_encode_payload [of m] by (simp add: payload_fits_def)

lemma feed_all_partial:
  assumes "payload_fits m" and "buf @ concat cs @ suffix = frame_encode m" and "suffix \<noteq> []"
  shows "feed_all buf cs = (replicate (length cs) (Inr None), buf @ concat cs)"
  using assms(2)
proof (induction cs arbitrary: buf)
  case (Cons c cs)
  then have "feed buf c = (Inr None, buf @ c)" by (intro feed_partial [OF assms(1), of _ _ "concat cs @ suffix"]) (simp_all add: assms(3))
  then show ?case using Cons.IH [of "buf @ c"] Cons.prems by simp
qed simp

lemma feed_all_append:
  "feed_all buf (cs @ ds) = (case feed_all buf cs of (rs, b) \<Rightarrow> (case feed_all b ds of (qs, b') \<Rightarrow> (rs @ qs, b')))"
  by (induction cs arbitrary: buf) (simp_all split: prod.splits)

section \<open>Properties\<close>

text \<open>
  C20: A framed message is read back.  For every message within the limits of the decoder (list counts,
  a payload of at most 16 MiB, scores in \<open>[0, 1]\<close>, no inverted elastic bounds), \<open>frame_decode\<close> of
  \<open>frame_encode\<close> returns exactly what the wire carries of it: the fields of its type, the footer, and
  of the actions of a plan everything but their generations.
\<close>

theorem frame_roundtrip:
  assumes "payload_fits m"
  shows "frame_decode (frame_encode m) = Inr (Some (message_view m))"
  by (rule frame_decode_encode [OF assms])

definition sample_message :: Message where
  "sample_message = default_message\<lparr>msg_type := MT_REGISTER, msg_worker_id := 3, msg_worker_boot := 9, msg_epoch := 1\<rparr>"

lemma sample_message_fits: "payload_fits sample_message"
  by (simp add: payload_fits_def message_fits_def encode_payload_def sample_message_def default_message_def)

theorem frame_roundtrip_witness:
  "frame_decode (frame_encode sample_message) = Inr (Some sample_message)"
  using frame_roundtrip [OF sample_message_fits]
  by (simp add: message_view_def sample_message_def default_message_def)

text \<open>
  C21: The stream decoder reassembles.  However the bytes of one frame are cut into chunks, feeding them
  one after the other to an empty \<open>FrameDecoder\<close> returns nothing until the last non-empty chunk, which
  returns the message, and leaves the buffer empty.
\<close>

theorem feed_reassembles:
  assumes "payload_fits m" and "concat cs @ c = frame_encode m" and "c \<noteq> []"
  shows "feed_all [] (cs @ [c]) = (replicate (length cs) (Inr None) @ [Inr (Some (message_view m))], [])"
proof -
  have "feed_all [] cs = (replicate (length cs) (Inr None), concat cs)"
    using feed_all_partial [OF assms(1), of "[]" cs c] assms(2,3) by simp
  moreover have "feed (concat cs) c = (Inr (Some (message_view m)), [])"
    using feed_complete [OF assms(1), of "concat cs" c "[]"] assms(2) by simp
  ultimately show ?thesis by (simp add: feed_all_append)
qed

theorem feed_reassembles_witness:
  "feed_all [] ([take 5 (frame_encode sample_message)] @ [drop 5 (frame_encode sample_message)]) =
     ([Inr None, Inr (Some (message_view sample_message))], [])"
  using feed_reassembles [OF sample_message_fits, of "[take 5 (frame_encode sample_message)]"
      "drop 5 (frame_encode sample_message)"] by (simp add: length_frame_encode)

text \<open>
  C23: Corruption is never accepted.  When a buffer is a frame that gets past the checks of
  \<open>frame_decode\<close>, every buffer that differs from it in a window of at most four consecutive bytes is
  answered with \<open>std::nullopt\<close>.
\<close>

theorem frame_decode_detects_corruption:
  assumes "frame_decode (u @ w @ v) \<noteq> Inr None" and "length w' = length w" "length w \<le> 4" "w' \<noteq> w"
  shows "frame_decode (u @ w' @ v) = Inr None"
proof (rule ccontr)
  assume "frame_decode (u @ w' @ v) \<noteq> Inr None"
  then have "crc_sealed (u @ w' @ v)" by (rule frame_decode_sealed)
  moreover have "crc_sealed (u @ w @ v)" using assms(1) by (rule frame_decode_sealed)
  ultimately show False using crc_seal.burst assms(2-) by metis
qed

theorem frame_decode_detects_corruption_witness:
  "frame_decode ([w_u32 protocol_magic ! 0 + 1] @ tl (frame_encode sample_message)) = Inr None"
proof -
  have "frame_encode sample_message = [w_u32 protocol_magic ! 0] @ tl (frame_encode sample_message)"
    by (simp add: frame_encode_def Let_def w_u32_def le_bytes_def upt_rec)
  moreover have "frame_decode (frame_encode sample_message) \<noteq> Inr None"
    using frame_decode_encode [OF sample_message_fits] by simp
  ultimately show ?thesis
    using frame_decode_detects_corruption [of "[]" "[w_u32 protocol_magic ! 0]" "tl (frame_encode sample_message)"
        "[w_u32 protocol_magic ! 0 + 1]"] by simp
qed

text \<open>
  One frame per call.  When two frames arrive in one chunk, \<open>feed\<close> returns the first message and
  keeps the second frame in its buffer, and from then on it is one message behind: the next frame
  that arrives completely delivers the message before it.
\<close>

theorem feed_lags_behind:
  assumes "payload_fits m1" "payload_fits m2" "payload_fits m3"
  shows "feed_all [] [frame_encode m1 @ frame_encode m2, frame_encode m3] =
    ([Inr (Some (message_view m1)), Inr (Some (message_view m2))], frame_encode m3)"
  using feed_complete [OF assms(1), of "[]" "frame_encode m1 @ frame_encode m2" "frame_encode m2"]
    feed_complete [OF assms(2), of "frame_encode m2" "frame_encode m3" "frame_encode m3"] by simp

theorem feed_lags_behind_witness:
  "snd (feed_all [] [frame_encode sample_message @ frame_encode sample_message, frame_encode sample_message]) \<noteq> []"
  using feed_lags_behind [OF sample_message_fits sample_message_fits sample_message_fits]
    length_frame_encode [of sample_message] by auto

lemma no_throw_footer: "no_throw (get_footer m)"
  unfolding get_footer_def
  by (intro no_throw_intros) (simp add: no_throw_def rd_bind_def rd_guard_def rd_return_def)

text \<open>
  Only a plan can make the decoder throw.  \<open>decode_payload\<close> lets an exception escape only for a
  payload whose type byte is \<open>PLAN_RESULT\<close>; every other malformed payload is answered with
  \<open>std::nullopt\<close>.
\<close>

theorem decode_payload_throws_only_plan:
  assumes "decode_payload data = Inl e"
  shows "data \<noteq> [] \<and> all_msg_type ! unat (hd data) = MT_PLAN_RESULT"
proof -
  have stop: "get_message (mk_Reader data) = Inl (Escaped e)"
    using assms by (auto simp: decode_payload_def decode_outcome_def split: sum.splits decode_stop.splits)
  obtain t rest where data: "data = t # rest"
    using stop by (cases data)
      (auto simp: get_message_def rd_bind_def rd_u8_def rd_range_def rd_check_def mk_Reader_def)
  have u8: "(rd_u8 (mk_Reader data) :: decode_stop + _) = Inr (t, reader_at [t] rest)"
    using rd_u8_at [of "[]" t rest] by (simp add: data mk_Reader_at w_u8_def)
  let ?tail = "rd_bind (rd_check (\<lambda>_. Malformed)) (\<lambda>_.
    rd_bind (rd_guard (t > 19) Malformed) (\<lambda>_.
    rd_bind (get_fields (all_msg_type ! unat t)) (\<lambda>m.
    rd_bind (rd_check (\<lambda>_. Malformed)) (\<lambda>_. get_footer m))))"
  have "?tail (reader_at [t] rest) = Inl (Escaped e)"
    using stop unfolding get_message_def rd_bind_Inr [where m = rd_u8 and r = "mk_Reader data", OF u8] .
  then have "\<not> no_throw ?tail" unfolding no_throw_def by auto
  moreover have "no_throw ?tail" if "all_msg_type ! unat t \<noteq> MT_PLAN_RESULT"
    by (intro no_throw_intros no_throw_fields [OF that] no_throw_footer)
  ultimately show ?thesis using data by auto
qed

definition poison_message :: "double \<Rightarrow> Message" where
  "poison_message v = default_message\<lparr>msg_type := MT_PLAN_RESULT, msg_plan := default_plan\<lparr>plan_benefit := v\<rparr>\<rparr>"

lemma rd_score_bad:
  "mk_HealthyScore v = Inl e \<Longrightarrow> rd_score (reader_at pre (w_u64 v @ rest)) = Inl (Escaped e)"
  by (simp add: rd_score_def rd_bind_def rd_u64_at rd_stop_def)

lemma decode_poison:
  assumes "mk_HealthyScore v = Inl e"
  shows "decode_payload (encode_payload (poison_message v)) = Inl e"
proof -
  have "get_fields MT_PLAN_RESULT (reader_at pre (put_fields MT_PLAN_RESULT (poison_message v) @ rest)) = Inl (Escaped e)" for pre rest
    using assms rd_actions_at [of "[]"]
    by (simp add: poison_message_def get_plan_def put_plan_def rd_bind_def wire_simps default_plan_def rd_score_at rd_score_bad)
  then show ?thesis
    by (simp add: decode_payload_def get_message_def encode_payload_def mk_Reader_at rd_bind_def wire_simps
        enum_byte_in_range poison_message_def decode_outcome_def)
qed

lemma poison_payload_size: "length (encode_payload (poison_message v)) \<le> 16777216"
  by (simp add: encode_payload_def poison_message_def put_plan_def w_counted_def w_opt_def w_list_def
      default_plan_def default_message_def)

text \<open>
  A score outside \<open>[0, 1]\<close> poisons the connection.  A well-framed \<open>PLAN_RESULT\<close> whose benefit is
  such a double makes \<open>feed\<close> throw instead of returning \<open>std::nullopt\<close>; the frame stays in the buffer, so
  every later call, whatever it is fed, throws again.
\<close>

theorem feed_poisoned:
  assumes "mk_HealthyScore v = Inl e"
  shows "fst (feed_all [] (frame_encode (poison_message v) # cs)) = replicate (Suc (length cs)) (Inl e)"
proof -
  let ?F = "frame_encode (poison_message v)"
  have step: "feed buf data = (Inl e, ?F @ rest)" if "buf @ data = ?F @ rest" for buf data rest
    using feed_frame [OF poison_payload_size that] decode_poison [OF assms] by simp
  have later: "fst (feed_all (?F @ rest) cs) = replicate (length cs) (Inl e)" for rest
  proof (induction cs arbitrary: rest)
    case (Cons c cs)
    have "feed (?F @ rest) c = (Inl e, ?F @ rest @ c)" by (rule step) simp
    then show ?case using Cons.IH [of "rest @ c"] by (auto split: prod.splits)
  qed simp
  have "feed [] ?F = (Inl e, ?F @ [])" by (rule step) simp
  then show ?thesis using later [of "[]"] by (auto split: prod.splits)
qed

theorem feed_poisoned_witness:
  "fst (feed_all [] [frame_encode (poison_message 0x7FF0000000000000), frame_encode sample_message]) =
     [Inl (ValueError ''HealthyScore must be finite''), Inl (ValueError ''HealthyScore must be finite'')]"
proof -
  have "mk_HealthyScore 0x7FF0000000000000 = Inl (ValueError ''HealthyScore must be finite'')"
    by (simp add: mk_HealthyScore_def d_isfinite_def d_exponent_def throw_def)
  from feed_poisoned [OF this, of "[frame_encode sample_message]"] show ?thesis by simp
qed

theorem decode_payload_throws_only_plan_witness:
  "encode_payload (poison_message 0x7FF0000000000000) \<noteq> [] \<and>
   all_msg_type ! unat (hd (encode_payload (poison_message 0x7FF0000000000000))) = MT_PLAN_RESULT"
proof -
  have "mk_HealthyScore 0x7FF0000000000000 = Inl (ValueError ''HealthyScore must be finite'')"
    by (simp add: mk_HealthyScore_def d_isfinite_def d_exponent_def throw_def)
  from decode_payload_throws_only_plan [OF decode_poison [OF this]] show ?thesis .
qed

end
