(* ===== verification/Coordinator_Correct.thy ===== *)
theory Coordinator_Correct
  imports Coordinator Planner_Correct Codec_Correct Protocol_Correct
begin

text \<open>
  The invariant of the coordinator: maps are ordered, every layout is well formed and as large as its
  resource, a record that is alive belongs to the current incarnation of a live worker, and a plan
  that has come to an end carries the verification outcome that ended it.  Every handler keeps it.
\<close>

section \<open>Entries of a map\<close>

definition om_all :: "('k \<Rightarrow> 'v \<Rightarrow> bool) \<Rightarrow> ('k, 'v) omap \<Rightarrow> bool" where
  "om_all P m \<longleftrightarrow> (\<forall>e \<in> set m. P (fst e) (snd e))"

lemma om_all_simps [simp]:
  "om_all P []" "om_all P ((k, v) # m) \<longleftrightarrow> P k v \<and> om_all P m"
  by (simp_all add: om_all_def)

lemma om_put_entries: "set (om_put k v m) \<subseteq> insert (k, v) (set m)"
  by (auto simp: om_put_def dest: set_takeWhileD set_dropWhileD)

lemma om_all_put: "om_all P m \<Longrightarrow> P k v \<Longrightarrow> om_all P (om_put k v m)"
  using om_put_entries [of k v m] by (fastforce simp: om_all_def)

lemma om_all_find: "om_all P m \<Longrightarrow> om_find m k = Some v \<Longrightarrow> P k v"
  using map_of_SomeD [of m k v] by (force simp: om_all_def om_find_def)

lemma om_all_mono: "om_all P m \<Longrightarrow> (\<And>k v. (k, v) \<in> set m \<Longrightarrow> P k v \<Longrightarrow> Q k v) \<Longrightarrow> om_all Q m"
  by (force simp: om_all_def)

lemma om_all_update: "om_all P (om_update_all f m) \<longleftrightarrow> om_all (\<lambda>k v. P k (f v)) m"
  by (simp add: om_all_def om_update_all_def)

lemma om_keys_update [simp]: "om_keys (om_update_all f m) = om_keys m"
  by (simp add: om_keys_def om_update_all_def comp_def)

lemma om_inv_update [simp]: "om_inv (om_update_all f m) = om_inv m"
  by (simp add: om_inv_def)

lemma om_find_update: "om_find (om_update_all f m) k = map_option f (om_find m k)"
  by (simp add: om_update_all_def om_find_map_values)

lemma om_keys_put: "om_keys (om_put k v m) = takeWhile (\<lambda>x. x < k) (om_keys m) @ k # dropWhile (\<lambda>x. x \<le> k) (om_keys m)"
  by (simp add: om_put_def om_keys_def takeWhile_map dropWhile_map comp_def)

lemma om_keys_overwrite:
  assumes "om_inv m" and "om_find m k \<noteq> None"
  shows "om_keys (om_put k v m) = om_keys m"
proof (cases rule: om_split_at [OF assms(1), of k])
  case (2 lo w hi)
  then show ?thesis by (simp add: om_put_overwrite om_keys_def)
qed (use assms(2) in simp)

lemma om_find_None_keys: "om_find m k = None \<longleftrightarrow> k \<notin> set (om_keys m)"
  by (simp add: om_find_None om_keys_def)

section \<open>The invariant\<close>

definition record_ok :: "(WorkerId, bool) omap \<Rightarrow> (WorkerId, WorkerBootId) omap \<Rightarrow> ResourceId \<Rightarrow> WorkerResourceRecord \<Rightarrow> bool" where
  "record_ok alive boots i rec \<longleftrightarrow> res_id (wr_resource rec) = i \<and> layout_inv (wr_layout rec) \<and>
     lay_capacity (wr_layout rec) = res_capacity (wr_resource rec) \<and>
     (wr_alive rec \<longrightarrow> om_find alive (wr_worker rec) = Some True \<and> om_find boots (wr_worker rec) = Some (wr_boot rec))"

definition outcome_justified :: "PlanState \<Rightarrow> VerificationOutcome option \<Rightarrow> bool" where
  "outcome_justified s v \<longleftrightarrow>
     (s \<in> {PS_COMPLETED, PS_PARTIALLY_COMPLETED, PS_FAILED} \<longrightarrow> (\<exists>o'. v = Some o' \<and> s = state_after_verification o'))"

definition plan_scores_ok :: "RemediationPlan \<Rightarrow> bool" where
  "plan_scores_ok p \<longleftrightarrow> unit_double (plan_benefit p) \<and> unit_double (plan_cost p) \<and> unit_double (plan_risk p) \<and>
     unit_double (plan_disruption p)"

definition plan_ok :: "FragmentationPlanId \<Rightarrow> RemediationPlan \<Rightarrow> bool" where
  "plan_ok i p \<longleftrightarrow> plan_id p = i \<and> plan_scores_ok p \<and> outcome_justified (plan_state p) (plan_verification p)"

definition before_ok :: "FragmentationSnapshot \<Rightarrow> bool" where
  "before_ok s \<longleftrightarrow> (\<forall>d \<in> set (snap_devices s). layout_inv (dev_layout d)) \<and> snap_reservations s = []"

definition coord_inv :: "Coordinator \<Rightarrow> bool" where
  "coord_inv c \<longleftrightarrow>
     om_inv (co_resources c) \<and> om_all (record_ok (co_worker_alive c) (co_worker_boot c)) (co_resources c) \<and>
     om_inv (co_plans c) \<and> om_all plan_ok (co_plans c) \<and>
     om_inv (co_worker_alive c) \<and> om_inv (co_worker_boot c) \<and>
     om_keys (co_worker_alive c) = om_keys (co_worker_boot c) \<and>
     om_inv (co_before_snapshots c) \<and> om_all (\<lambda>_. before_ok) (co_before_snapshots c) \<and>
     gen_is_valid (kg_topology (co_generations c)) \<and> gen_is_valid (kg_capacity (co_generations c))"

lemma coord_invD:
  assumes "coord_inv c"
  shows "om_inv (co_resources c)" "om_all (record_ok (co_worker_alive c) (co_worker_boot c)) (co_resources c)"
    "om_inv (co_plans c)" "om_all plan_ok (co_plans c)" "om_inv (co_worker_alive c)" "om_inv (co_worker_boot c)"
    "om_keys (co_worker_alive c) = om_keys (co_worker_boot c)"
    "om_inv (co_before_snapshots c)" "om_all (\<lambda>_. before_ok) (co_before_snapshots c)"
  using assms by (simp_all add: coord_inv_def)

lemma coord_inv_init: "coord_inv (mk_Coordinator e)"
  by (simp add: coord_inv_def mk_Coordinator_def gen_is_valid_def om_keys_def)

section \<open>Updates that keep it\<close>

lemma coord_inv_advance [simp]:
  "coord_inv (advance_resource_generation c) = coord_inv c" "coord_inv (advance_policy_generation c) = coord_inv c"
  by (simp_all add: coord_inv_def advance_resource_generation_def advance_policy_generation_def Let_def)

lemma coord_inv_demand [simp]: "coord_inv (c\<lparr>co_last_demand := d\<rparr>) = coord_inv c"
  by (simp add: coord_inv_def)

lemma coord_inv_set_plan: "coord_inv c \<Longrightarrow> plan_ok i p \<Longrightarrow> coord_inv (set_plan i p c)"
  by (simp add: coord_inv_def set_plan_def om_inv_put om_all_put)

lemma coord_inv_put_record:
  "coord_inv c \<Longrightarrow> record_ok (co_worker_alive c) (co_worker_boot c) i rec \<Longrightarrow>
   coord_inv (c\<lparr>co_resources := om_put i rec (co_resources c)\<rparr>)"
  by (simp add: coord_inv_def om_inv_put om_all_put)

lemma coord_inv_resources:
  "coord_inv c \<Longrightarrow> om_keys rs = om_keys (co_resources c) \<Longrightarrow>
   om_all (record_ok (co_worker_alive c) (co_worker_boot c)) rs \<Longrightarrow> coord_inv (c\<lparr>co_resources := rs\<rparr>)"
  by (simp add: coord_inv_def om_inv_def)

lemma record_ok_layout:
  "record_ok alive boots i rec \<Longrightarrow> layout_inv l \<Longrightarrow> lay_capacity l = lay_capacity (wr_layout rec) \<Longrightarrow>
   record_ok alive boots i (rec\<lparr>wr_layout := l\<rparr>)"
  by (simp add: record_ok_def)

lemma mark_worker_dead_inv:
  assumes "coord_inv c"
  shows "coord_inv (mark_worker_dead w c)"
proof -
  let ?alive = "if om_find (co_worker_alive c) w \<noteq> None then om_put w False (co_worker_alive c) else co_worker_alive c"
  note inv = coord_invD [OF assms]
  have keys: "om_keys ?alive = om_keys (co_worker_alive c)" using om_keys_overwrite [OF inv(5)] by simp
  have find: "om_find ?alive v = om_find (co_worker_alive c) v" if "v \<noteq> w" for v
    using that om_find_put [OF inv(5), of w False] by simp
  have "om_all (record_ok ?alive (co_worker_boot c))
      (om_update_all (\<lambda>rec. if wr_worker rec = w then rec\<lparr>wr_alive := False\<rparr> else rec) (co_resources c))"
    unfolding om_all_update by (rule om_all_mono [OF inv(2)]) (use find in \<open>auto simp: record_ok_def\<close>)
  moreover have "om_all plan_ok (om_update_all (\<lambda>p. if T p then p\<lparr>plan_state := PS_REVALIDATION_REQUIRED,
      plan_precondition_failures := F p\<rparr> else p) (co_plans c))" for T F
    unfolding om_all_update by (rule om_all_mono [OF inv(4)]) (auto simp: plan_ok_def plan_scores_ok_def outcome_justified_def)
  moreover have "om_inv ?alive" using inv(5) om_inv_put by auto
  ultimately show ?thesis
    using assms keys by (cases "om_find (co_worker_alive c) w") (simp_all add: coord_inv_def mark_worker_dead_def Let_def)
qed

lemma mark_worker_dead_boot [simp]: "co_worker_boot (mark_worker_dead w c) = co_worker_boot c"
  by (simp add: mark_worker_dead_def Let_def)

lemma mark_worker_dead_resources:
  "co_resources (mark_worker_dead w c) =
     om_update_all (\<lambda>rec. if wr_worker rec = w then rec\<lparr>wr_alive := False\<rparr> else rec) (co_resources c)"
  by (simp add: mark_worker_dead_def Let_def)

lemma mark_worker_dead_alive:
  "co_worker_alive (mark_worker_dead w c) =
    (if om_find (co_worker_alive c) w = None then co_worker_alive c else om_put w False (co_worker_alive c))"
  by (simp add: mark_worker_dead_def Let_def)

lemma mark_worker_dead_plans:
  "co_plans (mark_worker_dead w c) = om_update_all (\<lambda>p. if targets_worker (co_resources (mark_worker_dead w c)) w p
     then p\<lparr>plan_state := PS_REVALIDATION_REQUIRED, plan_precondition_failures := plan_precondition_failures p @ [''evidence source died'']\<rparr>
     else p) (co_plans c)"
  by (simp add: mark_worker_dead_def Let_def)

lemma mark_worker_dead_records:
  "e \<in> set (co_resources (mark_worker_dead w c)) \<Longrightarrow> wr_worker (snd e) = w \<Longrightarrow> \<not> wr_alive (snd e)"
  unfolding mark_worker_dead_resources om_update_all_def set_map by (elim imageE) (simp split: if_splits)

section \<open>The handlers\<close>

lemma refuse_keeps: "coord_inv c \<Longrightarrow> refuse why c = Inr (out, c') \<Longrightarrow> coord_inv c'"
  by (simp add: refuse_def)

lemma accept_Inr: "accept c = Inr (out, c') \<longleftrightarrow> out = [acknowledge] \<and> c' = c"
  by (auto simp: accept_def)

lemma refuse_Inr: "refuse why c = Inr (out, c') \<longleftrightarrow> out = [fail why] \<and> c' = c"
  by (auto simp: refuse_def)

lemma check_worker_same:
  assumes "coord_inv c" and "check_worker m c = (r, c')"
  shows "c' = c" and "r = None \<longleftrightarrow> om_find (co_worker_alive c) (TypedId (msg_worker_id m)) = Some True \<and>
    om_find (co_worker_boot c) (TypedId (msg_worker_id m)) = Some (Generation (msg_worker_boot m))"
proof -
  let ?w = "TypedId (msg_worker_id m)"
  have "om_find (co_worker_alive c) ?w = None \<longleftrightarrow> om_find (co_worker_boot c) ?w = None"
    using coord_invD(7) [OF assms(1)] by (simp add: om_find_None_keys)
  then have "c' = c \<and> (r = None \<longleftrightarrow> om_find (co_worker_alive c) ?w = Some True \<and>
      om_find (co_worker_boot c) ?w = Some (Generation (msg_worker_boot m)))"
    using assms(2) by (cases "om_find (co_worker_boot c) ?w")
      (auto simp: check_worker_def om_index_def Let_def Generation.expand split: option.splits if_splits)
  then show "c' = c" and "r = None \<longleftrightarrow> om_find (co_worker_alive c) ?w = Some True \<and>
      om_find (co_worker_boot c) ?w = Some (Generation (msg_worker_boot m))" by simp_all
qed

text \<open>A record that is alive belongs to a worker other than one whose incarnation is replaced.\<close>

lemma register_keeps: "coord_inv c \<Longrightarrow> handle_register m c = Inr (out, c') \<Longrightarrow> coord_inv c'"
proof -
  assume inv0: "coord_inv c" and h: "handle_register m c = Inr (out, c')"
  let ?w = "TypedId (msg_worker_id m)"
  define c1 where "c1 = (case om_find (co_worker_boot c) ?w of None \<Rightarrow> c
      | Some b \<Rightarrow> if gen_value b \<noteq> msg_worker_boot m then mark_worker_dead ?w c else c)"
  have inv1: "coord_inv c1"
    using inv0 mark_worker_dead_inv by (auto simp: c1_def split: option.splits)
  note inv = coord_invD [OF inv1]
  show "coord_inv c'"
  proof (cases "msg_worker_boot m = 0")
    case True
    then show ?thesis using inv0 h by (simp add: handle_register_def refuse_Inr)
  next
    case False
    then have c': "c' = c1\<lparr>co_worker_boot := om_put ?w (Generation (msg_worker_boot m)) (co_worker_boot c1),
        co_worker_alive := om_put ?w True (co_worker_alive c1)\<rparr>"
      using h by (simp add: handle_register_def c1_def accept_Inr Let_def)
    have "wr_boot rec = Generation (msg_worker_boot m)"
      if prem: "(i, rec) \<in> set (co_resources c1)" "wr_alive rec" "wr_worker rec = ?w" for i rec
    proof (rule ccontr)
      assume stale: "wr_boot rec \<noteq> Generation (msg_worker_boot m)"
      have "record_ok (co_worker_alive c1) (co_worker_boot c1) i rec" using inv(2) prem(1) by (force simp: om_all_def)
      then have "om_find (co_worker_boot c1) ?w = Some (wr_boot rec)" using prem by (simp add: record_ok_def)
      moreover have "co_worker_boot c1 = co_worker_boot c" by (simp add: c1_def split: option.split)
      ultimately have "c1 = mark_worker_dead ?w c" using stale by (auto simp: c1_def Generation.expand)
      then show False using mark_worker_dead_records [of "(i, rec)" ?w c] prem by simp
    qed
    then have "om_all (record_ok (om_put ?w True (co_worker_alive c1)) (om_put ?w (Generation (msg_worker_boot m)) (co_worker_boot c1)))
        (co_resources c1)"
      by (intro om_all_mono [OF inv(2)]) (auto simp: record_ok_def om_find_put inv(5,6))
    then show ?thesis
      using inv1 by (simp add: c' coord_inv_def om_inv_put om_keys_put)
  qed
qed

lemma publish_resource_keeps: "coord_inv c \<Longrightarrow> handle_publish_resource m c = Inr (out, c') \<Longrightarrow> coord_inv c'"
proof -
  assume inv: "coord_inv c" and h: "handle_publish_resource m c = Inr (out, c')"
  obtain r where r: "check_worker m c = (r, c)" using check_worker_same(1) [OF inv] by (metis surj_pair)
  show "coord_inv c'"
  proof (cases r)
    case (Some why)
    then show ?thesis using inv h r by (simp add: handle_publish_resource_def refuse_Inr)
  next
    case None
    then have live: "om_find (co_worker_alive c) (TypedId (msg_worker_id m)) = Some True"
      "om_find (co_worker_boot c) (TypedId (msg_worker_id m)) = Some (Generation (msg_worker_boot m))"
      using check_worker_same(2) [OF inv r] by simp_all
    show ?thesis
      using h r None inv live
      by (auto simp: handle_publish_resource_def Let_def refuse_Inr accept_Inr record_ok_def mk_layout_inv
          intro!: coord_inv_put_record split: if_splits option.splits)
  qed
qed

lemma insert_all_keeps:
  assumes "layout_inv l"
  shows "\<exists>err l'. insert_all as l = Inr (err, l') \<and> layout_inv l' \<and> lay_capacity l' = lay_capacity l"
  using assms
proof (induction as arbitrary: l)
  case (Cons a as)
  obtain err l1 where 1: "insert_allocation l a = Inr (err, l1)" "layout_inv l1" "lay_capacity l1 = lay_capacity l"
    using insert_allocation_total [OF Cons.prems] by metis
  then show ?case using Cons.IH [OF 1(2)] by (cases err) auto
qed simp

lemma remove_allocation_total:
  assumes "layout_inv l"
  shows "\<exists>err l'. remove_allocation l i = Inr (err, l') \<and> layout_inv l' \<and> lay_capacity l' = lay_capacity l"
  by (cases rule: remove_allocation_cases [OF assms, of i]) (use assms in auto)

lemma publish_layout_keeps: "coord_inv c \<Longrightarrow> handle_publish_layout m c = Inr (out, c') \<Longrightarrow> coord_inv c'"
proof -
  assume inv: "coord_inv c" and h: "handle_publish_layout m c = Inr (out, c')"
  obtain r where r: "check_worker m c = (r, c)" using check_worker_same(1) [OF inv] by (metis surj_pair)
  show "coord_inv c'"
  proof (cases "om_find (co_resources c) (res_id (msg_resource m))")
    case None
    then show ?thesis using inv h r by (auto simp: handle_publish_layout_def refuse_Inr Let_def split: option.splits)
  next
    case (Some rec)
    have ok: "record_ok (co_worker_alive c) (co_worker_boot c) (res_id (msg_resource m)) rec"
      by (rule om_all_find [OF coord_invD(2) [OF inv] Some])
    obtain err l where l: "insert_all (msg_allocations m) (mk_layout (res_capacity (wr_resource rec))) = Inr (err, l)"
      "layout_inv l" "lay_capacity l = res_capacity (wr_resource rec)"
      using insert_all_keeps [OF mk_layout_inv] by (metis mk_layout_capacity(1))
    have "record_ok (co_worker_alive c) (co_worker_boot c) (res_id (msg_resource m)) (rec\<lparr>wr_layout := l\<rparr>)"
      using ok l by (simp add: record_ok_def)
    then show ?thesis
      using h r inv Some l(1)
      by (auto simp: handle_publish_layout_def refuse_Inr accept_Inr Let_def intro!: coord_inv_put_record
          split: option.splits if_splits)
  qed
qed

lemma publish_allocation_keeps: "coord_inv c \<Longrightarrow> handle_publish_allocation m c = Inr (out, c') \<Longrightarrow> coord_inv c'"
proof -
  assume inv: "coord_inv c" and h: "handle_publish_allocation m c = Inr (out, c')"
  obtain r where r: "check_worker m c = (r, c)" using check_worker_same(1) [OF inv] by (metis surj_pair)
  show "coord_inv c'"
  proof (cases "om_find (co_resources c) (res_id (msg_resource m))")
    case None
    then show ?thesis using inv h r by (auto simp: handle_publish_allocation_def refuse_Inr Let_def split: option.splits)
  next
    case (Some rec)
    have ok: "record_ok (co_worker_alive c) (co_worker_boot c) (res_id (msg_resource m)) rec"
      by (rule om_all_find [OF coord_invD(2) [OF inv] Some])
    then have "layout_inv (wr_layout rec)" by (simp add: record_ok_def)
    then obtain err l where l: "insert_allocation (wr_layout rec) (msg_allocation m) = Inr (err, l)"
      "layout_inv l" "lay_capacity l = lay_capacity (wr_layout rec)"
      using insert_allocation_total by metis
    have "record_ok (co_worker_alive c) (co_worker_boot c) (res_id (msg_resource m)) (rec\<lparr>wr_layout := l\<rparr>)"
      by (rule record_ok_layout [OF ok l(2,3)])
    then show ?thesis
      using h r inv Some l(1)
      by (auto simp: handle_publish_allocation_def refuse_Inr accept_Inr Let_def intro!: coord_inv_put_record
          split: option.splits)
  qed
qed

lemma invalidate_first_keeps:
  assumes "om_all (record_ok alive boots) rs"
  shows "\<exists>b rs'. invalidate_first w i rs = Inr (b, rs') \<and> om_keys rs' = om_keys rs \<and> om_all (record_ok alive boots) rs'"
  using assms
proof (induction rs)
  case (Cons e rs)
  obtain rid rec where e: "e = (rid, rec)" by (cases e)
  then have ok: "record_ok alive boots rid rec" and tail: "om_all (record_ok alive boots) rs" using Cons.prems by simp_all
  obtain b rs' where 1: "invalidate_first w i rs = Inr (b, rs')" "om_keys rs' = om_keys rs" "om_all (record_ok alive boots) rs'"
    using Cons.IH [OF tail] by blast
  obtain err l where 2: "remove_allocation (wr_layout rec) i = Inr (err, l)" "layout_inv l"
    "lay_capacity l = lay_capacity (wr_layout rec)"
    using remove_allocation_total ok by (metis record_ok_def)
  have "record_ok alive boots rid (rec\<lparr>wr_layout := l\<rparr>)" by (rule record_ok_layout [OF ok 2(2,3)])
  then show ?case
    using 1 2(1) ok tail by (cases "wr_worker rec = w"; cases "err = None") (simp_all add: e om_keys_def Let_def ex_bool_eq)
qed (simp add: ex_bool_eq)

lemma invalidate_allocation_keeps: "coord_inv c \<Longrightarrow> handle_invalidate_allocation m c = Inr (out, c') \<Longrightarrow> coord_inv c'"
proof -
  assume inv: "coord_inv c" and h: "handle_invalidate_allocation m c = Inr (out, c')"
  obtain r where r: "check_worker m c = (r, c)" using check_worker_same(1) [OF inv] by (metis surj_pair)
  obtain b rs where rs: "invalidate_first (TypedId (msg_worker_id m)) (TypedId (msg_allocation_id m)) (co_resources c) = Inr (b, rs)"
    "om_keys rs = om_keys (co_resources c)" "om_all (record_ok (co_worker_alive c) (co_worker_boot c)) rs"
    using invalidate_first_keeps [OF coord_invD(2) [OF inv]] by metis
  then have "coord_inv (c\<lparr>co_resources := rs\<rparr>)" using inv by (intro coord_inv_resources)
  then show "coord_inv c'"
    using h r rs(1) inv
    by (auto simp: handle_invalidate_allocation_def refuse_Inr accept_Inr Let_def split: option.splits if_splits)
qed

section \<open>Plans\<close>

lemma mk_HealthyScore_iff: "mk_HealthyScore v = Inr x \<longleftrightarrow> x = v \<and> unit_double v"
  by (auto simp: mk_HealthyScore_def unit_double_def d_less_def d_lit_def throw_def split: if_splits)

lemma finish_plan_fields:
  assumes "finish_plan pol w fb plan = Inr p"
  shows "plan_scores_ok p" "plan_id p = plan_id plan" "plan_generation p = plan_generation plan"
    "plan_policy_generation p = plan_policy_generation plan" "plan_epoch p = plan_epoch plan"
    "plan_actions p = plan_actions plan" "plan_verification p = plan_verification plan"
  using assms
  by (auto simp: finish_plan_def plan_scores_ok_def mk_HealthyScore_iff Let_def split: prod.splits elim!: chain_InrE)

lemma plan_remediation_fields:
  assumes "plan_remediation snap d pol w pid pg = Inr (Some p)"
  shows "plan_scores_ok p" "plan_id p = pid" "plan_generation p = pg"
    "plan_policy_generation p = snap_policy_generation snap" "plan_epoch p = snap_epoch snap"
    "plan_verification p = None"
proof -
  obtain fb acts where "finish_plan pol w fb (default_plan\<lparr>plan_id := pid, plan_generation := pg,
      plan_domain_id := snap_domain_id snap, plan_based_on_snapshot := snap_generation snap,
      plan_policy_generation := snap_policy_generation snap, plan_epoch := snap_epoch snap, plan_actions := acts\<rparr>) = Inr p"
    using assms by (auto simp: plan_remediation_def Let_def split: if_splits elim!: chain_InrE)
  from finish_plan_fields [OF this] show "plan_scores_ok p" "plan_id p = pid" "plan_generation p = pg"
    "plan_policy_generation p = snap_policy_generation snap" "plan_epoch p = snap_epoch snap" "plan_verification p = None"
    by (simp_all add: default_plan_def)
qed

lemma with_plan_Inr:
  assumes "with_plan m c f = Inr (out, c')"
  obtains "out = [fail ''unknown plan'']" "c' = c" "om_find (co_plans c) (TypedId (msg_plan_id m)) = None"
  | p where "om_find (co_plans c) (TypedId (msg_plan_id m)) = Some p" "f (TypedId (msg_plan_id m)) p = Inr (out, c')"
  using assms by (auto simp: with_plan_def refuse_Inr split: option.splits)

lemma plan_found: "coord_inv c \<Longrightarrow> om_find (co_plans c) i = Some p \<Longrightarrow> plan_ok i p"
  by (rule om_all_find [OF coord_invD(4)])

lemma plan_ok_state:
  "plan_ok i p \<Longrightarrow> s \<notin> {PS_COMPLETED, PS_PARTIALLY_COMPLETED, PS_FAILED} \<Longrightarrow> plan_ok i (p\<lparr>plan_state := s\<rparr>)"
  by (simp add: plan_ok_def plan_scores_ok_def outcome_justified_def)

lemma plan_ok_verified:
  "plan_ok i p \<Longrightarrow> plan_ok i (p\<lparr>plan_verification := Some v, plan_state := state_after_verification v\<rparr>)"
  by (simp add: plan_ok_def plan_scores_ok_def outcome_justified_def)

lemma create_plan_keeps: "coord_inv c \<Longrightarrow> handle_create_plan e m c = Inr (out, c') \<Longrightarrow> coord_inv c'"
proof -
  assume inv: "coord_inv c" and h: "handle_create_plan e m c = Inr (out, c')"
  let ?s = "assemble_snapshot e c"
  have "before_ok ?s"
    using coord_invD(2) [OF inv] by (auto simp: before_ok_def assemble_snapshot_def alive_records_def default_snapshot_def om_all_def record_ok_def)
  moreover obtain plan where plan: "plan_remediation ?s (msg_demand m) (default_policy\<lparr>pol_generation := co_policy_generation c\<rparr>)
      default_weights (TypedId (co_next_plan_id c)) (Generation (co_next_plan_id c)) = Inr plan"
    using h by (auto simp: handle_create_plan_def Let_def elim!: chain_InrE)
  moreover have "plan_ok (TypedId (co_next_plan_id c)) (p\<lparr>plan_state := PS_PLAN_READY\<rparr>)" if "plan = Some p" for p
    using plan_remediation_fields [OF plan [unfolded that]]
    by (simp add: plan_ok_def plan_scores_ok_def outcome_justified_def)
  ultimately show "coord_inv c'"
    using h inv plan_remediation_fields(2)
    by (cases plan) (auto simp: handle_create_plan_def Let_def coord_inv_def om_inv_put om_all_put)
qed

lemma coord_inv_set_state:
  assumes "coord_inv c" and "plan_ok i p" and "s \<notin> {PS_COMPLETED, PS_PARTIALLY_COMPLETED, PS_FAILED}"
  shows "coord_inv (set_plan i (p\<lparr>plan_state := s\<rparr>) c)"
  by (rule coord_inv_set_plan [OF assms(1) plan_ok_state [OF assms(2,3)]])

lemma coord_inv_set_verified:
  assumes "coord_inv c" and "plan_ok i p"
  shows "coord_inv (set_plan i (p\<lparr>plan_verification := Some v, plan_state := state_after_verification v\<rparr>) c)"
  by (rule coord_inv_set_plan [OF assms(1) plan_ok_verified [OF assms(2)]])

lemmas plan_step_simps = accept_Inr refuse_Inr coord_inv_set_state coord_inv_set_verified

lemma approve_keeps: "coord_inv c \<Longrightarrow> handle_approve_plan m c = Inr (out, c') \<Longrightarrow> coord_inv c'"
  unfolding handle_approve_plan_def
  by (elim with_plan_Inr) (simp, frule (1) plan_found, auto simp: plan_step_simps split: if_splits)

lemma begin_keeps: "coord_inv c \<Longrightarrow> handle_begin_action m c = Inr (out, c') \<Longrightarrow> coord_inv c'"
  unfolding handle_begin_action_def
  by (elim with_plan_Inr) (simp, frule (1) plan_found, auto simp: plan_step_simps split: if_splits)

lemma release_source_total:
  assumes "coord_inv c"
  shows "\<exists>c'. release_source act c = Inr c' \<and> coord_inv c' \<and> co_plans c' = co_plans c \<and>
    co_before_snapshots c' = co_before_snapshots c \<and> co_last_demand c' = co_last_demand c"
proof (cases "act_source_allocation act")
  case None
  then show ?thesis using assms by (simp add: release_source_def)
next
  case (Some i)
  show ?thesis
  proof (cases "om_find (co_resources c) (act_target_resource act)")
    case None
    then show ?thesis using assms Some by (simp add: release_source_def)
  next
    case (Some rec)
    have ok: "record_ok (co_worker_alive c) (co_worker_boot c) (act_target_resource act) rec"
      by (rule om_all_find [OF coord_invD(2) [OF assms] Some])
    then obtain err l where l: "remove_allocation (wr_layout rec) i = Inr (err, l)" "layout_inv l"
      "lay_capacity l = lay_capacity (wr_layout rec)"
      using remove_allocation_total by (metis record_ok_def)
    then show ?thesis
      using \<open>act_source_allocation act = Some i\<close> Some assms record_ok_layout [OF ok l(2,3)]
      by (auto simp: release_source_def advance_resource_generation_def Let_def coord_inv_def om_inv_put om_all_put)
  qed
qed

lemma complete_keeps: "coord_inv c \<Longrightarrow> handle_action_complete m c = Inr (out, c') \<Longrightarrow> coord_inv c'"
proof -
  assume inv: "coord_inv c" and h: "handle_action_complete m c = Inr (out, c')"
  obtain r where r: "release_source act c = Inr (r act)" "coord_inv (r act)" for act
    using release_source_total [OF inv] by metis
  from h show "coord_inv c'"
    unfolding handle_action_complete_def
  proof (cases rule: with_plan_Inr)
    case (2 p)
    then show ?thesis using inv r plan_found [OF inv 2(1)] by (auto simp: plan_step_simps split: if_splits)
  qed (use inv in simp)
qed

lemma verify_keeps: "coord_inv c \<Longrightarrow> handle_verify e m c = Inr (out, c') \<Longrightarrow> coord_inv c'"
  unfolding handle_verify_def
  by (elim with_plan_Inr)
    (simp, frule (1) plan_found, auto simp: plan_step_simps split: if_splits option.splits elim!: chain_InrE)

lemma cancel_keeps: "coord_inv c \<Longrightarrow> handle_cancel_plan m c = Inr (out, c') \<Longrightarrow> coord_inv c'"
  unfolding handle_cancel_plan_def
  by (elim with_plan_Inr) (simp, frule (1) plan_found, auto simp: plan_step_simps)

lemma revalidate_keeps: "coord_inv c \<Longrightarrow> handle_revalidate m c = Inr (out, c') \<Longrightarrow> coord_inv c'"
  unfolding handle_revalidate_def
  by (elim with_plan_Inr) (simp, frule (1) plan_found, auto simp: plan_step_simps)

lemma advance_keeps: "coord_inv c \<Longrightarrow> handle_advance_generation m c = Inr (out, c') \<Longrightarrow> coord_inv c'"
  by (auto simp: handle_advance_generation_def Let_def accept_Inr refuse_Inr coord_inv_def split: if_splits)

lemma query_keeps:
  "coord_inv c \<Longrightarrow> handle_query_fragmentation e c = Inr (out, c') \<Longrightarrow> coord_inv c'"
  "coord_inv c \<Longrightarrow> handle_query_fit e m c = Inr (out, c') \<Longrightarrow> coord_inv c'"
  by (auto simp: handle_query_fragmentation_def handle_query_fit_def elim!: chain_InrE)

end
