(* ===== verification/Remediation_Loop.thy ===== *)
theory Remediation_Loop
  imports Planner_Correct Verification
begin

text \<open>
  What the planner promises and what the verification asks for, brought together: when the
  allocations a plan names are gone from the layouts and the evidence is still current, the
  verification reports that the target fit has been achieved.
\<close>

lemma eligible_all: "dem_topology_group d = None \<Longrightarrow> eligible_devices sn d = {i. i < length (snap_devices sn)}"
  by (simp add: eligible_devices_def)

lemma demand_fits_eligible:
  assumes "dem_topology_group d = None"
  shows "demand_fits free sn d \<longleftrightarrow> needed_devices d \<le> card (capable free sn d) \<and>
    unat (dem_aggregate_memory d) \<le> free_total free sn d"
  by (simp add: demand_fits_def capable_def free_total_def eligible_all [OF assms] lessThan_def)

lemma reclaim_fits:
  assumes "fit_spec sn d = FO_FIT_AFTER_RECLAIM" and "dem_topology_group d = None"
  shows "\<not> demand_fits free_bytes sn d" and "demand_fits reclaim_free_bytes sn d"
    and "generations_complete (snap_generations sn)"
  using assms(1) by (auto simp: fit_spec_def demand_fits_eligible [OF assms(2)] split: if_splits)

text \<open>The layouts of a snapshot.\<close>

abbreviation layouts_of :: "FragmentationSnapshot \<Rightarrow> ResourceLayout list" where
  "layouts_of s \<equiv> map dev_layout (snap_devices s)"

lemma layouts_of_ok: "devices_ok s \<Longrightarrow> layouts_ok (layouts_of s)"
  by (auto simp: devices_ok_def layouts_ok_def comp_def)

lemma devices_ok_layouts: "layouts_ok (layouts_of s) \<Longrightarrow> devices_ok s"
  by (auto simp: devices_ok_def layouts_ok_def comp_def)

lemma removed_exists:
  assumes inv: "\<forall>l \<in> set ls. layout_inv l" and "distinct ks"
    and "\<forall>(i, k) \<in> set ks. i < length ls \<and> om_find (lay_allocations (ls ! i)) k \<noteq> None"
  shows "\<exists>ls'. removed_from (set ks) ls ls'"
  using assms(2-)
proof (induction ks)
  case Nil
  then show ?case using removed_from_refl [OF inv] by auto
next
  case (Cons ik ks)
  obtain i k where ik: "ik = (i, k)" by (cases ik)
  obtain ls' where "removed_from (set ks) ls ls'" using Cons by auto
  moreover obtain a where "om_find (lay_allocations (ls ! i)) k = Some a" "i < length ls" using Cons.prems ik by auto
  ultimately show ?case
    using remove_step [of "set ks" ls ls' i k a] inv Cons.prems(1) ik by auto
qed

lemma reclaim_keys_found:
  assumes "(i, k) \<in> reclaim_keys s"
  shows "i < length (snap_devices s)" and "\<exists>a. om_find (lay_allocations (layouts_of s ! i)) k = Some a"
proof -
  obtain b where ik: "i < length (snap_devices s)" "(k, b) \<in> set (lay_allocations (device_layout_at s i))"
    using assms by (auto simp: reclaim_keys_def)
  show "i < length (snap_devices s)" by (rule ik(1))
  have "om_find (lay_allocations (layouts_of s ! i)) k \<noteq> None"
    using ik by (auto simp: om_find_None image_iff intro: bexI [of _ "(k, b)"])
  then show "\<exists>a. om_find (lay_allocations (layouts_of s ! i)) k = Some a" by simp
qed

lemma released_protected:
  assumes ok: "devices_ok before" and K: "K \<subseteq> reclaim_keys before"
    and rem: "removed_from K (layouts_of before) (layouts_of after)"
  shows "protected_intact before after"
  unfolding protected_intact_def
proof (intro ballI impI)
  fix d e assume d: "d \<in> set (snap_devices before)" and e: "e \<in> set (lay_allocations (dev_layout d))" "must_survive (snd e)"
  obtain i where i: "i < length (snap_devices before)" "snap_devices before ! i = d"
    using d by (auto simp: in_set_conv_nth)
  have "is_protected (snd e)"
    using e(2) by (auto simp: must_survive_def is_protected_def)
  then have "(i, fst e) \<notin> K" using reclaim_keys_member [OF ok i(1), of e] e(1) i(2) K by auto
  moreover have "lay_allocations (layouts_of after ! i) = filter (\<lambda>e. (i, fst e) \<notin> K) (lay_allocations (dev_layout d))"
    and len: "length (snap_devices after) = length (snap_devices before)"
    using rem i by (auto simp: removed_from_def)
  ultimately have "e \<in> set (lay_allocations (layouts_of after ! i))" using e(1) by simp
  moreover have "layouts_of after ! i \<in> set (layouts_of after)" using i(1) len by (metis length_map nth_mem)
  ultimately show "allocation_present after (fst e)"
    by (force simp: allocation_present_def find_allocation_def om_find_None)
qed

lemma release_achieves_fit:
  assumes ok: "devices_ok before" and short: "\<not> demand_fits free_bytes before d"
    and K: "K \<subseteq> reclaim_keys before" "layouts_fit d (free_without K before)"
    and rem: "removed_from K (layouts_of before) (layouts_of after)"
    and evidence: "generations_complete (snap_generations after)" "snap_provenance after \<noteq> PV_UNKNOWN"
      "snap_epoch after = snap_epoch before" "snap_policy_generation after = snap_policy_generation before"
    and shape: "dem_topology_group d = None" "dem_reservation_duration d = None"
  shows "verification_spec before after d = VO_TARGET_FIT_ACHIEVED"
proof -
  have len: "length (snap_devices after) = length (snap_devices before)" using rem by (simp add: removed_from_def)
  have "layouts_fit d (map free_bytes (layouts_of after))" using K(2) removed_from_free [OF rem] by simp
  then have fits: "demand_fits free_bytes after d" by (simp only: demand_fits_layouts)
  moreover have "snap_devices after \<noteq> []"
  proof
    assume "snap_devices after = []"
    moreover from this have "snap_devices before = []" using len by simp
    ultimately show False using fits short by (simp add: demand_fits_def)
  qed
  ultimately have "fit_spec after d = FO_FIT_NOW"
    using evidence shape by (auto simp: fit_spec_def demand_fits_eligible no_window_def)
  moreover have "fit_spec before d \<noteq> FO_FIT_NOW"
    using short shape by (auto simp: fit_spec_def demand_fits_eligible split: if_splits)
  moreover have "evidence_current before after" using evidence by (simp add: evidence_current_def)
  moreover have "protected_intact before after" by (rule released_protected [OF ok K(1) rem])
  ultimately show ?thesis by (simp add: verification_spec_def)
qed

end
