(* ===== verification/Transition_System.thy ===== *)
theory Transition_System
  imports FG_Prelude
begin

text \<open>
  Reachable states, inductive invariants and simulations, as the coordinator and the server that
  hosts it use them.
\<close>

inductive reachable :: "('s \<Rightarrow> bool) \<Rightarrow> ('s \<Rightarrow> 's \<Rightarrow> bool) \<Rightarrow> 's \<Rightarrow> bool"
  for init :: "'s \<Rightarrow> bool" and step :: "'s \<Rightarrow> 's \<Rightarrow> bool" where
  start: "init s \<Longrightarrow> reachable init step s"
| onward: "reachable init step s \<Longrightarrow> step s t \<Longrightarrow> reachable init step t"

lemma reachable_trans:
  assumes "step\<^sup>*\<^sup>* s t" and "reachable init step s"
  shows "reachable init step t"
  using assms by (induction rule: rtranclp_induct) (auto intro: onward)

locale invariant_system =
  fixes init :: "'s \<Rightarrow> bool" and step :: "'s \<Rightarrow> 's \<Rightarrow> bool" and inv :: "'s \<Rightarrow> bool"
  assumes init_inv: "init s \<Longrightarrow> inv s" and step_inv: "inv s \<Longrightarrow> step s t \<Longrightarrow> inv t"
begin

lemma reachable_inv: "reachable init step s \<Longrightarrow> inv s"
  by (induction rule: reachable.induct) (auto intro: init_inv step_inv)

end

locale simulation =
  fixes init :: "'s \<Rightarrow> bool" and step :: "'s \<Rightarrow> 's \<Rightarrow> bool"
    and spec_init :: "'a \<Rightarrow> bool" and spec_step :: "'a \<Rightarrow> 'a \<Rightarrow> bool" and abs :: "'s \<Rightarrow> 'a"
  assumes init_sim: "init s \<Longrightarrow> spec_init (abs s)"
    and step_sim: "step s t \<Longrightarrow> spec_step\<^sup>*\<^sup>* (abs s) (abs t)"
begin

lemma reachable_abs: "reachable init step s \<Longrightarrow> reachable spec_init spec_step (abs s)"
  by (induction rule: reachable.induct) (auto intro: reachable.start init_sim reachable_trans step_sim)

end

text \<open>An invariant of the specification holds of what an implementation simulates.\<close>

locale simulated_invariant = simulation init step spec_init spec_step abs + spec: invariant_system spec_init spec_step inv
  for init step spec_init spec_step abs inv
begin

lemma reachable_spec_inv: "reachable init step s \<Longrightarrow> inv (abs s)"
  by (rule spec.reachable_inv [OF reachable_abs])

end

end
