(* ===== verification/Coordinator_System.thy ===== *)
theory Coordinator_System
  imports Coordinator_Correct Remediation_Loop Transition_System
begin

text \<open>
  The coordinator as a system: the contract of the message handlers as the locales
  \<open>coordinator_handler\<close> and \<open>total_handler\<close>, interpreted for each handler, the dispatcher from them, and
  the states a coordinator can reach by messages, lost workers, policy changes and restarts.
\<close>

section \<open>The contract of a handler\<close>

locale coordinator_handler =
  fixes h :: "Coordinator \<Rightarrow> reply"
  assumes keeps: "coord_inv c \<Longrightarrow> h c = Inr (out, c') \<Longrightarrow> coord_inv c'"
    and epoch: "h c = Inr (out, c') \<Longrightarrow> co_epoch c' = co_epoch c"
    and one_reply: "h c = Inr (out, c') \<Longrightarrow> length out = 1"

text \<open>
  What a coordinator must not exceed for the checked arithmetic of the fit oracle, the planner and
  the verification to stay within 64 bits.
\<close>

definition capacity_ok :: "Coordinator \<Rightarrow> bool" where
  "capacity_ok c \<longleftrightarrow>
     sum_list (map (\<lambda>rec. unat (res_capacity (wr_resource rec))) (alive_records c)) < 2 ^ 64 \<and>
     length (alive_records c) < 2 ^ 64 \<and>
     sum_list (map (\<lambda>rec. length (lay_allocations (wr_layout rec))) (alive_records c)) \<le> 2 ^ 46 \<and>
     om_all (\<lambda>_. devices_ok) (co_before_snapshots c)"

locale total_handler = coordinator_handler +
  assumes total: "coord_inv c \<Longrightarrow> capacity_ok c \<Longrightarrow> \<exists>out c'. h c = Inr (out, c')"
begin

lemma runs: "coord_inv c \<Longrightarrow> capacity_ok c \<Longrightarrow> \<exists>r c'. h c = Inr ([r], c') \<and> coord_inv c' \<and> co_epoch c' = co_epoch c"
proof -
  assume c: "coord_inv c" "capacity_ok c"
  then obtain out c' where h: "h c = Inr (out, c')" using total by blast
  then obtain r where "out = [r]" using one_reply [OF h] by (auto simp: length_Suc_conv)
  with h c keeps epoch show ?thesis by blast
qed

end

section \<open>Snapshots of a well-formed coordinator\<close>

lemma snapshot_devices [simp]:
  "snap_devices (assemble_snapshot e c) =
     map (\<lambda>rec. \<lparr>dev_resource = wr_resource rec, dev_layout = wr_layout rec\<rparr>) (alive_records c)"
  by (simp add: assemble_snapshot_def)

lemma snapshot_fields [simp]:
  "snap_reservations (assemble_snapshot e c) = []" "snap_generations (assemble_snapshot e c) = co_generations c"
  "snap_epoch (assemble_snapshot e c) = co_epoch c"
  "snap_policy_generation (assemble_snapshot e c) = co_policy_generation c"
  "snap_provenance (assemble_snapshot e c) \<noteq> PV_UNKNOWN"
  by (simp_all add: assemble_snapshot_def default_snapshot_def)

lemma alive_record_ok:
  assumes "coord_inv c" and "rec \<in> set (alive_records c)"
  shows "layout_inv (wr_layout rec)" and "lay_capacity (wr_layout rec) = res_capacity (wr_resource rec)"
    and "om_find (co_worker_alive c) (wr_worker rec) = Some True"
    and "om_find (co_worker_boot c) (wr_worker rec) = Some (wr_boot rec)"
  using assms coord_invD(2) [OF assms(1)] by (auto simp: alive_records_def om_all_def record_ok_def)

lemma assembled_devices_ok:
  assumes inv: "coord_inv c" and cap: "capacity_ok c"
  shows "devices_ok (assemble_snapshot e c)"
proof -
  have eq: "map (\<lambda>rec. unat (lay_capacity (wr_layout rec))) (alive_records c) =
      map (\<lambda>rec. unat (res_capacity (wr_resource rec))) (alive_records c)"
    using alive_record_ok(2) [OF inv] by (intro map_cong) auto
  show ?thesis
    using cap alive_record_ok(1) [OF inv] unfolding devices_ok_def capacity_ok_def
    by (auto simp: comp_def eq simp del: map_eq_conv)
qed

lemma assembled_snapshot_ok: "coord_inv c \<Longrightarrow> capacity_ok c \<Longrightarrow> snapshot_ok (assemble_snapshot e c)"
  using assembled_devices_ok by (simp add: snapshot_ok_def reservations_within_def)

lemma candidates_bound:
  "length (collect_candidates sn w) \<le> sum_list (map (\<lambda>d. length (lay_allocations (dev_layout d))) (snap_devices sn))"
proof -
  have "length (collect_candidates sn w) \<le>
      sum_list (map (\<lambda>i. length (lay_allocations (dev_layout (snap_devices sn ! i)))) [0 ..< length (snap_devices sn)])"
    unfolding collect_candidates_def length_concat map_map comp_def length_map by (intro sum_list_mono) simp
  also have "map (\<lambda>i. length (lay_allocations (dev_layout (snap_devices sn ! i)))) [0 ..< length (snap_devices sn)] =
      map (\<lambda>d. length (lay_allocations (dev_layout d))) (snap_devices sn)"
    by (rule nth_equalityI) simp_all
  finally show ?thesis .
qed

lemma assembled_planner_input:
  assumes "coord_inv c" and "capacity_ok c"
  shows "planner_input_ok (assemble_snapshot e c) default_weights"
  using assembled_devices_ok [OF assms, of e] default_weights_ok candidates_bound [of "assemble_snapshot e c" default_weights] assms(2)
  by (simp add: planner_input_ok_def capacity_ok_def comp_def)

section \<open>The handlers meet it\<close>

lemmas reply_Inr = accept_Inr refuse_Inr

lemma with_plan_total:
  assumes "\<And>i p. om_find (co_plans c) i = Some p \<Longrightarrow> \<exists>out c'. f i p = Inr (out, c')"
  shows "\<exists>out c'. with_plan m c f = Inr (out, c')"
  using assms by (auto simp: with_plan_def refuse_def split: option.splits)

lemma check_worker_epoch: "check_worker m c = (r, c') \<Longrightarrow> co_epoch c' = co_epoch c"
  by (auto simp: check_worker_def Let_def split: option.splits if_splits prod.splits)

lemma check_worker_cases:
  assumes "coord_inv c"
  obtains why where "check_worker m c = (Some why, c)" | "check_worker m c = (None, c)"
proof -
  obtain r c' where "check_worker m c = (r, c')" by (cases "check_worker m c")
  then show thesis using check_worker_same(1) [OF assms] that by (cases r) auto
qed

interpretation register: total_handler "handle_register m" for m
proof
  show "co_epoch c' = co_epoch c" and "length out = 1" if "handle_register m c = Inr (out, c')" for c out c'
    using that by (auto simp: handle_register_def Let_def reply_Inr mark_worker_dead_def split: if_splits option.splits)
  show "\<exists>out c'. handle_register m c = Inr (out, c')" for c
    by (simp add: handle_register_def accept_def refuse_def Let_def)
qed (rule register_keeps)

interpretation publish_resource: total_handler "handle_publish_resource m" for m
proof
  show "co_epoch c' = co_epoch c" and "length out = 1" if "handle_publish_resource m c = Inr (out, c')" for c out c'
    using that check_worker_epoch [of m c]
    by (auto simp: handle_publish_resource_def Let_def reply_Inr advance_resource_generation_def split: if_splits option.splits prod.splits)
  show "\<exists>out c'. handle_publish_resource m c = Inr (out, c')" if "coord_inv c" for c
    by (cases rule: check_worker_cases [OF that, of m]) (simp_all add: handle_publish_resource_def accept_def refuse_def Let_def)
qed (rule publish_resource_keeps)

interpretation publish_layout: total_handler "handle_publish_layout m" for m
proof
  show "co_epoch c' = co_epoch c" and "length out = 1" if "handle_publish_layout m c = Inr (out, c')" for c out c'
    using that check_worker_epoch [of m c]
    by (auto simp: handle_publish_layout_def Let_def reply_Inr advance_resource_generation_def
        split: if_splits option.splits prod.splits elim!: chain_InrE)
  show "\<exists>out c'. handle_publish_layout m c = Inr (out, c')" if "coord_inv c" for c
  proof -
    have "\<exists>err l. insert_all (msg_allocations m) (mk_layout cap) = Inr (err, l)" for cap
      using insert_all_keeps [OF mk_layout_inv] by blast
    then obtain err l where "insert_all (msg_allocations m) (mk_layout cap) = Inr (err cap, l cap)" for cap by metis
    then show ?thesis
      by (cases rule: check_worker_cases [OF that, of m])
        (auto simp: handle_publish_layout_def Let_def accept_def refuse_def split: option.splits)
  qed
qed (rule publish_layout_keeps)

interpretation publish_allocation: total_handler "handle_publish_allocation m" for m
proof
  show "co_epoch c' = co_epoch c" and "length out = 1" if "handle_publish_allocation m c = Inr (out, c')" for c out c'
    using that check_worker_epoch [of m c]
    by (auto simp: handle_publish_allocation_def Let_def reply_Inr advance_resource_generation_def
        split: if_splits option.splits prod.splits elim!: chain_InrE)
  show "\<exists>out c'. handle_publish_allocation m c = Inr (out, c')" if "coord_inv c" for c
  proof (cases "om_find (co_resources c) (res_id (msg_resource m))")
    case None
    then show ?thesis
      by (cases rule: check_worker_cases [OF that, of m]) (auto simp: handle_publish_allocation_def Let_def refuse_def)
  next
    case (Some rec)
    then have "layout_inv (wr_layout rec)"
      using om_all_find [OF coord_invD(2) [OF that] Some] by (simp add: record_ok_def)
    then obtain err l where "insert_allocation (wr_layout rec) (msg_allocation m) = Inr (err, l)"
      using insert_allocation_total by blast
    then show ?thesis
      using Some by (cases rule: check_worker_cases [OF that, of m])
        (auto simp: handle_publish_allocation_def Let_def accept_def refuse_def split: option.splits)
  qed
qed (rule publish_allocation_keeps)

interpretation invalidate_allocation: total_handler "handle_invalidate_allocation m" for m
proof
  show "co_epoch c' = co_epoch c" and "length out = 1" if "handle_invalidate_allocation m c = Inr (out, c')" for c out c'
    using that check_worker_epoch [of m c]
    by (auto simp: handle_invalidate_allocation_def Let_def reply_Inr advance_resource_generation_def
        split: if_splits option.splits prod.splits elim!: chain_InrE)
  show "\<exists>out c'. handle_invalidate_allocation m c = Inr (out, c')" if "coord_inv c" for c
    using invalidate_first_keeps [OF coord_invD(2) [OF that], of "TypedId (msg_worker_id m)" "TypedId (msg_allocation_id m)"]
    by (cases rule: check_worker_cases [OF that, of m])
      (auto simp: handle_invalidate_allocation_def Let_def accept_def refuse_def)
qed (rule invalidate_allocation_keeps)

interpretation query_fragmentation: total_handler "handle_query_fragmentation e" for e
proof
  show "\<exists>out c'. handle_query_fragmentation e c = Inr (out, c')" if "coord_inv c" for c
  proof -
    have "\<exists>m. compute_metrics l None = Inr m" if "layout_inv l" for l using layout_metrics_ok [OF that] by blast
    then have "\<forall>d \<in> set (snap_devices (assemble_snapshot e c)). \<exists>m. compute_metrics (dev_layout d) None = Inr m"
      using alive_record_ok(1) [OF \<open>coord_inv c\<close>] by auto
    then have "\<exists>ms. map_res (\<lambda>d. compute_metrics (dev_layout d) None) (snap_devices (assemble_snapshot e c)) = Inr ms"
      by (rule map_res_total)
    then show ?thesis by (auto simp: handle_query_fragmentation_def)
  qed
qed (auto simp: handle_query_fragmentation_def intro: query_keeps(1) elim!: chain_InrE)

interpretation query_fit: total_handler "handle_query_fit e m" for e m
proof
  show "\<exists>out c'. handle_query_fit e m c = Inr (out, c')" if "coord_inv c" "capacity_ok c" for c
    using analyze_fit_spec [OF assembled_snapshot_ok [OF that], of e "msg_demand m"] by (auto simp: handle_query_fit_def)
qed (auto simp: handle_query_fit_def elim!: chain_InrE)

interpretation create_plan: total_handler "handle_create_plan e m" for e m
proof
  show "co_epoch c' = co_epoch c" and "length out = 1" if "handle_create_plan e m c = Inr (out, c')" for c out c'
    using that by (auto simp: handle_create_plan_def Let_def split: option.splits elim!: chain_InrE)
  show "\<exists>out c'. handle_create_plan e m c = Inr (out, c')" if "coord_inv c" "capacity_ok c" for c
    using planner_total [OF assembled_planner_input [OF that], of e "msg_demand m" "default_policy\<lparr>pol_generation := co_policy_generation c\<rparr>"
        "TypedId (co_next_plan_id c)" "Generation (co_next_plan_id c)"]
    by (auto simp: handle_create_plan_def Let_def split: option.splits)
qed (rule create_plan_keeps)

lemmas plan_handler_defs = handle_approve_plan_def handle_begin_action_def handle_action_complete_def
  handle_verify_def handle_cancel_plan_def handle_revalidate_def

lemma set_plan_epoch [simp]: "co_epoch (set_plan i p c) = co_epoch c"
  by (simp add: set_plan_def)

lemma release_source_epoch: "release_source act c = Inr c' \<Longrightarrow> co_epoch c' = co_epoch c"
  by (auto simp: release_source_def advance_resource_generation_def Let_def split: option.splits elim!: chain_InrE)

interpretation approve_plan: total_handler "handle_approve_plan m" for m
  by unfold_locales
    (erule (1) approve_keeps, auto simp: plan_handler_defs reply_Inr accept_def refuse_def elim!: with_plan_Inr intro!: with_plan_total split: if_splits)

interpretation begin_action: total_handler "handle_begin_action m" for m
  by unfold_locales
    (erule (1) begin_keeps, auto simp: plan_handler_defs reply_Inr accept_def refuse_def elim!: with_plan_Inr intro!: with_plan_total split: if_splits)

interpretation cancel_plan: total_handler "handle_cancel_plan m" for m
  by unfold_locales
    (erule (1) cancel_keeps, auto simp: plan_handler_defs reply_Inr accept_def refuse_def elim!: with_plan_Inr intro!: with_plan_total split: if_splits)

interpretation revalidate: total_handler "handle_revalidate m" for m
  by unfold_locales
    (erule (1) revalidate_keeps, auto simp: plan_handler_defs reply_Inr accept_def refuse_def elim!: with_plan_Inr intro!: with_plan_total split: if_splits)

interpretation advance_generation: total_handler "handle_advance_generation m" for m
  by unfold_locales
    (erule (1) advance_keeps, auto simp: handle_advance_generation_def Let_def reply_Inr accept_def refuse_def split: if_splits)

interpretation action_complete: total_handler "handle_action_complete m" for m
proof
  show "co_epoch c' = co_epoch c" and "length out = 1" if "handle_action_complete m c = Inr (out, c')" for c out c'
    using that by (auto simp: plan_handler_defs reply_Inr release_source_epoch split: if_splits elim!: with_plan_Inr chain_InrE)
  show "\<exists>out c'. handle_action_complete m c = Inr (out, c')" if inv: "coord_inv c" for c
  proof -
    obtain r where "release_source act c = Inr (r act)" for act using release_source_total [OF inv] by metis
    then show ?thesis by (auto simp: plan_handler_defs accept_def refuse_def intro!: with_plan_total)
  qed
qed (rule complete_keeps)

interpretation verify: total_handler "handle_verify e m" for e m
proof
  show "co_epoch c' = co_epoch c" and "length out = 1" if "handle_verify e m c = Inr (out, c')" for c out c'
    using that by (auto simp: plan_handler_defs reply_Inr split: if_splits option.splits elim!: with_plan_Inr chain_InrE)
  show "\<exists>out c'. handle_verify e m c = Inr (out, c')" if inv: "coord_inv c" and cap: "capacity_ok c" for c
  proof -
    have "\<exists>v. verify_remediation before (assemble_snapshot e c) d p = Inr v"
      if found: "om_find (co_before_snapshots c) i = Some before" for i before d p
    proof -
      have "before_ok before" by (rule om_all_find [OF coord_invD(9) [OF inv] found])
      moreover have "devices_ok before" using cap om_all_find [OF _ found] by (auto simp: capacity_ok_def)
      ultimately have "snapshot_ok before" by (simp add: snapshot_ok_def before_ok_def reservations_within_def)
      then show ?thesis
        using verify_remediation_spec assembled_snapshot_ok [OF inv cap] by blast
    qed
    note runs = this
    show ?thesis
      unfolding handle_verify_def
    proof (rule with_plan_total)
      fix i p
      show "\<exists>out c'. (if plan_state p \<noteq> PS_VERIFYING then refuse ''plan not ready to verify'' c
          else case om_find (co_before_snapshots c) i of
             None \<Rightarrow> refuse ''no before snapshot'' c
           | Some before \<Rightarrow>
             chain (verify_remediation before (assemble_snapshot e c) (co_last_demand c) p) (\<lambda>v.
               Inr ([default_message\<lparr>msg_type := MT_VERIFY, msg_ok := True, msg_verification_outcome := vr_outcome v,
                       msg_detail := first_string (vr_diagnostics v)\<rparr>],
                 set_plan i (p\<lparr>plan_verification := Some (vr_outcome v),
                               plan_state := state_after_verification (vr_outcome v)\<rparr>) c))) = Inr (out, c')"
        using runs [of i _ "co_last_demand c" p] by (cases "om_find (co_before_snapshots c) i") (auto simp: refuse_def)
    qed
  qed
qed (rule verify_keeps)

section \<open>The dispatcher\<close>

text \<open>The handler of a message; the types that are answered without one have none.\<close>

fun handler_of :: "env \<Rightarrow> Message \<Rightarrow> MsgType \<Rightarrow> (Coordinator \<Rightarrow> reply) option" where
  "handler_of e m MT_REGISTER = Some (handle_register m)"
| "handler_of e m MT_PUBLISH_RESOURCE = Some (handle_publish_resource m)"
| "handler_of e m MT_PUBLISH_LAYOUT = Some (handle_publish_layout m)"
| "handler_of e m MT_PUBLISH_ALLOCATION = Some (handle_publish_allocation m)"
| "handler_of e m MT_INVALIDATE_ALLOCATION = Some (handle_invalidate_allocation m)"
| "handler_of e m MT_QUERY_FRAGMENTATION = Some (handle_query_fragmentation e)"
| "handler_of e m MT_QUERY_FIT = Some (handle_query_fit e m)"
| "handler_of e m MT_CREATE_PLAN = Some (handle_create_plan e m)"
| "handler_of e m MT_PLAN_RESULT = Some (refuse ''unhandled'')"
| "handler_of e m MT_APPROVE_PLAN = Some (handle_approve_plan m)"
| "handler_of e m MT_BEGIN_ACTION = Some (handle_begin_action m)"
| "handler_of e m MT_ACTION_COMPLETE = Some (handle_action_complete m)"
| "handler_of e m MT_VERIFY = Some (handle_verify e m)"
| "handler_of e m MT_CANCEL_PLAN = Some (handle_cancel_plan m)"
| "handler_of e m MT_ADVANCE_GENERATION = Some (handle_advance_generation m)"
| "handler_of e m MT_REVALIDATE = Some (handle_revalidate m)"
| "handler_of e m _ = None"

interpretation unhandled: total_handler "refuse ''unhandled''"
  by unfold_locales (auto simp: refuse_def)

lemma handler_total: "handler_of e m t = Some h \<Longrightarrow> total_handler h"
  by (cases t)
    (auto intro: register.total_handler_axioms publish_resource.total_handler_axioms publish_layout.total_handler_axioms
      publish_allocation.total_handler_axioms invalidate_allocation.total_handler_axioms
      query_fragmentation.total_handler_axioms query_fit.total_handler_axioms create_plan.total_handler_axioms
      unhandled.total_handler_axioms approve_plan.total_handler_axioms begin_action.total_handler_axioms
      action_complete.total_handler_axioms verify.total_handler_axioms cancel_plan.total_handler_axioms
      advance_generation.total_handler_axioms revalidate.total_handler_axioms)

lemma handle_handler:
  "handle e m c fs = (case handler_of e m (msg_type m) of
     Some h \<Rightarrow> chain (h c) (\<lambda>(out, c'). Inr (out, c', fs))
   | None \<Rightarrow> (case (if msg_type m = MT_SAVE then handle_save e m c fs else ([], fs)) of (out, fs') \<Rightarrow> Inr (out, c, fs')))"
  by (cases "msg_type m") (simp_all add: handle_def)

lemma handle_save_one: "handle_save e m c fs = (out, fs') \<Longrightarrow> length out = 1"
  by (auto simp: handle_save_def Let_def split: prod.splits sum.splits)

lemma handle_keeps:
  assumes "coord_inv c" and "handle e m c fs = Inr (out, c', fs')"
  shows "coord_inv c'" and "co_epoch c' = co_epoch c" and "length out \<le> 1"
proof -
  have "coord_inv c' \<and> co_epoch c' = co_epoch c \<and> length out \<le> 1"
  proof (cases "handler_of e m (msg_type m)")
    case None
    then show ?thesis
      using assms handle_save_one [of e m c fs] by (auto simp: handle_handler split: prod.splits if_splits)
  next
    case (Some h)
    then have h: "coordinator_handler h" using handler_total total_handler.axioms(1) by blast
    have "h c = Inr (out, c')" using assms(2) Some by (auto simp: handle_handler elim!: chain_InrE)
    then show ?thesis
      using coordinator_handler.keeps [OF h assms(1)] coordinator_handler.epoch [OF h] coordinator_handler.one_reply [OF h]
      by fastforce
  qed
  then show "coord_inv c'" and "co_epoch c' = co_epoch c" and "length out \<le> 1" by simp_all
qed

section \<open>Reachable states\<close>

text \<open>
  A coordinator starts fresh; it handles messages, loses workers, has its policy generation advanced
  through the public method, and is restarted from a durable state.  The decoder of a durable state does
  not check that finished plans carry their outcome, so the restart asks for it; \<open>SAVE\<close> never writes
  a state without it.
\<close>

definition outcomes_kept :: "PersistedState \<Rightarrow> bool" where
  "outcomes_kept st \<longleftrightarrow> (\<forall>pp \<in> set (ps_plans st). outcome_justified (pp_state pp) (pp_verification pp))"

definition co_init :: "Coordinator \<times> file_system \<Rightarrow> bool" where
  "co_init s \<longleftrightarrow> (\<exists>epoch. fst s = mk_Coordinator epoch)"

inductive co_step :: "Coordinator \<times> file_system \<Rightarrow> Coordinator \<times> file_system \<Rightarrow> bool" where
  message: "handle e m c fs = Inr (out, c', fs') \<Longrightarrow> co_step (c, fs) (c', fs')"
| worker_lost: "co_step (c, fs) (mark_worker_dead w c, fs)"
| policy_advanced: "co_step (c, fs) (advance_policy_generation c, fs)"
| restarted: "outcomes_kept st \<Longrightarrow> recover st (mk_Coordinator epoch) = Inr c' \<Longrightarrow> co_step (c, fs) (c', fs)"

inductive_cases co_stepE: "co_step (c, fs) (c', fs')"

abbreviation co_reachable :: "Coordinator \<Rightarrow> bool" where
  "co_reachable c \<equiv> \<exists>fs. reachable co_init co_step (c, fs)"

lemma recover_plan_Inr:
  "recover_plan pp = Inr p \<longleftrightarrow>
     unit_double (pp_benefit pp) \<and> unit_double (pp_cost pp) \<and> unit_double (pp_risk pp) \<and> unit_double (pp_disruption pp) \<and>
     p = (let p = default_plan\<lparr>plan_id := pp_id pp, plan_generation := pp_generation pp,
              plan_domain_id := pp_domain pp, plan_policy_generation := pp_policy_generation pp,
              plan_epoch := pp_epoch pp, plan_based_on_snapshot := pp_based_on_snapshot pp,
              plan_expected_capacity_recovered := pp_expected_capacity_recovered pp,
              plan_benefit := pp_benefit pp, plan_cost := pp_cost pp, plan_risk := pp_risk pp,
              plan_disruption := pp_disruption pp, plan_state := pp_state pp, plan_verification := pp_verification pp,
              plan_actions := map (\<lambda>k. default_action\<lparr>act_kind := k\<rparr>) (pp_action_kinds pp)\<rparr>
          in if depends_on_live_state (plan_state p)
             then p\<lparr>plan_state := PS_REVALIDATION_REQUIRED,
                    plan_precondition_failures := plan_precondition_failures p @
                      [''dynamic evidence not authoritative after restart'']\<rparr>
             else p)"
  unfolding recover_plan_def chain_Inr_iff mk_HealthyScore_iff Let_def sum.inject by metis

lemma recover_plan_ok:
  assumes "recover_plan pp = Inr p" and "outcome_justified (pp_state pp) (pp_verification pp)"
  shows "plan_ok (pp_id pp) p" and "plan_id p = pp_id pp"
  using assms unfolding recover_plan_Inr
  by (simp_all add: Let_def plan_ok_def plan_scores_ok_def outcome_justified_def)

lemma recover_keeps:
  assumes inv: "coord_inv c" and kept: "outcomes_kept st" and rec: "recover st c = Inr c'"
  shows "coord_inv c'"
proof -
  let ?put = "\<lambda>pp plans. chain (recover_plan pp) (\<lambda>p. Inr (om_put (plan_id p) p plans))"
  have fold: "om_inv plans' \<and> om_all plan_ok plans'"
    if "fold_res ?put pps plans = Inr plans'" "om_inv plans" "om_all plan_ok plans"
      "\<forall>pp \<in> set pps. outcome_justified (pp_state pp) (pp_verification pp)" for pps plans plans'
    using that
    by (induction pps arbitrary: plans)
      (auto elim!: chain_InrE simp: om_inv_put om_all_put recover_plan_ok)
  obtain plans where plans: "fold_res ?put (ps_plans st) (co_plans c) = Inr plans"
    using rec by (auto simp: recover_def Let_def elim!: chain_InrE)
  then have "om_inv plans \<and> om_all plan_ok plans"
    using fold coord_invD(3,4) [OF inv] kept by (auto simp: outcomes_kept_def)
  moreover have "co_plans c' = plans" "co_resources c' = []" "co_worker_alive c' = []" "co_worker_boot c' = []"
    "co_before_snapshots c' = co_before_snapshots c"
    "kg_topology (co_generations c') = kg_topology (co_generations c)"
    "kg_capacity (co_generations c') = kg_capacity (co_generations c)"
    using rec plans by (auto simp: recover_def Let_def)
  ultimately show ?thesis using inv by (auto simp: coord_inv_def om_keys_def)
qed

interpretation coordinator: invariant_system co_init co_step "\<lambda>s. coord_inv (fst s)"
proof
  show "coord_inv (fst t)" if "coord_inv (fst s)" "co_step s t" for s t
    using that(2,1)
    by cases (auto intro: handle_keeps(1) mark_worker_dead_inv recover_keeps [OF coord_inv_init])
qed (auto simp: co_init_def coord_inv_init)

lemma co_reachable_inv: "co_reachable c \<Longrightarrow> coord_inv c"
  using coordinator.reachable_inv by fastforce

end
