(* ===== verification/Coordinator_Lifecycle.thy ===== *)
theory Coordinator_Lifecycle
  imports Coordinator_System
begin

text \<open>
  What one message may do: the lifecycle of a plan as a guarded transition system, the refusal of stale
  evidence, and the answers to the queries.
\<close>

section \<open>The lifecycle of a plan\<close>

text \<open>The ways a plan may enter a state, with the authority each one needs.\<close>

fun may_enter :: "PlanState \<Rightarrow> Coordinator \<Rightarrow> Message \<Rightarrow> RemediationPlan \<Rightarrow> VerificationOutcome option \<Rightarrow> bool" where
  "may_enter PS_PLAN_READY c m p v \<longleftrightarrow> msg_type m = MT_CREATE_PLAN"
| "may_enter PS_APPROVED c m p v \<longleftrightarrow> msg_type m = MT_APPROVE_PLAN \<and> plan_state p \<noteq> PS_SUPERSEDED \<and>
     plan_policy_generation p = co_policy_generation c"
| "may_enter PS_EXECUTING c m p v \<longleftrightarrow> msg_type m = MT_BEGIN_ACTION \<and> plan_state p = PS_APPROVED \<and>
     plan_generation p = Generation (msg_plan_gen m) \<and> plan_policy_generation p = co_policy_generation c \<and>
     plan_epoch p = co_epoch c \<and> unat (msg_action_index m) < length (plan_actions p)"
| "may_enter PS_VERIFYING c m p v \<longleftrightarrow> msg_type m = MT_ACTION_COMPLETE \<and> plan_state p = PS_EXECUTING \<and>
     unat (msg_action_index m) < length (plan_actions p)"
| "may_enter PS_COMPLETED c m p v \<longleftrightarrow> msg_type m = MT_VERIFY \<and> plan_state p = PS_VERIFYING \<and>
     v \<in> {Some VO_TARGET_FIT_ACHIEVED, Some VO_IMPROVED, Some VO_PARTIAL_IMPROVEMENT}"
| "may_enter PS_PARTIALLY_COMPLETED c m p v \<longleftrightarrow> msg_type m = MT_VERIFY \<and> plan_state p = PS_VERIFYING \<and> v = Some VO_NO_CHANGE"
| "may_enter PS_FAILED c m p v \<longleftrightarrow> msg_type m = MT_VERIFY \<and> plan_state p = PS_VERIFYING \<and>
     v \<in> {Some VO_REGRESSION, Some VO_VERIFICATION_FAILED}"
| "may_enter PS_CANCELLED c m p v \<longleftrightarrow> msg_type m = MT_CANCEL_PLAN"
| "may_enter PS_REVALIDATION_REQUIRED c m p v \<longleftrightarrow> msg_type m \<in> {MT_REVALIDATE, MT_REGISTER} \<or>
     msg_type m = MT_VERIFY \<and> plan_state p = PS_VERIFYING \<and> v = Some VO_REVALIDATION_REQUIRED"
| "may_enter _ c m p v \<longleftrightarrow> False"

definition lifecycle_step :: "Coordinator \<Rightarrow> Message \<Rightarrow> RemediationPlan \<Rightarrow> RemediationPlan \<Rightarrow> bool" where
  "lifecycle_step c m p p' \<longleftrightarrow> plan_state p' = plan_state p \<or> may_enter (plan_state p') c m p (plan_verification p')"

definition plans_follow :: "Coordinator \<Rightarrow> Message \<Rightarrow> Coordinator \<Rightarrow> bool" where
  "plans_follow c m c' \<longleftrightarrow> (\<forall>i p p'. om_find (co_plans c) i = Some p \<and> om_find (co_plans c') i = Some p' \<longrightarrow> lifecycle_step c m p p')"

lemma plans_follow_same: "co_plans c' = co_plans c \<Longrightarrow> plans_follow c m c'"
  by (auto simp: plans_follow_def lifecycle_step_def)

lemma plans_follow_refl [simp]: "plans_follow c m c"
  by (simp add: plans_follow_same)

lemma plans_follow_put:
  assumes "coord_inv c" and "co_plans c' = om_put i p' (co_plans c)"
    and "\<And>p. om_find (co_plans c) i = Some p \<Longrightarrow> lifecycle_step c m p p'"
  shows "plans_follow c m c'"
  using assms om_find_put [OF coord_invD(3) [OF assms(1)]]
  by (auto simp: plans_follow_def lifecycle_step_def)

lemma plans_follow_set:
  assumes "coord_inv c" and "co_plans c1 = co_plans c" and "\<And>p. om_find (co_plans c) i = Some p \<Longrightarrow> lifecycle_step c m p p'"
  shows "plans_follow c m (set_plan i p' c1)"
  using assms by (intro plans_follow_put) (auto simp: set_plan_def)

lemma check_worker_plans: "check_worker m c = (r, c') \<Longrightarrow> co_plans c' = co_plans c"
  by (auto simp: check_worker_def Let_def split: option.splits if_splits prod.splits)

lemma advance_resource_plans [simp]: "co_plans (advance_resource_generation c) = co_plans c"
  by (simp add: advance_resource_generation_def Let_def)

lemma evidence_plans:
  "handle_publish_resource m c = Inr (out, c') \<Longrightarrow> co_plans c' = co_plans c"
  "handle_publish_layout m c = Inr (out, c') \<Longrightarrow> co_plans c' = co_plans c"
  "handle_publish_allocation m c = Inr (out, c') \<Longrightarrow> co_plans c' = co_plans c"
  "handle_invalidate_allocation m c = Inr (out, c') \<Longrightarrow> co_plans c' = co_plans c"
  using check_worker_plans [of m c]
  by (auto simp: handle_publish_resource_def handle_publish_layout_def handle_publish_allocation_def
      handle_invalidate_allocation_def Let_def reply_Inr split: if_splits option.splits prod.splits elim!: chain_InrE)

lemma query_plans:
  "handle_query_fragmentation e c = Inr (out, c') \<Longrightarrow> co_plans c' = co_plans c"
  "handle_query_fit e m c = Inr (out, c') \<Longrightarrow> co_plans c' = co_plans c"
  "handle_advance_generation m c = Inr (out, c') \<Longrightarrow> co_plans c' = co_plans c"
  by (auto simp: handle_query_fragmentation_def handle_query_fit_def handle_advance_generation_def Let_def reply_Inr
      split: if_splits elim!: chain_InrE)

lemma register_follows:
  assumes "coord_inv c" and "handle_register m c = Inr (out, c')" and "msg_type m = MT_REGISTER"
  shows "plans_follow c m c'"
proof -
  have "co_plans c' = co_plans c \<or> co_plans c' = co_plans (mark_worker_dead (TypedId (msg_worker_id m)) c)"
    using assms(2) by (auto simp: handle_register_def Let_def reply_Inr split: if_splits option.splits)
  then show ?thesis
    using assms(3) by (auto simp: plans_follow_def lifecycle_step_def mark_worker_dead_def Let_def om_find_update)
qed

lemma create_follows:
  assumes "coord_inv c" and "handle_create_plan e m c = Inr (out, c')" and "msg_type m = MT_CREATE_PLAN"
  shows "plans_follow c m c'"
proof -
  consider "co_plans c' = co_plans c" | i p' where "co_plans c' = om_put i p' (co_plans c)" "plan_state p' = PS_PLAN_READY"
    using assms(2) by (auto simp: handle_create_plan_def Let_def split: option.splits elim!: chain_InrE)
  then show ?thesis
    by cases (auto intro: plans_follow_same plans_follow_put [OF assms(1)] simp: lifecycle_step_def assms(3))
qed

lemma release_source_plans: "release_source act c = Inr c' \<Longrightarrow> co_plans c' = co_plans c"
  by (auto simp: release_source_def Let_def split: option.splits elim!: chain_InrE)

lemma lifecycle_steps:
  "msg_type m = MT_CANCEL_PLAN \<Longrightarrow> lifecycle_step c m p (p\<lparr>plan_state := PS_CANCELLED\<rparr>)"
  "msg_type m = MT_REVALIDATE \<Longrightarrow> lifecycle_step c m p (p\<lparr>plan_state := PS_REVALIDATION_REQUIRED\<rparr>)"
  "msg_type m = MT_APPROVE_PLAN \<Longrightarrow> plan_state p \<noteq> PS_SUPERSEDED \<Longrightarrow> plan_policy_generation p = co_policy_generation c \<Longrightarrow>
   lifecycle_step c m p (p\<lparr>plan_state := PS_APPROVED\<rparr>)"
  "msg_type m = MT_BEGIN_ACTION \<Longrightarrow> plan_state p = PS_APPROVED \<Longrightarrow> can_execute c p m \<Longrightarrow>
   \<not> length (plan_actions p) \<le> unat (msg_action_index m) \<Longrightarrow> lifecycle_step c m p (p\<lparr>plan_state := PS_EXECUTING\<rparr>)"
  "msg_type m = MT_ACTION_COMPLETE \<Longrightarrow> plan_state p = PS_EXECUTING \<Longrightarrow>
   \<not> length (plan_actions p) \<le> unat (msg_action_index m) \<Longrightarrow> lifecycle_step c m p (p\<lparr>plan_state := PS_VERIFYING\<rparr>)"
  "msg_type m = MT_VERIFY \<Longrightarrow> plan_state p = PS_VERIFYING \<Longrightarrow>
   lifecycle_step c m p (p\<lparr>plan_verification := Some v, plan_state := state_after_verification v\<rparr>)"
  by (auto simp: lifecycle_step_def can_execute_def Generation.expand split: if_splits) (cases v; simp)

lemma plan_handlers_follow:
  assumes "coord_inv c"
  shows "handle_approve_plan m c = Inr (out, c') \<Longrightarrow> msg_type m = MT_APPROVE_PLAN \<Longrightarrow> plans_follow c m c'"
    and "handle_begin_action m c = Inr (out, c') \<Longrightarrow> msg_type m = MT_BEGIN_ACTION \<Longrightarrow> plans_follow c m c'"
    and "handle_action_complete m c = Inr (out, c') \<Longrightarrow> msg_type m = MT_ACTION_COMPLETE \<Longrightarrow> plans_follow c m c'"
    and "handle_verify e m c = Inr (out, c') \<Longrightarrow> msg_type m = MT_VERIFY \<Longrightarrow> plans_follow c m c'"
    and "handle_cancel_plan m c = Inr (out, c') \<Longrightarrow> msg_type m = MT_CANCEL_PLAN \<Longrightarrow> plans_follow c m c'"
    and "handle_revalidate m c = Inr (out, c') \<Longrightarrow> msg_type m = MT_REVALIDATE \<Longrightarrow> plans_follow c m c'"
  unfolding plan_handler_defs
  by (auto simp: reply_Inr release_source_plans lifecycle_steps split: if_splits option.splits elim!: with_plan_Inr chain_InrE
      intro!: plans_follow_set [OF assms])

lemma handle_follows:
  assumes inv: "coord_inv c" and h: "handle e m c fs = Inr (out, c', fs')"
  shows "plans_follow c m c'"
proof (cases "handler_of e m (msg_type m)")
  case None
  then show ?thesis using h by (auto simp: handle_handler split: prod.splits if_splits intro: plans_follow_same)
next
  case (Some g)
  then have g: "g c = Inr (out, c')" using h by (auto simp: handle_handler elim!: chain_InrE)
  then show ?thesis
    using Some
    by (cases "msg_type m")
      (auto simp: refuse_Inr intro: plans_follow_same evidence_plans query_plans register_follows [OF inv] create_follows [OF inv]
        plan_handlers_follow [OF inv])
qed

section \<open>Stale evidence\<close>

lemma stale_evidence_handled:
  assumes inv: "coord_inv c"
    and type: "msg_type m \<in> {MT_PUBLISH_RESOURCE, MT_PUBLISH_LAYOUT, MT_PUBLISH_ALLOCATION, MT_INVALIDATE_ALLOCATION}"
    and stale: "om_find (co_worker_alive c) (TypedId (msg_worker_id m)) \<noteq> Some True \<or>
      om_find (co_worker_boot c) (TypedId (msg_worker_id m)) \<noteq> Some (Generation (msg_worker_boot m))"
  shows "\<exists>why. handle e m c fs = Inr ([fail why], c, fs)"
proof -
  obtain r where r: "check_worker m c = (r, c)" using check_worker_same(1) [OF inv] by (metis surj_pair)
  then obtain why where "r = Some why" using check_worker_same(2) [OF inv r] stale by auto
  then show ?thesis
    using type r
    by (auto simp: handle_def handle_publish_resource_def handle_publish_layout_def handle_publish_allocation_def
        handle_invalidate_allocation_def refuse_def)
qed

section \<open>A sample run\<close>

text \<open>A worker registers, publishes a resource of 4096 bytes and one evictable allocation on it.\<close>

definition run_messages :: "env \<Rightarrow> Message list \<Rightarrow> Coordinator \<times> file_system \<Rightarrow> (Coordinator \<times> file_system) res" where
  "run_messages e ms s = fold_res (\<lambda>m (c, fs). chain (handle e m c fs) (\<lambda>(_, c', fs'). Inr (c', fs'))) ms s"

lemma run_messages_reachable:
  "reachable co_init co_step s \<Longrightarrow> run_messages e ms s = Inr s' \<Longrightarrow> reachable co_init co_step s'"
  unfolding run_messages_def
proof (induction ms arbitrary: s)
  case (Cons m ms)
  obtain c fs where s: "s = (c, fs)" by (cases s)
  then obtain out c1 fs1 where h: "handle e m c fs = Inr (out, c1, fs1)"
    "fold_res (\<lambda>m (c, fs). chain (handle e m c fs) (\<lambda>(_, c', fs'). Inr (c', fs'))) ms (c1, fs1) = Inr s'"
    using Cons.prems(2) by (auto elim!: chain_InrE)
  have "reachable co_init co_step (c1, fs1)"
    using Cons.prems(1) s by (blast intro: reachable.onward co_step.message [OF h(1)])
  then show ?case using Cons.IH h(2) by blast
qed simp

definition sample_env :: env where
  "sample_env = \<lparr>env_now = 0, env_host = sample_host\<rparr>"

definition sample_evidence :: "Message list" where
  "sample_evidence =
    [default_message\<lparr>msg_type := MT_REGISTER, msg_worker_id := 1, msg_worker_boot := 7\<rparr>,
     default_message\<lparr>msg_type := MT_PUBLISH_RESOURCE, msg_worker_id := 1, msg_worker_boot := 7,
       msg_resource := default_resource\<lparr>res_id := TypedId 1, res_generation := Generation 1, res_capacity := 4096\<rparr>\<rparr>,
     default_message\<lparr>msg_type := MT_PUBLISH_ALLOCATION, msg_worker_id := 1, msg_worker_boot := 7,
       msg_resource := default_resource\<lparr>res_id := TypedId 1\<rparr>, msg_allocation := sample_alloc 1 1024 512 MV_EVICTABLE\<rparr>]"

definition sample_run :: "Message list \<Rightarrow> Coordinator" where
  "sample_run ms = (case run_messages sample_env (sample_evidence @ ms) (mk_Coordinator (Generation 1), \<lambda>_. None) of
     Inr (c, _) \<Rightarrow> c | Inl _ \<Rightarrow> mk_Coordinator (Generation 0))"

lemma sample_run_reachable: "co_reachable (sample_run ms)"
proof -
  have init: "reachable co_init co_step (mk_Coordinator ep, \<lambda>_. None)" for ep
    by (intro reachable.start) (auto simp: co_init_def)
  then show ?thesis
    using run_messages_reachable [OF init] unfolding sample_run_def by (force split: sum.split)
qed

lemma sample_run_state:
  "map (\<lambda>(i, rec). (i, wr_layout rec, wr_alive rec, wr_worker rec)) (co_resources (sample_run [])) =
     [(TypedId 1, sample_layout, True, TypedId 1)]"
  by code_simp

lemma sample_run_registered:
  "co_worker_boot (sample_run []) = [(TypedId 1, Generation 7)]"
  by code_simp

lemma sample_run_capacity: "capacity_ok (sample_run [])"
proof -
  have "map (\<lambda>rec. (unat (res_capacity (wr_resource rec)), length (lay_allocations (wr_layout rec)))) (alive_records (sample_run [])) =
      [(4096, 1)]" by code_simp
  then have "alive_records (sample_run []) \<noteq> []" "map (\<lambda>rec. unat (res_capacity (wr_resource rec))) (alive_records (sample_run [])) = [4096]"
    "map (\<lambda>rec. length (lay_allocations (wr_layout rec))) (alive_records (sample_run [])) = [1]"
    "length (alive_records (sample_run [])) = 1" by auto
  moreover have "co_before_snapshots (sample_run []) = []" by code_simp
  ultimately show ?thesis by (simp add: capacity_ok_def)
qed

text \<open>A coordinator restarted with one plan that waits for approval.\<close>

definition sample_durable :: PersistedState where
  "sample_durable = default_persisted_state\<lparr>ps_plans := [sample_persisted_plan\<lparr>pp_state := PS_PLAN_READY\<rparr>],
     ps_policy_generation := Generation 1\<rparr>"

lemma sample_recovered:
  obtains c p where "reachable co_init co_step (c, \<lambda>_. None)" "co_plans c = [(TypedId 7, p)]" "co_resources c = []"
    "plan_state p = PS_PLAN_READY" "plan_policy_generation p = co_policy_generation c" "length (plan_actions p) = 1"
    "plan_verification p = None"
proof -
  have "unit_double 0" by (simp add: unit_double_def d_val_def d_exponent_def d_fraction_def d_sign_def)
  then obtain p where p: "recover_plan (sample_persisted_plan\<lparr>pp_state := PS_PLAN_READY\<rparr>) = Inr p" "plan_id p = TypedId 7"
    "plan_state p = PS_PLAN_READY" "plan_policy_generation p = Generation 1" "length (plan_actions p) = 1" "plan_verification p = None"
    unfolding recover_plan_Inr by (simp add: Let_def sample_persisted_plan_def)
  then obtain c where c: "recover sample_durable (mk_Coordinator (Generation 1)) = Inr c" "co_plans c = [(TypedId 7, p)]"
    "co_policy_generation c = Generation 1" "co_resources c = []"
    by (simp add: recover_def sample_durable_def Let_def mk_Coordinator_def default_persisted_state_def om_put_def)
  have "reachable co_init co_step (mk_Coordinator (Generation 1), \<lambda>_. None)"
    by (intro reachable.start) (auto simp: co_init_def)
  moreover have "outcomes_kept sample_durable"
    by (simp add: outcomes_kept_def sample_durable_def outcome_justified_def)
  ultimately have "reachable co_init co_step (c, \<lambda>_. None)" using c(1) by (blast intro: reachable.onward co_step.restarted)
  then show thesis using that c p by simp
qed

section \<open>Properties\<close>



text \<open>
  C4: The coordinator does not throw.  In a reachable state whose live resources have capacities that
  add up below \<open>2 ^ 64\<close> and at most \<open>2 ^ 46\<close> allocations, and whose before-snapshots do too, handling any
  message, with any clock and any host, returns at most one reply and a state that satisfies the
  invariant again; the epoch never changes.
\<close>

theorem handle_never_throws:
  assumes "reachable co_init co_step (c, fs)" and "capacity_ok c"
  shows "\<exists>out c' fs'. handle e m c fs = Inr (out, c', fs') \<and> length out \<le> 1 \<and> coord_inv c' \<and> co_epoch c' = co_epoch c"
proof -
  have inv: "coord_inv c" using assms(1) co_reachable_inv by blast
  have "\<exists>out c' fs'. handle e m c fs = Inr (out, c', fs')"
  proof (cases "handler_of e m (msg_type m)")
    case None
    then show ?thesis by (auto simp: handle_handler split: prod.splits)
  next
    case (Some h)
    then show ?thesis
      using total_handler.total [OF handler_total [OF Some] inv assms(2)] by (auto simp: handle_handler)
  qed
  then obtain out c' fs' where "handle e m c fs = Inr (out, c', fs')" by blast
  with handle_keeps [OF inv this] show ?thesis by simp
qed

theorem handle_never_throws_witness:
  "\<exists>out c' fs fs'. handle sample_env (default_message\<lparr>msg_type := MT_CREATE_PLAN, msg_demand := sample_demand\<rparr>)
     (sample_run []) fs = Inr (out, c', fs') \<and> coord_inv c'"
  using sample_run_reachable [of "[]"] handle_never_throws [OF _ sample_run_capacity] by blast

text \<open>
  C12: Stale evidence is refused.  In a reachable state, a message that publishes or invalidates evidence
  in the name of a worker that is not registered, that is dead, or under another boot id than the
  worker's current incarnation, is answered with an error and changes nothing.
\<close>

theorem stale_evidence_refused:
  assumes "reachable co_init co_step (c, fs)"
    and "msg_type m \<in> {MT_PUBLISH_RESOURCE, MT_PUBLISH_LAYOUT, MT_PUBLISH_ALLOCATION, MT_INVALIDATE_ALLOCATION}"
    and "om_find (co_worker_alive c) (TypedId (msg_worker_id m)) \<noteq> Some True \<or>
      om_find (co_worker_boot c) (TypedId (msg_worker_id m)) \<noteq> Some (Generation (msg_worker_boot m))"
  shows "\<exists>why. handle e m c fs = Inr ([fail why], c, fs)"
proof -
  have "coord_inv c" using assms(1) co_reachable_inv by blast
  from stale_evidence_handled [OF this assms(2,3)] show ?thesis .
qed

theorem stale_evidence_refused_witness:
  "\<exists>why fs. handle sample_env (default_message\<lparr>msg_type := MT_INVALIDATE_ALLOCATION, msg_worker_id := 1, msg_worker_boot := 6,
     msg_allocation_id := 1\<rparr>) (sample_run []) fs = Inr ([fail why], sample_run [], fs)"
proof -
  obtain fs where "reachable co_init co_step (sample_run [], fs)" using sample_run_reachable by blast
  from stale_evidence_refused [OF this, of "default_message\<lparr>msg_type := MT_INVALIDATE_ALLOCATION, msg_worker_id := 1,
      msg_worker_boot := 6, msg_allocation_id := 1\<rparr>" sample_env]
  show ?thesis using sample_run_registered by auto
qed

text \<open>
  C5: The lifecycle of a plan.  Whenever a message changes the state of a plan, the change is one of
  \<open>may_enter\<close>: a plan is approved only under the current policy generation; it executes only out of
  \<open>APPROVED\<close>, for the generation the message names, under the current policy generation and epoch and for
  an action it has; it is verified only after an action completed; and it is completed, partially
  completed or failed only by a verification with the outcome that says so.
\<close>

theorem plan_lifecycle:
  assumes "reachable co_init co_step (c, fs)" and "handle e m c fs = Inr (out, c', fs')"
    and "om_find (co_plans c) i = Some p" and "om_find (co_plans c') i = Some p'"
  shows "lifecycle_step c m p p'"
proof -
  have "coord_inv c" using assms(1) co_reachable_inv by blast
  from handle_follows [OF this assms(2)] assms(3,4) show ?thesis by (simp add: plans_follow_def)
qed

theorem plan_lifecycle_witness:
  "\<exists>c fs out c' p p'. handle sample_env (default_message\<lparr>msg_type := MT_APPROVE_PLAN, msg_plan_id := 7\<rparr>) c fs = Inr (out, c', fs) \<and>
     plan_state p = PS_PLAN_READY \<and> plan_state p' = PS_APPROVED \<and>
     lifecycle_step c (default_message\<lparr>msg_type := MT_APPROVE_PLAN, msg_plan_id := 7\<rparr>) p p'"
proof -
  let ?m = "default_message\<lparr>msg_type := MT_APPROVE_PLAN, msg_plan_id := 7\<rparr>"
  obtain c p fs where c: "reachable co_init co_step (c, fs)" "om_find (co_plans c) (TypedId 7) = Some p"
    "plan_state p = PS_PLAN_READY" "plan_policy_generation p = co_policy_generation c"
    using sample_recovered by (metis map_of_Cons_code(2) om_find_def)
  let ?c = "set_plan (TypedId 7) (p\<lparr>plan_state := PS_APPROVED\<rparr>) c"
  have h: "handle sample_env ?m c fs = Inr ([acknowledge], ?c, fs)"
    using c by (simp add: handle_def handle_approve_plan_def with_plan_def accept_def)
  have "om_inv (co_plans c)" using coord_invD(3) co_reachable_inv c(1) by blast
  then have "om_find (co_plans ?c) (TypedId 7) = Some (p\<lparr>plan_state := PS_APPROVED\<rparr>)"
    by (simp add: set_plan_def om_find_put)
  from plan_lifecycle [OF c(1) h c(2) this] h c(3) show ?thesis
    by (intro exI [of _ c] exI [of _ fs] exI [of _ "[acknowledge]"] exI [of _ ?c] exI [of _ p]
        exI [of _ "p\<lparr>plan_state := PS_APPROVED\<rparr>"]) simp
qed



end
