(* ===== verification/Governance_Loop.thy ===== *)
theory Governance_Loop
  imports Coordinator_Lifecycle
begin

text \<open>
  The governance loop through the coordinator: a plan is created, each of its actions is approved, begun
  and reported complete, and the plan is verified.
\<close>

section \<open>Replacing a live record\<close>

lemma nth_elsewhere:
  assumes "i < length (xs @ x # ys)" and "i \<noteq> length xs"
  shows "(xs @ x # ys) ! i \<in> set xs \<union> set ys"
proof (cases "i < length xs")
  case False
  then obtain j where "i = length xs + Suc j" using assms(2) by (metis add_Suc_right less_iff_Suc_add linorder_neqE_nat)
  then show ?thesis using assms(1) by (simp add: nth_append)
qed (simp add: nth_append)

lemma filtered_values_put:
  assumes m: "om_inv m" and key: "\<forall>e \<in> set m. key (snd e) = fst e"
    and i: "i < length (filter P (map snd m))" and v: "v = filter P (map snd m) ! i"
  shows "om_find m (key v) = Some v"
    and "P v' \<Longrightarrow> filter P (map snd (om_put (key v) v' m)) = (filter P (map snd m))[i := v']"
proof -
  have "v \<in> set (filter P (map snd m))" using i v nth_mem by metis
  then have P: "P v" and mem: "(key v, v) \<in> set m" using key by auto
  then show find: "om_find m (key v) = Some v" using m by (simp add: om_find_in_set)
  obtain lo hi where split: "m = lo @ (key v, v) # hi" "\<forall>e \<in> set lo. fst e < key v" "\<forall>e \<in> set hi. key v < fst e"
    using find by (cases rule: om_split_at [OF m, of "key v"]) auto
  let ?A = "filter P (map snd lo)" and ?B = "filter P (map snd hi)"
  have eq: "filter P (map snd m) = ?A @ v # ?B" using P split(1) by simp
  have other: "key x \<noteq> key v" if "x \<in> set ?A \<union> set ?B" for x
  proof -
    from that obtain e where e: "e \<in> set lo \<union> set hi" "x = snd e" by auto
    then have "e \<in> set m" using split(1) by auto
    then have "key x = fst e" using key e(2) by simp
    then show ?thesis using e(1) split(2,3) by auto
  qed
  have "i = length ?A"
  proof (rule ccontr)
    assume "i \<noteq> length ?A"
    then have "(?A @ v # ?B) ! i \<in> set ?A \<union> set ?B" using i unfolding eq by (intro nth_elsewhere)
    with other show False using v eq by metis
  qed
  then show "filter P (map snd (om_put (key v) v' m)) = (filter P (map snd m))[i := v']" if "P v'"
    using that eq split om_put_overwrite [OF split(2,3)] by (simp add: list_update_append)
qed

lemma alive_records_put:
  assumes inv: "coord_inv c" and i: "i < length (alive_records c)"
  defines "rec \<equiv> alive_records c ! i"
  shows "om_find (co_resources c) (res_id (wr_resource rec)) = Some rec" and "wr_alive rec"
    and "wr_alive rec' \<Longrightarrow> alive_records (c\<lparr>co_resources := om_put (res_id (wr_resource rec)) rec' (co_resources c)\<rparr>) =
      (alive_records c)[i := rec']"
proof -
  have key: "\<forall>e \<in> set (co_resources c). res_id (wr_resource (snd e)) = fst e"
    using coord_invD(2) [OF inv] by (auto simp: om_all_def record_ok_def)
  note put = filtered_values_put [OF coord_invD(1) [OF inv] key i [unfolded alive_records_def] rec_def [unfolded alive_records_def, THEN meta_eq_to_obj_eq]]
  show "om_find (co_resources c) (res_id (wr_resource rec)) = Some rec" by (rule put(1))
  show "wr_alive rec' \<Longrightarrow> alive_records (c\<lparr>co_resources := om_put (res_id (wr_resource rec)) rec' (co_resources c)\<rparr>) =
      (alive_records c)[i := rec']" using put(2) by (simp add: alive_records_def)
  show "wr_alive rec" using nth_mem [OF i] by (simp add: rec_def alive_records_def)
qed

section \<open>The messages of the loop\<close>

definition plan_message :: "MsgType \<Rightarrow> RemediationPlan \<Rightarrow> Message" where
  "plan_message t p = default_message\<lparr>msg_type := t, msg_plan_id := id_value (plan_id p), msg_plan_gen := gen_value (plan_generation p)\<rparr>"

definition action_messages :: "RemediationPlan \<Rightarrow> nat \<Rightarrow> Message list" where
  "action_messages p k = [plan_message MT_APPROVE_PLAN p, plan_message MT_BEGIN_ACTION p\<lparr>msg_action_index := of_nat k\<rparr>,
     plan_message MT_ACTION_COMPLETE p\<lparr>msg_action_index := of_nat k, msg_action_ok := True\<rparr>]"

definition loop_messages :: "RemediationPlan \<Rightarrow> Message list" where
  "loop_messages p = concat (map (action_messages p) [0 ..< length (plan_actions p)]) @ [plan_message MT_VERIFY p]"

definition in_loop ::
  "FragmentationSnapshot \<Rightarrow> WorkloadDemand \<Rightarrow> RemediationPlan \<Rightarrow> alloc_key set \<Rightarrow> PlanState \<Rightarrow> Coordinator \<Rightarrow> bool" where
  "in_loop before d p K s c \<longleftrightarrow> coord_inv c \<and> om_find (co_plans c) (plan_id p) = Some (p\<lparr>plan_state := s\<rparr>) \<and>
     plan_policy_generation p = co_policy_generation c \<and> plan_epoch p = co_epoch c \<and>
     om_find (co_before_snapshots c) (plan_id p) = Some before \<and> co_last_demand c = d \<and>
     generations_complete (co_generations c) \<and>
     removed_from K (layouts_of before) (map wr_layout (alive_records c)) \<and>
     map (\<lambda>rec. res_id (wr_resource rec)) (alive_records c) = map (\<lambda>v. res_id (dev_resource v)) (snap_devices before)"

lemma plan_message_fields [simp]:
  "TypedId (msg_plan_id (plan_message t p)) = plan_id p" "msg_type (plan_message t p) = t"
  "gen_value (plan_generation p) = msg_plan_gen (plan_message t p)"
  by (simp_all add: plan_message_def)

lemma run_messages_Cons:
  "handle e m c fs = Inr (out, c', fs') \<Longrightarrow> run_messages e (m # ms) (c, fs) = run_messages e ms (c', fs')"
  by (simp add: run_messages_def)

lemma run_messages_append: "run_messages e (ms @ ns) s = chain (run_messages e ms s) (run_messages e ns)"
  unfolding run_messages_def by (rule fold_res_append)

section \<open>One action\<close>

lemma release_in_loop:
  assumes loop: "in_loop before d p K s c" and inv: "\<forall>l \<in> set (layouts_of before). layout_inv l"
    and act: "action_for before (i, a) act" and new: "(i, a) \<notin> K"
  obtains c' where "release_source act c = Inr c'" "in_loop before d p (insert (i, a) K) s c'"
proof -
  have c: "coord_inv c" and rem: "removed_from K (layouts_of before) (map wr_layout (alive_records c))"
    and ids: "map (\<lambda>rec. res_id (wr_resource rec)) (alive_records c) = map (\<lambda>v. res_id (dev_resource v)) (snap_devices before)"
    using loop by (simp_all add: in_loop_def)
  obtain al where i: "i < length (snap_devices before)" and act': "act_target_resource act = res_id (dev_resource (snap_devices before ! i))"
    "act_source_allocation act = Some a" "om_find (lay_allocations (layouts_of before ! i)) a = Some al"
    using act by (auto simp: action_for_def find_allocation_def)
  have len: "length (alive_records c) = length (snap_devices before)" using ids by (metis length_map)
  define rec where "rec = alive_records c ! i"
  have rid: "act_target_resource act = res_id (wr_resource rec)"
    using arg_cong [OF ids, of "\<lambda>xs. xs ! i"] i len act'(1) by (simp add: rec_def)
  obtain l where l: "remove_allocation (wr_layout rec) a = Inr (None, l)"
    "removed_from (insert (i, a) K) (layouts_of before) ((map wr_layout (alive_records c))[i := l])"
    using remove_step [OF rem _ act'(3) inv new] i len by (auto simp: rec_def)
  note put = alive_records_put [OF c, of i, unfolded len, OF i, folded rec_def]
  define c' where "c' = advance_resource_generation (c\<lparr>co_resources := om_put (act_target_resource act) (rec\<lparr>wr_layout := l\<rparr>) (co_resources c)\<rparr>)"
  have rel: "release_source act c = Inr c'" using act'(2) put(1) l(1) rid by (simp add: release_source_def c'_def)
  then have c': "coord_inv c'" using release_source_total [OF c, of act] by simp
  have records: "alive_records c' = (alive_records c)[i := rec\<lparr>wr_layout := l\<rparr>]"
    using put(2,3) rid by (simp add: c'_def advance_resource_generation_def Let_def alive_records_def)
  have "map (\<lambda>rec. res_id (wr_resource rec)) (alive_records c') = map (\<lambda>rec. res_id (wr_resource rec)) (alive_records c)"
    unfolding records map_update by (simp add: rec_def list_update_same_conv i len)
  moreover have "map wr_layout (alive_records c') = (map wr_layout (alive_records c))[i := l]"
    unfolding records map_update by simp
  moreover have "generations_complete (co_generations c')"
    using loop by (simp add: c'_def in_loop_def generations_complete_def advance_resource_generation_def Let_def gen_next_valid)
  moreover have "co_plans c' = co_plans c" "co_policy_generation c' = co_policy_generation c" "co_epoch c' = co_epoch c"
    "co_before_snapshots c' = co_before_snapshots c" "co_last_demand c' = co_last_demand c"
    by (simp_all add: c'_def advance_resource_generation_def Let_def)
  ultimately have "in_loop before d p (insert (i, a) K) s c'"
    using loop c' l(2) ids by (simp add: in_loop_def)
  with rel show thesis by (rule that)
qed

lemma set_state_in_loop:
  assumes "in_loop before d p K s c" and "s' \<notin> {PS_COMPLETED, PS_PARTIALLY_COMPLETED, PS_FAILED}"
  shows "in_loop before d p K s' (set_plan (plan_id p) (p\<lparr>plan_state := s'\<rparr>) c)"
proof -
  have inv: "coord_inv c" and find: "om_find (co_plans c) (plan_id p) = Some (p\<lparr>plan_state := s\<rparr>)"
    using assms(1) by (simp_all add: in_loop_def)
  have "plan_ok (plan_id p) (p\<lparr>plan_state := s'\<rparr>)"
    using plan_ok_state [OF plan_found [OF inv find] assms(2)] by simp
  then show ?thesis
    using assms(1) coord_inv_set_plan [OF inv] om_find_put [OF coord_invD(3) [OF inv]]
    by (simp add: in_loop_def set_plan_def alive_records_def)
qed

text \<open>The messages that execute an action, with whatever else they carry.\<close>

lemma approve_in_loop:
  assumes loop: "in_loop before d p K s c" and s: "s \<noteq> PS_SUPERSEDED"
    and m: "msg_type m = MT_APPROVE_PLAN" "TypedId (msg_plan_id m) = plan_id p"
  obtains c' where "handle e m c fs = Inr ([acknowledge], c', fs)" "in_loop before d p K PS_APPROVED c'"
proof (rule that)
  show "handle e m c fs = Inr ([acknowledge], set_plan (plan_id p) (p\<lparr>plan_state := PS_APPROVED\<rparr>) c, fs)"
    using loop s m by (simp add: in_loop_def handle_def handle_approve_plan_def with_plan_def accept_def)
qed (rule set_state_in_loop [OF loop], simp)

lemma begin_in_loop:
  assumes loop: "in_loop before d p K PS_APPROVED c"
    and m: "msg_type m = MT_BEGIN_ACTION" "TypedId (msg_plan_id m) = plan_id p" "msg_plan_gen m = gen_value (plan_generation p)"
      "unat (msg_action_index m) < length (plan_actions p)"
  obtains c' where "handle e m c fs = Inr ([acknowledge], c', fs)" "in_loop before d p K PS_EXECUTING c'"
proof (rule that)
  show "handle e m c fs = Inr ([acknowledge], set_plan (plan_id p) (p\<lparr>plan_state := PS_EXECUTING\<rparr>) c, fs)"
    using loop m by (simp add: in_loop_def handle_def handle_begin_action_def with_plan_def accept_def can_execute_def)
qed (rule set_state_in_loop [OF loop], simp)

lemma complete_in_loop:
  assumes loop: "in_loop before d p K PS_EXECUTING c" and inv: "\<forall>l \<in> set (layouts_of before). layout_inv l"
    and m: "msg_type m = MT_ACTION_COMPLETE" "TypedId (msg_plan_id m) = plan_id p" "msg_action_ok m"
      "unat (msg_action_index m) = k" "k < length (plan_actions p)"
    and act: "action_for before (i, a) (plan_actions p ! k)" and new: "(i, a) \<notin> K"
  obtains c' where "handle e m c fs = Inr ([acknowledge], c', fs)" "in_loop before d p (insert (i, a) K) PS_VERIFYING c'"
proof -
  obtain c1 where c1: "release_source (plan_actions p ! k) c = Inr c1" "in_loop before d p (insert (i, a) K) PS_EXECUTING c1"
    using release_in_loop [OF loop inv act new] by blast
  have "handle e m c fs = Inr ([acknowledge], set_plan (plan_id p) (p\<lparr>plan_state := PS_VERIFYING\<rparr>) c1, fs)"
    using loop m c1(1) by (simp add: in_loop_def handle_def handle_action_complete_def with_plan_def accept_def)
  moreover have "in_loop before d p (insert (i, a) K) PS_VERIFYING (set_plan (plan_id p) (p\<lparr>plan_state := PS_VERIFYING\<rparr>) c1)"
    by (rule set_state_in_loop [OF c1(2)]) simp
  ultimately show thesis by (rule that)
qed

lemma action_in_loop:
  assumes loop: "in_loop before d p K s c" and s: "s \<noteq> PS_SUPERSEDED"
    and inv: "\<forall>l \<in> set (layouts_of before). layout_inv l"
    and k: "k < length (plan_actions p)" "length (plan_actions p) \<le> 2 ^ 32"
    and act: "action_for before (i, a) (plan_actions p ! k)" and new: "(i, a) \<notin> K"
  shows "\<exists>c'. run_messages e (action_messages p k) (c, fs) = Inr (c', fs) \<and> in_loop before d p (insert (i, a) K) PS_VERIFYING c'"
proof -
  have idx: "unat (of_nat k :: u32) = k" using k by (simp add: unsigned_of_nat take_bit_nat_eq_self)
  obtain c1 where c1: "handle e (plan_message MT_APPROVE_PLAN p) c fs = Inr ([acknowledge], c1, fs)" "in_loop before d p K PS_APPROVED c1"
    by (rule approve_in_loop [OF loop s, of "plan_message MT_APPROVE_PLAN p" e fs]) simp_all
  obtain c2 where c2: "handle e (plan_message MT_BEGIN_ACTION p\<lparr>msg_action_index := of_nat k\<rparr>) c1 fs = Inr ([acknowledge], c2, fs)"
    "in_loop before d p K PS_EXECUTING c2"
    by (rule begin_in_loop [OF c1(2), of "plan_message MT_BEGIN_ACTION p\<lparr>msg_action_index := of_nat k\<rparr>" e fs])
      (use k(1) idx in \<open>simp_all add: plan_message_def\<close>)
  obtain c3 where c3: "handle e (plan_message MT_ACTION_COMPLETE p\<lparr>msg_action_index := of_nat k, msg_action_ok := True\<rparr>) c2 fs =
      Inr ([acknowledge], c3, fs)" "in_loop before d p (insert (i, a) K) PS_VERIFYING c3"
    by (rule complete_in_loop [OF c2(2) inv, of "plan_message MT_ACTION_COMPLETE p\<lparr>msg_action_index := of_nat k, msg_action_ok := True\<rparr>" k i a e fs])
      (use k(1) idx act new in \<open>simp_all add: plan_message_def\<close>)
  have "run_messages e (action_messages p k) (c, fs) = Inr (c3, fs)"
    by (simp add: action_messages_def run_messages_Cons [OF c1(1)] run_messages_Cons [OF c2(1)] run_messages_Cons [OF c3(1)])
      (simp add: run_messages_def)
  with c3(2) show ?thesis by blast
qed

lemma actions_in_loop:
  assumes loop: "in_loop before d p {} s c" and s: "s \<noteq> PS_SUPERSEDED"
    and inv: "\<forall>l \<in> set (layouts_of before). layout_inv l" and len: "length (plan_actions p) \<le> 2 ^ 32"
    and acts: "list_all2 (action_for before) ks (plan_actions p)" and "distinct ks" and n: "n \<le> length ks"
  shows "\<exists>c'. run_messages e (concat (map (action_messages p) [0 ..< n])) (c, fs) = Inr (c', fs) \<and>
    in_loop before d p (set (take n ks)) (if n = 0 then s else PS_VERIFYING) c'"
  using n
proof (induction n)
  case 0
  then show ?case using loop by (simp add: run_messages_def)
next
  case (Suc n)
  then obtain c1 where c1: "run_messages e (concat (map (action_messages p) [0 ..< n])) (c, fs) = Inr (c1, fs)"
    "in_loop before d p (set (take n ks)) (if n = 0 then s else PS_VERIFYING) c1" by auto
  have n: "n < length ks" using Suc.prems by simp
  have "action_for before (fst (ks ! n), snd (ks ! n)) (plan_actions p ! n)" "n < length (plan_actions p)"
    using list_all2_nthD [OF acts n] list_all2_lengthD [OF acts] n by simp_all
  moreover have "(fst (ks ! n), snd (ks ! n)) \<notin> set (take n ks)"
    using \<open>distinct ks\<close> n by (auto simp: in_set_conv_nth nth_eq_iff_index_eq)
  moreover have "(if n = 0 then s else PS_VERIFYING) \<noteq> PS_SUPERSEDED" using s by simp
  ultimately obtain c' where "run_messages e (action_messages p n) (c1, fs) = Inr (c', fs)"
    "in_loop before d p (insert (ks ! n) (set (take n ks))) PS_VERIFYING c'"
    using action_in_loop [OF c1(2) _ inv _ len, of n "fst (ks ! n)" "snd (ks ! n)" e fs] by auto
  then show ?case using c1(1) n by (auto simp: run_messages_append take_Suc_conv_app_nth)
qed

section \<open>The loop\<close>

lemma layouts_of_assembled [simp]: "layouts_of (assemble_snapshot e c) = map wr_layout (alive_records c)"
  by simp

lemma verify_message_in_loop:
  assumes loop: "in_loop before d p K PS_VERIFYING c" and before: "snapshot_ok before"
    and short: "\<not> demand_fits free_bytes before d" and K: "K \<subseteq> reclaim_keys before" "layouts_fit d (free_without K before)"
    and same: "snap_epoch before = co_epoch c" "snap_policy_generation before = co_policy_generation c"
    and shape: "dem_topology_group d = None" "dem_reservation_duration d = None"
    and m: "msg_type m = MT_VERIFY" "TypedId (msg_plan_id m) = plan_id p"
  shows "\<exists>c' p' r. handle e m c fs = Inr ([r], c', fs) \<and> msg_ok r \<and> msg_verification_outcome r = VO_TARGET_FIT_ACHIEVED \<and>
    om_find (co_plans c') (plan_id p) = Some p' \<and> plan_state p' = PS_COMPLETED \<and>
    plan_verification p' = Some VO_TARGET_FIT_ACHIEVED"
proof -
  let ?after = "assemble_snapshot e c"
  have inv: "coord_inv c" and rem: "removed_from K (layouts_of before) (layouts_of ?after)"
    using loop by (simp_all add: in_loop_def comp_def)
  have dev: "devices_ok before" using before by (simp add: snapshot_ok_def)
  have "snapshot_ok ?after"
    using devices_ok_layouts [OF removed_from_ok [OF rem layouts_of_ok [OF dev]]]
    by (simp add: snapshot_ok_def reservations_within_def)
  moreover have "verification_spec before ?after d = VO_TARGET_FIT_ACHIEVED"
    using loop same by (intro release_achieves_fit [OF dev short K rem _ _ _ _ shape]) (simp_all add: in_loop_def)
  ultimately obtain v where v: "verify_remediation before ?after d (p\<lparr>plan_state := PS_VERIFYING\<rparr>) = Inr v"
    "vr_outcome v = VO_TARGET_FIT_ACHIEVED"
    using verify_remediation_spec [OF before] by metis
  let ?p = "p\<lparr>plan_verification := Some VO_TARGET_FIT_ACHIEVED, plan_state := PS_COMPLETED\<rparr>"
  have "handle e m c fs = Inr ([default_message\<lparr>msg_type := MT_VERIFY, msg_ok := True,
      msg_verification_outcome := VO_TARGET_FIT_ACHIEVED, msg_detail := first_string (vr_diagnostics v)\<rparr>],
      set_plan (plan_id p) ?p c, fs)"
    using loop v m by (simp add: in_loop_def handle_def handle_verify_def with_plan_def)
  then show ?thesis
    using om_find_put [OF coord_invD(3) [OF inv]] by (auto simp: set_plan_def)
qed

lemma verify_in_loop:
  assumes "in_loop before d p K PS_VERIFYING c" and "snapshot_ok before"
    and "\<not> demand_fits free_bytes before d" and "K \<subseteq> reclaim_keys before" "layouts_fit d (free_without K before)"
    and "snap_epoch before = co_epoch c" "snap_policy_generation before = co_policy_generation c"
    and "dem_topology_group d = None" "dem_reservation_duration d = None"
  shows "\<exists>c' p'. run_messages e [plan_message MT_VERIFY p] (c, fs) = Inr (c', fs) \<and>
    om_find (co_plans c') (plan_id p) = Some p' \<and> plan_state p' = PS_COMPLETED \<and>
    plan_verification p' = Some VO_TARGET_FIT_ACHIEVED"
proof -
  obtain c' p' r where v: "handle e (plan_message MT_VERIFY p) c fs = Inr ([r], c', fs)"
    "om_find (co_plans c') (plan_id p) = Some p'" "plan_state p' = PS_COMPLETED" "plan_verification p' = Some VO_TARGET_FIT_ACHIEVED"
    using verify_message_in_loop [OF assms, of "plan_message MT_VERIFY p" e fs] by auto
  have "run_messages e [plan_message MT_VERIFY p] (c, fs) = Inr (c', fs)"
    using v(1) by (simp add: run_messages_def)
  with v(2-4) show ?thesis by blast
qed

lemma plan_length:
  assumes "devices_ok before" and "list_all2 (action_for before) ks acts" and "distinct ks" and "set ks \<subseteq> reclaim_keys before"
  shows "length acts \<le> sum_list (map (\<lambda>v. length (lay_allocations (dev_layout v))) (snap_devices before))"
proof -
  have "length acts = card (set ks)" using assms(2,3) by (simp add: list_all2_lengthD distinct_card)
  also have "\<dots> \<le> card (rc_key ` set (collect_candidates before default_weights))"
    using assms(4) unfolding collect_candidates_keys [of before default_weights, symmetric] by (intro card_mono) simp_all
  also have "\<dots> \<le> length (collect_candidates before default_weights)"
    by (metis card_image_le card_length finite_set le_trans)
  finally show ?thesis using candidates_bound [of before default_weights] by simp
qed

lemma create_in_loop:
  assumes inv: "coord_inv c" and type: "msg_type m = MT_CREATE_PLAN"
    and gens: "generations_complete (co_generations c)"
    and plan: "plan_remediation (assemble_snapshot e c) (msg_demand m) (default_policy\<lparr>pol_generation := co_policy_generation c\<rparr>)
      default_weights (TypedId (co_next_plan_id c)) (Generation (co_next_plan_id c)) = Inr (Some p)"
  defines "q \<equiv> p\<lparr>plan_state := PS_PLAN_READY\<rparr>"
  shows "\<exists>c1. handle e m c fs = Inr ([default_message\<lparr>msg_type := MT_PLAN_RESULT, msg_ok := True, msg_plan := q\<rparr>], c1, fs) \<and>
    in_loop (assemble_snapshot e c) (msg_demand m) q {} PS_PLAN_READY c1"
proof -
  note fields = plan_remediation_fields [OF plan]
  define c1 where "c1 = c\<lparr>co_last_demand := msg_demand m, co_plans := om_put (plan_id p) q (co_plans c),
      co_before_snapshots := om_put (plan_id p) (assemble_snapshot e c) (co_before_snapshots c),
      co_next_plan_id := id_value (plan_id p) + 1\<rparr>"
  have h: "handle e m c fs = Inr ([default_message\<lparr>msg_type := MT_PLAN_RESULT, msg_ok := True, msg_plan := q\<rparr>], c1, fs)"
    using type plan by (simp add: handle_def handle_create_plan_def Let_def q_def c1_def)
  have "removed_from {} (map wr_layout (alive_records c)) (map wr_layout (alive_records c))"
    using alive_record_ok(1) [OF inv] by (intro removed_from_refl) auto
  then have "in_loop (assemble_snapshot e c) (msg_demand m) q {} PS_PLAN_READY c1"
    using handle_keeps(1) [OF inv h] gens fields(4,5) om_find_put [OF coord_invD(3) [OF inv]] om_find_put [OF coord_invD(8) [OF inv]]
    by (simp add: in_loop_def c1_def q_def alive_records_def comp_def)
  with h show ?thesis by blast
qed

end
