(* ===== verification/Durability.thy ===== *)
theory Durability
  imports Coordinator_Lifecycle
begin

text \<open>
  Saving the coordinator, the start of the process \<open>tools/fg_coordinator.cpp\<close> from a state file, and the
  two composed: what survives a restart and what does not.
\<close>

section \<open>The coordinator process\<close>

definition start_coordinator :: "host \<Rightarrow> u64 \<Rightarrow> string \<Rightarrow> file_system \<Rightarrow> Coordinator res" where
  "start_coordinator h epoch state_file fs =
    (let coord = mk_Coordinator (Generation epoch) in
     if state_file \<noteq> '''' \<and> fs state_file \<noteq> None
     then case load_state h state_file fs of
            Inr st \<Rightarrow> recover st coord
          | Inl _ \<Rightarrow> Inr coord
     else Inr coord)"

section \<open>What is saved\<close>

lemma persist_fields [simp]:
  "ps_plans (persist c) = map (persist_plan \<circ> snd) (co_plans c)" "ps_verification_history (persist c) = []"
  "ps_next_plan_id (persist c) = co_next_plan_id c" "ps_policy_generation (persist c) = co_policy_generation c"
  by (simp_all add: persist_def default_persisted_state_def)

lemma persist_reservations_proper: "r \<in> set (ps_reservations (persist c)) \<Longrightarrow> rv_start r < rv_end r"
  by (auto simp: persist_def persist_reservations_def List.map_filter_def split: option.splits)

text \<open>The encoder refuses no state of a coordinator.\<close>

lemma persist_encodable:
  assumes inv: "coord_inv c"
  shows "encode_state (persist c) = Inr (encode_bytes (persist c))" and "distinct (map pp_id (ps_plans (persist c)))"
    and "outcomes_kept (recovered_state (persist c))"
proof -
  have ok: "plan_ok (fst e) (snd e)" if "e \<in> set (co_plans c)" for e
    using coord_invD(4) [OF inv] that by (simp add: om_all_def)
  have "scores_finite (persist_plan (snd e)) \<and> (pp_state (persist_plan (snd e)) = PS_COMPLETED \<longrightarrow> pp_verification (persist_plan (snd e)) \<noteq> None)"
    if "e \<in> set (co_plans c)" for e
    using ok [OF that] by (auto simp: plan_ok_def plan_scores_ok_def unit_double_def scores_finite_def persist_plan_def outcome_justified_def)
  then show "encode_state (persist c) = Inr (encode_bytes (persist c))"
    unfolding encode_state_ok using persist_reservations_proper by auto
  have "map pp_id (ps_plans (persist c)) = map fst (co_plans c)"
    using ok by (auto simp: persist_plan_def plan_ok_def)
  then show "distinct (map pp_id (ps_plans (persist c)))"
    using om_inv_distinct [OF coord_invD(3) [OF inv]] by (simp del: persist_fields)
  show "outcomes_kept (recovered_state (persist c))"
    using ok
    by (auto simp: outcomes_kept_def recovered_state_def stored_state_def degrade_plan_def stored_plan_def persist_plan_def
        plan_ok_def outcome_justified_def)
qed

section \<open>What is restored\<close>

text \<open>
  The plan after a restart: its identity, scores, verification and action kinds are kept, a state that
  depends on live evidence becomes \<open>REVALIDATION_REQUIRED\<close>, and the targets of the actions are lost.
\<close>

definition restore_plan :: "RemediationPlan \<Rightarrow> RemediationPlan" where
  "restore_plan p = default_plan\<lparr>plan_id := plan_id p, plan_generation := plan_generation p,
     plan_domain_id := plan_domain_id p, plan_policy_generation := plan_policy_generation p,
     plan_epoch := plan_epoch p, plan_based_on_snapshot := plan_based_on_snapshot p,
     plan_expected_capacity_recovered := plan_expected_capacity_recovered p,
     plan_benefit := plan_benefit p, plan_cost := plan_cost p, plan_risk := plan_risk p,
     plan_disruption := plan_disruption p,
     plan_state := (if depends_on_live_state (plan_state p) then PS_REVALIDATION_REQUIRED else plan_state p),
     plan_verification := plan_verification p,
     plan_actions := map (\<lambda>a. default_action\<lparr>act_kind := act_kind a\<rparr>) (plan_actions p)\<rparr>"

lemma recover_persisted_plan:
  assumes "plan_scores_ok p"
  shows "recover_plan (degrade_plan (stored_plan (persist_plan p))) = Inr (restore_plan p)"
  using assms unfolding recover_plan_Inr
  by (simp add: plan_scores_ok_def degrade_plan_def stored_plan_def persist_plan_def restore_plan_def Let_def comp_def)

lemma recover_all_plans:
  assumes "\<forall>e \<in> set m. plan_scores_ok (snd e) \<and> plan_id (snd e) = fst e" and "distinct (map fst m)" and "om_inv acc"
  shows "\<exists>plans. fold_res (\<lambda>pp plans. chain (recover_plan pp) (\<lambda>p. Inr (om_put (plan_id p) p plans)))
      (map (\<lambda>e. degrade_plan (stored_plan (persist_plan (snd e)))) m) acc = Inr plans \<and>
    (\<forall>i. om_find plans i = (case om_find m i of None \<Rightarrow> om_find acc i | Some p \<Rightarrow> Some (restore_plan p)))"
  using assms
proof (induction m arbitrary: acc)
  case (Cons e m)
  obtain i p where e: "e = (i, p)" by (cases e)
  then have p: "plan_scores_ok p" "plan_id p = i" and new: "om_find m i = None"
    using Cons.prems by (auto simp: om_find_None)
  have id: "plan_id (restore_plan p) = i" by (simp add: restore_plan_def p(2))
  obtain plans where plans: "fold_res (\<lambda>pp plans. chain (recover_plan pp) (\<lambda>p. Inr (om_put (plan_id p) p plans)))
      (map (\<lambda>e. degrade_plan (stored_plan (persist_plan (snd e)))) m) (om_put i (restore_plan p) acc) = Inr plans"
    "\<forall>j. om_find plans j = (case om_find m j of None \<Rightarrow> om_find (om_put i (restore_plan p) acc) j | Some p \<Rightarrow> Some (restore_plan p))"
    using Cons.IH [of "om_put i (restore_plan p) acc"] Cons.prems by (auto simp: om_inv_put)
  have "om_find plans j = (case om_find (e # m) j of None \<Rightarrow> om_find acc j | Some p \<Rightarrow> Some (restore_plan p))" for j
    using plans(2) new om_find_put [OF Cons.prems(3), of i "restore_plan p"] by (auto simp: e om_find_def split: option.splits)
  then show ?case using plans(1) by (simp add: e recover_persisted_plan [OF p(1)] id)
qed simp

text \<open>
  C14: What a restart keeps.  In every reachable state \<open>SAVE\<close> is not refused by the encoder: when the lists
  are within the bounds of the format and the host transfers all bytes, it is acknowledged, and a
  coordinator process started on the file, with any epoch, comes up without an exception.  It has
  exactly the saved plans, each with its identity, scores, verification outcome and action kinds and
  with live states degraded to \<open>REVALIDATION_REQUIRED\<close>, the same next plan id and policy generation, and no
  resource and no worker: dynamic evidence is not restored.
\<close>

theorem save_restart_roundtrip:
  assumes reach: "reachable co_init co_step (c, fs)"
    and m: "msg_type m = MT_SAVE" "path = (if msg_detail m = '''' then ''fg_state.bin'' else msg_detail m)"
    and size: "counts_ok (persist c)" "length (encode_bytes (persist c)) \<le> 2147483647"
    and host: "h_can_open (env_host e) (path @ ''.tmp'')" "h_can_open (env_host e) path"
      "h_fwrite (env_host e) = (\<lambda>n. n)" "h_fread (env_host e) = (\<lambda>n. n)" "fs path = None \<or> h_rename_replaces (env_host e)"
  shows "\<exists>fs' c'. handle e m c fs = Inr ([acknowledge], c, fs') \<and> start_coordinator (env_host e) epoch path fs' = Inr c' \<and>
    (\<forall>i. om_find (co_plans c') i = map_option restore_plan (om_find (co_plans c) i)) \<and>
    co_next_plan_id c' = co_next_plan_id c \<and> co_policy_generation c' = co_policy_generation c \<and>
    co_resources c' = [] \<and> co_worker_alive c' = [] \<and> coord_inv c'"
proof -
  have inv: "coord_inv c" using reach co_reachable_inv by blast
  note enc = persist_encodable [OF inv]
  define fs' where "fs' = fs(path \<mapsto> encode_bytes (persist c), path @ ''.tmp'' := None)"
  have save: "save_state (env_host e) (persist c) path fs = (Inr (), fs')"
    using enc(1) host by (auto simp: save_state_def h_rename_def Let_def fs'_def fun_eq_iff)
  have "decode_state (encode_bytes (persist c)) = Inr (recovered_state (persist c))"
    using enc size(1) unfolding encode_state_ok by (intro decode_encode_bytes) (auto simp: state_valid_def)
  then have load: "load_state (env_host e) path fs' = Inr (recovered_state (persist c))"
    using host size(2) by (simp add: load_state_def fs'_def Let_def)
  have plans: "ps_plans (recovered_state (persist c)) = map (\<lambda>e. degrade_plan (stored_plan (persist_plan (snd e)))) (co_plans c)"
    by (simp add: recovered_state_def comp_def)
  have "\<forall>e \<in> set (co_plans c). plan_scores_ok (snd e) \<and> plan_id (snd e) = fst e" "distinct (map fst (co_plans c))"
    using coord_invD(3,4) [OF inv] om_inv_distinct by (auto simp: om_all_def plan_ok_def)
  from recover_all_plans [OF this, of "[]"] obtain ps where ps:
    "fold_res (\<lambda>pp plans. chain (recover_plan pp) (\<lambda>p. Inr (om_put (plan_id p) p plans)))
      (ps_plans (recovered_state (persist c))) [] = Inr ps"
    "\<forall>i. om_find ps i = map_option restore_plan (om_find (co_plans c) i)"
    unfolding plans by (auto simp: map_option_case om_find_def [of "[]"] cong: option.case_cong)
  obtain c' where c': "recover (recovered_state (persist c)) (mk_Coordinator (Generation epoch)) = Inr c'" "co_plans c' = ps"
    "co_next_plan_id c' = co_next_plan_id c" "co_policy_generation c' = co_policy_generation c" "co_resources c' = []" "co_worker_alive c' = []"
    using ps(1) by (simp add: recover_def Let_def mk_Coordinator_def recovered_state_def stored_state_def)
  have "path \<noteq> ''''" "fs' path \<noteq> None" using m(2) by (auto simp: fs'_def)
  then have "start_coordinator (env_host e) epoch path fs' = Inr c'"
    using load c'(1) by (simp add: start_coordinator_def Let_def)
  moreover have "handle e m c fs = Inr ([acknowledge], c, fs')"
    using m save by (simp add: handle_def handle_save_def Let_def)
  ultimately show ?thesis using c' ps(2) recover_keeps [OF coord_inv_init enc(3) c'(1)] by blast
qed

theorem save_restart_roundtrip_witness:
  "\<exists>c fs' c' p. handle sample_env (default_message\<lparr>msg_type := MT_SAVE\<rparr>) c (\<lambda>_. None) = Inr ([acknowledge], c, fs') \<and>
    start_coordinator sample_host 2 ''fg_state.bin'' fs' = Inr c' \<and> om_find (co_plans c') (TypedId 7) = Some p"
proof -
  obtain c p where c: "reachable co_init co_step (c, \<lambda>_. None)" "co_plans c = [(TypedId 7, p)]" "co_resources c = []"
    "length (plan_actions p) = 1" "plan_verification p = None"
    using sample_recovered by metis
  have "ps_reservations (persist c) = []" using c(3) by (simp add: persist_def)
  then have "counts_ok (persist c)" and "length (encode_bytes (persist c)) \<le> 2147483647"
    using c
    by (simp_all add: counts_ok_def persist_plan_def encode_bytes_def encode_body_def put_persisted_plan_def put_scores_append
        w_opt_def w_list_def length_concat comp_def sum_list_triv)
  from save_restart_roundtrip [OF c(1) _ refl this, of "default_message\<lparr>msg_type := MT_SAVE\<rparr>" sample_env 2]
  show ?thesis using c(2) by (fastforce simp: sample_env_def sample_host_def default_message_def)
qed

end
