(* ===== verification/Transport.thy ===== *)
theory Transport
  imports Coordinator
begin

text \<open>
  \<open>coordinator/tcp_transport.cpp\<close>: the client, and the server as the threads of its connections around
  one coordinator.  What the sockets do is the input of the model: the list of the results of \<open>recv\<close> and
  \<open>send\<close>.  The coordinator is only touched under the mutex, so one turn of the loop of a connection is
  one step of the server.  The buffer of the source limits a chunk to 4096 bytes; the model takes chunks of
  any length.
\<close>

section \<open>Sending\<close>

datatype send_result = Sent nat | Send_error

text \<open>
  \<open>send_all\<close>: the bytes still to go and the results of \<open>::send\<close>; the value is whether all were handed
  over and which were.  Without a further result the call does not return.
\<close>

fun send_all :: "send_result list \<Rightarrow> u8 list \<Rightarrow> (bool \<times> u8 list) option" where
  "send_all rs [] = Some (True, [])"
| "send_all [] (b # bs) = None"
| "send_all (Send_error # rs) (b # bs) = Some (False, [])"
| "send_all (Sent r # rs) (b # bs) =
    map_option (\<lambda>(ok, out). (ok, take r (b # bs) @ out)) (send_all rs (drop r (b # bs)))"

section \<open>The client\<close>

datatype recv_result = Received "u8 list" | Closed | Interrupted | Recv_error

record TcpClient =
  cl_open :: bool

definition client_close :: "TcpClient \<Rightarrow> TcpClient" where
  "client_close cl = cl\<lparr>cl_open := False\<rparr>"

definition client_connect :: "bool \<Rightarrow> TcpClient \<Rightarrow> bool \<times> TcpClient" where
  "client_connect reachable cl =
    (let cl = client_close cl in if reachable then (True, cl\<lparr>cl_open := True\<rparr>) else (False, cl))"

definition send_frame :: "send_result list \<Rightarrow> Message \<Rightarrow> TcpClient \<Rightarrow> (bool \<times> u8 list) option" where
  "send_frame rs msg cl = (if \<not> cl_open cl then Some (False, []) else send_all rs (frame_encode msg))"

text \<open>The loop of \<open>recv_frame\<close>; the value \<open>None\<close> of the outer option is a call that blocks.\<close>

fun recv_loop :: "recv_result list \<Rightarrow> u8 list \<Rightarrow> Message option res option" where
  "recv_loop [] dec = None"
| "recv_loop (Closed # rs) dec = Some (Inr None)"
| "recv_loop (Interrupted # rs) dec = recv_loop rs dec"
| "recv_loop (Recv_error # rs) dec = Some (Inr None)"
| "recv_loop (Received data # rs) dec =
    (case feed dec data of
       (Inl e, _) \<Rightarrow> Some (Inl e)
     | (Inr (Some m), _) \<Rightarrow> Some (Inr (Some m))
     | (Inr None, dec) \<Rightarrow> recv_loop rs dec)"

definition recv_frame :: "recv_result list \<Rightarrow> TcpClient \<Rightarrow> Message option res option" where
  "recv_frame rs cl = (if \<not> cl_open cl then Some (Inr None) else recv_loop rs [])"

section \<open>A connection of the server\<close>

record Connection =
  cn_dec :: "u8 list"
  cn_worker :: u64

definition new_connection :: Connection where
  "new_connection = \<lparr>cn_dec = [], cn_worker = 0\<rparr>"

type_synonym served = "(u8 list list \<times> Connection \<times> Coordinator \<times> file_system) res"

definition serve_message :: "env \<Rightarrow> Message \<Rightarrow> Connection \<Rightarrow> Coordinator \<Rightarrow> file_system \<Rightarrow> served" where
  "serve_message e msg cn coord fs =
    (let cn = (if msg_type msg = MT_REGISTER then cn\<lparr>cn_worker := msg_worker_id msg\<rparr> else cn) in
     chain (handle e msg coord fs) (\<lambda>(replies, coord, fs). Inr (map frame_encode replies, cn, coord, fs)))"

definition serve_chunk :: "env \<Rightarrow> u8 list \<Rightarrow> Connection \<Rightarrow> Coordinator \<Rightarrow> file_system \<Rightarrow> served" where
  "serve_chunk e data cn coord fs =
    (case feed (cn_dec cn) data of
       (Inl x, _) \<Rightarrow> Inl x
     | (Inr None, dec) \<Rightarrow> Inr ([], cn\<lparr>cn_dec := dec\<rparr>, coord, fs)
     | (Inr (Some msg), dec) \<Rightarrow> serve_message e msg (cn\<lparr>cn_dec := dec\<rparr>) coord fs)"

definition close_connection :: "Connection \<Rightarrow> Coordinator \<Rightarrow> Coordinator" where
  "close_connection cn coord = (if cn_worker cn \<noteq> 0 then mark_worker_dead (TypedId (cn_worker cn)) coord else coord)"

text \<open>The loop of a connection that has the server for itself, until \<open>recv\<close> reports the end.\<close>

fun serve_chunks :: "(env \<times> u8 list) list \<Rightarrow> Connection \<Rightarrow> Coordinator \<Rightarrow> file_system \<Rightarrow> served" where
  "serve_chunks [] cn coord fs = Inr ([], cn, coord, fs)"
| "serve_chunks ((e, data) # rest) cn coord fs =
    chain (serve_chunk e data cn coord fs) (\<lambda>(out, cn, coord, fs).
    chain (serve_chunks rest cn coord fs) (\<lambda>(out', cn, coord, fs). Inr (out @ out', cn, coord, fs)))"

definition serve_connection :: "(env \<times> u8 list) list \<Rightarrow> Coordinator \<Rightarrow> file_system \<Rightarrow> (u8 list list \<times> Coordinator \<times> file_system) res" where
  "serve_connection chunks coord fs =
    chain (serve_chunks chunks new_connection coord fs) (\<lambda>(out, cn, coord, fs). Inr (out, close_connection cn coord, fs))"

section \<open>The server\<close>

record Server =
  sv_coord :: Coordinator
  sv_files :: file_system
  sv_connections :: "nat \<rightharpoonup> Connection"

definition start_server :: "Coordinator \<Rightarrow> file_system \<Rightarrow> Server" where
  "start_server coord fs = \<lparr>sv_coord = coord, sv_files = fs, sv_connections = Map.empty\<rparr>"

inductive srv_step :: "Server \<Rightarrow> Server \<Rightarrow> bool" where
  accepted: "sv_connections s cs = None \<Longrightarrow>
    srv_step s (s\<lparr>sv_connections := (sv_connections s)(cs \<mapsto> new_connection)\<rparr>)"
| received: "sv_connections s cs = Some cn \<Longrightarrow>
    serve_chunk e data cn (sv_coord s) (sv_files s) = Inr (out, cn', coord, fs) \<Longrightarrow>
    srv_step s (s\<lparr>sv_coord := coord, sv_files := fs, sv_connections := (sv_connections s)(cs \<mapsto> cn')\<rparr>)"
| closed: "sv_connections s cs = Some cn \<Longrightarrow>
    srv_step s (s\<lparr>sv_coord := close_connection cn (sv_coord s), sv_connections := (sv_connections s)(cs := None)\<rparr>)"

inductive_cases srv_stepE: "srv_step s t"

end
