(* ===== verification/Transport_Correct.thy ===== *)
theory Transport_Correct
  imports Transport Coordinator_Lifecycle
begin

text \<open>
  The transport: bytes go out completely or the failure is reported, a connection that carries one
  request at a time behaves as the coordinator called directly, and the interleaved steps of all
  connections are steps of the coordinator, so its invariant holds of the server.
\<close>

section \<open>Sending\<close>

lemma send_all_sound:
  assumes "send_all rs bs = Some (ok, out)"
  shows "\<exists>rest. bs = out @ rest \<and> (ok \<longleftrightarrow> rest = [])"
  using assms
proof (induction rs bs arbitrary: out rule: send_all.induct)
  case (4 r rs b bs)
  then obtain out' where out': "send_all rs (drop r (b # bs)) = Some (ok, out')" "out = take r (b # bs) @ out'" by auto
  from "4.IH" [OF out'(1)] obtain rest where "drop r (b # bs) = out' @ rest" "ok \<longleftrightarrow> rest = []" by blast
  then show ?case using out'(2) append_take_drop_id [of r "b # bs"] by (metis append.assoc)
qed auto

lemma send_all_returns:
  assumes "\<forall>r \<in> set rs. r \<noteq> Sent 0" and "length bs \<le> length rs"
  shows "\<exists>ok out. send_all rs bs = Some (ok, out) \<and> (Send_error \<notin> set rs \<longrightarrow> ok)"
  using assms
proof (induction rs bs rule: send_all.induct)
  case (4 r rs b bs)
  then have "\<exists>ok out. send_all rs (drop r (b # bs)) = Some (ok, out) \<and> (Send_error \<notin> set rs \<longrightarrow> ok)"
    by (intro "4.IH") auto
  then show ?case by auto
qed auto

section \<open>Receiving\<close>

lemma recv_loop_partial:
  assumes "feed_all dec cs = (replicate (length cs) (Inr None), dec')"
  shows "recv_loop (map Received cs @ rs) dec = recv_loop rs dec'"
  using assms
proof (induction cs arbitrary: dec)
  case (Cons c cs)
  then show ?case by (cases "feed dec c") (auto split: prod.splits)
qed simp

lemma recv_frame_reassembles:
  assumes "payload_fits m" and "concat cs @ c = frame_encode m" and "c \<noteq> []" and "cl_open cl"
  shows "recv_frame (map Received (cs @ [c]) @ rs) cl = Some (Inr (Some (message_view m)))"
proof -
  have "feed_all [] cs = (replicate (length cs) (Inr None), concat cs)"
    using feed_all_partial [OF assms(1), of "[]" cs c] assms(2,3) by simp
  moreover have "feed (concat cs) c = (Inr (Some (message_view m)), [])"
    using feed_complete [OF assms(1), of "concat cs" c "[]"] assms(2) by simp
  ultimately show ?thesis using assms(4) by (simp add: recv_frame_def recv_loop_partial)
qed

section \<open>One connection\<close>

text \<open>The specification: the coordinator called with one message after the other.\<close>

fun answer :: "(env \<times> Message) list \<Rightarrow> Coordinator \<Rightarrow> file_system \<Rightarrow> (Message list \<times> Coordinator \<times> file_system) res" where
  "answer [] c fs = Inr ([], c, fs)"
| "answer ((e, m) # ms) c fs =
    chain (handle e m c fs) (\<lambda>(out, c, fs). chain (answer ms c fs) (\<lambda>(out', c, fs). Inr (out @ out', c, fs)))"

definition next_worker :: "u64 \<Rightarrow> Message \<Rightarrow> u64" where
  "next_worker w m = (if msg_type m = MT_REGISTER then msg_worker_id m else w)"

text \<open>A request: its environment, its message, and the chunks its frame arrives in.\<close>

type_synonym request = "env \<times> Message \<times> u8 list list"

definition request_ok :: "request \<Rightarrow> bool" where
  "request_ok r \<longleftrightarrow> (case r of (_, m, cs) \<Rightarrow> payload_fits m \<and> concat cs = frame_encode m \<and> cs \<noteq> [] \<and> last cs \<noteq> [])"

definition request_chunks :: "request \<Rightarrow> (env \<times> u8 list) list" where
  "request_chunks r = (case r of (e, _, cs) \<Rightarrow> map (Pair e) cs)"

definition request_message :: "request \<Rightarrow> env \<times> Message" where
  "request_message r = (case r of (e, m, _) \<Rightarrow> (e, message_view m))"

lemma serve_chunks_append:
  "serve_chunks (xs @ ys) cn c fs = chain (serve_chunks xs cn c fs) (\<lambda>(out, cn, c, fs).
     chain (serve_chunks ys cn c fs) (\<lambda>(out', cn, c, fs). Inr (out @ out', cn, c, fs)))"
  by (induction xs arbitrary: cn c fs) (auto simp: chain_def split: sum.splits prod.splits)

lemma serve_chunks_partial:
  assumes "feed_all (cn_dec cn) cs = (replicate (length cs) (Inr None), dec)"
  shows "serve_chunks (map (Pair e) cs) cn c fs = Inr ([], cn\<lparr>cn_dec := dec\<rparr>, c, fs)"
  using assms
proof (induction cs arbitrary: cn)
  case (Cons d cs)
  then obtain dec1 where d: "feed (cn_dec cn) d = (Inr None, dec1)" "feed_all dec1 cs = (replicate (length cs) (Inr None), dec)"
    by (auto split: prod.splits)
  then show ?case using Cons.IH [of "cn\<lparr>cn_dec := dec1\<rparr>"] by (simp add: serve_chunk_def)
qed simp

lemma serve_request:
  assumes "request_ok r" and "cn_dec cn = []"
  shows "serve_chunks (request_chunks r) cn c fs =
    (case request_message r of (e, m) \<Rightarrow> chain (handle e m c fs) (\<lambda>(out, c, fs).
       Inr (map frame_encode out, cn\<lparr>cn_worker := next_worker (cn_worker cn) m\<rparr>, c, fs)))"
proof -
  obtain e m cs where r: "r = (e, m, cs)" by (cases r)
  then have m: "payload_fits m" "concat cs = frame_encode m" "cs \<noteq> []" "last cs \<noteq> []" using assms(1) by (simp_all add: request_ok_def)
  obtain ds d where ds: "cs = ds @ [d]" "d \<noteq> []" using m(3,4) by (metis append_butlast_last_id)
  have "feed_all (cn_dec cn) ds = (replicate (length ds) (Inr None), concat ds)"
    using feed_all_partial [OF m(1), of "[]" ds d] m(2) ds assms(2) by simp
  moreover have "feed (concat ds) d = (Inr (Some (message_view m)), [])"
    using feed_complete [OF m(1), of "concat ds" d "[]"] m(2) ds by simp
  ultimately show ?thesis
    using assms(2)
    by (simp add: r ds(1) request_chunks_def request_message_def serve_chunks_append serve_chunks_partial serve_chunk_def
        serve_message_def next_worker_def chain_def split: sum.split prod.split)
qed

lemma serve_requests_from:
  assumes "\<forall>r \<in> set rs. request_ok r" and "cn_dec cn = []"
  shows "serve_chunks (concat (map request_chunks rs)) cn c fs =
    chain (answer (map request_message rs) c fs) (\<lambda>(out, c, fs).
      Inr (map frame_encode out, cn\<lparr>cn_worker := fold (\<lambda>m w. next_worker w m) (map (snd \<circ> request_message) rs) (cn_worker cn)\<rparr>, c, fs))"
  using assms
proof (induction rs arbitrary: cn c fs)
  case (Cons r rs)
  obtain e m where r: "request_message r = (e, m)" by (cases "request_message r")
  have r_ok: "request_ok r" and rs_ok: "\<forall>r \<in> set rs. request_ok r" using Cons.prems(1) by simp_all
  have dec: "cn_dec (cn\<lparr>cn_worker := next_worker (cn_worker cn) m\<rparr>) = []" using Cons.prems(2) by simp
  show ?case
    by (simp add: serve_chunks_append serve_request [OF r_ok Cons.prems(2)] r)
      (auto simp: chain_def Cons.IH [OF rs_ok dec] split: sum.split prod.split)
qed simp

section \<open>The server\<close>

definition srv_init :: "Server \<Rightarrow> bool" where
  "srv_init s \<longleftrightarrow> (\<exists>epoch fs. s = start_server (mk_Coordinator epoch) fs)"

definition srv_state :: "Server \<Rightarrow> Coordinator \<times> file_system" where
  "srv_state s = (sv_coord s, sv_files s)"

lemma serve_chunk_step:
  assumes "serve_chunk e data cn c fs = Inr (out, cn', c', fs')"
  shows "co_step\<^sup>*\<^sup>* (c, fs) (c', fs')"
  using assms
  by (auto simp: serve_chunk_def serve_message_def Let_def split: prod.splits sum.splits option.splits
      elim!: chain_InrE intro!: r_into_rtranclp intro: co_step.message)

lemma close_connection_step: "co_step\<^sup>*\<^sup>* (c, fs) (close_connection cn c, fs)"
  by (auto simp: close_connection_def intro: co_step.worker_lost)

interpretation server: simulated_invariant srv_init srv_step co_init co_step srv_state "\<lambda>s. coord_inv (fst s)"
proof
  show "co_init (srv_state s)" if "srv_init s" for s
    using that by (auto simp: srv_init_def srv_state_def start_server_def co_init_def)
  show "co_step\<^sup>*\<^sup>* (srv_state s) (srv_state t)" if "srv_step s t" for s t
    using that by cases (auto simp: srv_state_def intro: serve_chunk_step close_connection_step)
qed

lemma server_coordinator: "reachable srv_init srv_step s \<Longrightarrow> reachable co_init co_step (sv_coord s, sv_files s)"
  using server.reachable_abs by (simp add: srv_state_def)

lemma mark_worker_dead_excludes:
  assumes "coord_inv c"
  shows "\<forall>rec \<in> set (alive_records (mark_worker_dead w c)). wr_worker rec \<noteq> w"
    and "om_find (co_worker_alive (mark_worker_dead w c)) w \<noteq> Some True"
proof -
  show "\<forall>rec \<in> set (alive_records (mark_worker_dead w c)). wr_worker rec \<noteq> w"
    using mark_worker_dead_records by (auto simp: alive_records_def)
  show "om_find (co_worker_alive (mark_worker_dead w c)) w \<noteq> Some True"
    using om_find_put [OF coord_invD(5) [OF assms]] by (simp add: mark_worker_dead_alive)
qed

text \<open>A frame that arrives in one chunk on a connection with nothing pending.\<close>

lemma frame_step:
  assumes "sv_connections s i = Some cn" and "cn_dec cn = []" and "payload_fits m"
    and "handle e (message_view m) (sv_coord s) (sv_files s) = Inr (out, c, fs)"
  shows "srv_step s (s\<lparr>sv_coord := c, sv_files := fs,
    sv_connections := (sv_connections s)(i \<mapsto> cn\<lparr>cn_worker := next_worker (cn_worker cn) (message_view m)\<rparr>)\<rparr>)"
proof -
  have "request_ok (e, m, [frame_encode m])"
    using assms(3) length_frame_encode [of m] by (auto simp: request_ok_def)
  from serve_request [OF this assms(2)] assms(4)
  have "serve_chunk e (frame_encode m) cn (sv_coord s) (sv_files s) =
      Inr (map frame_encode out, cn\<lparr>cn_worker := next_worker (cn_worker cn) (message_view m)\<rparr>, c, fs)"
    by (simp add: request_chunks_def request_message_def chain_Inr_right)
  from srv_step.received [OF assms(1) this] show ?thesis .
qed

text \<open>A registration, and the server after it.\<close>

definition registration :: "u64 \<Rightarrow> Message" where
  "registration boot = default_message\<lparr>msg_type := MT_REGISTER, msg_worker_id := 3, msg_worker_boot := boot, msg_epoch := 1\<rparr>"

lemma registration_wire:
  "payload_fits (registration boot)" "message_view (registration boot) = registration boot"
  "next_worker w (registration boot) = 3" "sample_message = registration 9"
  by (simp_all add: payload_fits_def message_fits_def encode_payload_def message_view_def registration_def default_message_def
      next_worker_def sample_message_def)

definition sample_registered :: Coordinator where
  "sample_registered = mk_Coordinator (Generation 1)\<lparr>co_worker_boot := [(TypedId 3, Generation 9)], co_worker_alive := [(TypedId 3, True)]\<rparr>"

lemma sample_message_handled [simp]:
  "handle e (message_view sample_message) (mk_Coordinator (Generation 1)) fs = Inr ([acknowledge], sample_registered, fs)"
  "next_worker w (message_view sample_message) = 3"
  unfolding registration_wire
  by (simp_all add: handle_def handle_register_def accept_def registration_def sample_registered_def mk_Coordinator_def om_put_def
      next_worker_def Let_def)

definition sample_server :: Server where
  "sample_server = \<lparr>sv_coord = sample_registered, sv_files = \<lambda>_. None, sv_connections = [1 \<mapsto> \<lparr>cn_dec = [], cn_worker = 3\<rparr>]\<rparr>"

lemma sample_server_reachable: "reachable srv_init srv_step sample_server"
proof -
  let ?s0 = "start_server (mk_Coordinator (Generation 1)) (\<lambda>_. None)"
  let ?s1 = "?s0\<lparr>sv_connections := [1 \<mapsto> new_connection]\<rparr>"
  have "reachable srv_init srv_step ?s0" by (intro reachable.start) (auto simp: srv_init_def)
  moreover have "srv_step ?s0 ?s1" using srv_step.accepted [of ?s0 1] by (simp add: start_server_def)
  moreover have "srv_step ?s1 sample_server"
    using frame_step [of ?s1 1 new_connection sample_message sample_env "[acknowledge]" sample_registered "\<lambda>_. None"]
    by (simp add: new_connection_def start_server_def sample_message_fits sample_server_def)
  ultimately show ?thesis by (blast intro: reachable.onward)
qed

section \<open>Properties\<close>

text \<open>
  C37: Sending ends.  When every call of \<open>::send\<close> takes at least one byte or reports an error, \<open>send_all\<close> is
  done after at most as many calls as there are bytes; it hands over a prefix of them, in order, reports
  success exactly when that is all of them, and does so when no call fails.
\<close>

theorem send_all_terminates:
  assumes "\<forall>r \<in> set rs. r \<noteq> Sent 0" and "length bs \<le> length rs"
  shows "\<exists>ok out rest. send_all rs bs = Some (ok, out) \<and> bs = out @ rest \<and> (ok \<longleftrightarrow> rest = []) \<and>
    (Send_error \<notin> set rs \<longrightarrow> ok)"
  using send_all_returns [OF assms] send_all_sound by blast

theorem send_all_terminates_witness:
  "\<exists>ok out rest. send_all [Sent 2, Sent 2, Sent 1] [1, 2, 3] = Some (ok, out) \<and> [1, 2, 3] = out @ rest \<and> ok"
  using send_all_terminates [of "[Sent 2, Sent 2, Sent 1]" "[1, 2, 3]"] by auto

text \<open>
  C13: The transport refines the coordinator.  When the requests on a connection arrive one after the
  other, each frame cut into chunks in any way, the connection sends exactly the frames of the replies
  that the coordinator gives to the messages handled directly and in that order; it throws exactly
  when the coordinator does; and when it ends, the coordinator is the one after those calls with the
  worker that registered last marked dead.
\<close>

theorem serve_requests_refines:
  assumes "\<forall>r \<in> set rs. request_ok r"
  shows "serve_connection (concat (map request_chunks rs)) c fs =
    chain (answer (map request_message rs) c fs) (\<lambda>(out, c, fs).
      Inr (map frame_encode out,
        close_connection \<lparr>cn_dec = [], cn_worker = fold (\<lambda>m w. next_worker w m) (map (snd \<circ> request_message) rs) 0\<rparr> c, fs))"
proof -
  have "cn_dec new_connection = []" by (simp add: new_connection_def)
  from serve_requests_from [OF assms this] show ?thesis
    by (auto simp: serve_connection_def chain_def new_connection_def split: sum.split prod.split)
qed

theorem serve_requests_refines_witness:
  "serve_connection [(sample_env, take 5 (frame_encode sample_message)), (sample_env, drop 5 (frame_encode sample_message))]
     (mk_Coordinator (Generation 1)) (\<lambda>_. None) =
   Inr ([frame_encode acknowledge], close_connection \<lparr>cn_dec = [], cn_worker = 3\<rparr> sample_registered, \<lambda>_. None)"
proof -
  let ?r = "(sample_env, sample_message, [take 5 (frame_encode sample_message), drop 5 (frame_encode sample_message)])"
  have "request_ok ?r" by (simp add: request_ok_def sample_message_fits length_frame_encode)
  from serve_requests_refines [of "[?r]" "mk_Coordinator (Generation 1)" "\<lambda>_. None"] this show ?thesis
    by (simp add: request_chunks_def request_message_def sample_message_handled)
qed



text \<open>
  A connection closes the worker, not its incarnation.  There is a run in which a worker registers
  on a second connection with a fresh boot id and the coordinator accepts it as the current
  incarnation; when the old connection is then closed, the fresh incarnation is marked dead although
  its own connection is open, and the resources it publishes are refused.
\<close>

theorem stale_close_kills_incarnation:
  "\<exists>s t why. reachable srv_init srv_step s \<and> srv_step s t \<and>
     om_find (co_worker_boot (sv_coord s)) (TypedId 3) = Some (Generation 10) \<and>
     om_find (co_worker_alive (sv_coord s)) (TypedId 3) = Some True \<and>
     sv_connections t = (sv_connections s)(1 := None) \<and> sv_connections t 2 = Some \<lparr>cn_dec = [], cn_worker = 3\<rparr> \<and>
     om_find (co_worker_alive (sv_coord t)) (TypedId 3) = Some False \<and>
     handle sample_env (default_message\<lparr>msg_type := MT_PUBLISH_RESOURCE, msg_worker_id := 3, msg_worker_boot := 10\<rparr>)
       (sv_coord t) fs = Inr ([fail why], sv_coord t, fs)"
proof -
  let ?cn = "\<lparr>cn_dec = [], cn_worker = 3\<rparr>" and ?s = sample_server
  let ?s1 = "?s\<lparr>sv_connections := [1 \<mapsto> ?cn, 2 \<mapsto> new_connection]\<rparr>"
  define c2 where "c2 = sample_registered\<lparr>co_worker_boot := [(TypedId 3, Generation 10)]\<rparr>"
  let ?s2 = "?s\<lparr>sv_coord := c2, sv_connections := [1 \<mapsto> ?cn, 2 \<mapsto> ?cn]\<rparr>"
  let ?t = "?s2\<lparr>sv_coord := close_connection ?cn c2, sv_connections := (sv_connections ?s2)(1 := None)\<rparr>"
  have "srv_step ?s ?s1" using srv_step.accepted [of ?s 2] by (simp add: sample_server_def)
  moreover have "handle sample_env (registration 10) sample_registered (\<lambda>_. None) = Inr ([acknowledge], c2, \<lambda>_. None)"
    by (simp add: handle_def handle_register_def accept_def registration_def sample_registered_def mk_Coordinator_def om_put_def
        c2_def mark_worker_dead_def om_update_all_def Let_def)
  then have "srv_step ?s1 ?s2"
    using frame_step [of ?s1 2 new_connection "registration 10" sample_env "[acknowledge]" c2 "\<lambda>_. None"]
    by (simp add: registration_wire new_connection_def sample_server_def)
  ultimately have s2: "reachable srv_init srv_step ?s2" using sample_server_reachable by (blast intro: reachable.onward)
  have step: "srv_step ?s2 ?t" using srv_step.closed [of ?s2 1 ?cn] by simp
  have boot: "om_find (co_worker_boot c2) (TypedId 3) = Some (Generation 10)" "om_find (co_worker_alive c2) (TypedId 3) = Some True"
    by (simp_all add: c2_def sample_registered_def)
  have dead: "om_find (co_worker_alive (close_connection ?cn c2)) (TypedId 3) = Some False"
    by (simp add: close_connection_def c2_def sample_registered_def mark_worker_dead_def Let_def om_put_def)
  obtain why where "handle sample_env (default_message\<lparr>msg_type := MT_PUBLISH_RESOURCE, msg_worker_id := 3, msg_worker_boot := 10\<rparr>)
       (close_connection ?cn c2) fs = Inr ([fail why], close_connection ?cn c2, fs)"
    using dead by (simp add: handle_def handle_publish_resource_def check_worker_def refuse_def Let_def)
  with s2 step boot dead show ?thesis by (intro exI [of _ ?s2] exI [of _ ?t] exI [of _ why]) simp
qed

end
