(* ===== verification/Server_Lifecycle.thy ===== *)
theory Server_Lifecycle
  imports Transport_Correct Durability
begin

text \<open>
  \<open>coordinator/tcp_transport.cpp\<close>: starting, serving and stopping the server, with what the operating
  system answers as arguments: whether the calls on sockets succeed, which port a socket got, the
  connections that are accepted, and the order in which the threads of the connections end.  With it the
  process \<open>tools/fg_coordinator.cpp\<close>, from its command line to the accept loop.
\<close>

section \<open>The choice of a port\<close>

type_synonym u16 = "16 word"

record socket_results =
  sr_socket :: bool
  sr_bind :: bool
  sr_listen :: bool
  sr_port :: u16

definition find_free_tcp_port :: "socket_results \<Rightarrow> u16" where
  "find_free_tcp_port os = (if \<not> sr_socket os then 0 else if \<not> sr_bind os then 0 else sr_port os)"

section \<open>The server object\<close>

text \<open>The members of \<open>TcpServer\<close> and of its \<open>Impl\<close>; the coordinator and the threads are \<open>ts_server\<close>.\<close>

record TcpServer =
  ts_port :: u16
  ts_listening :: bool
  ts_running :: bool
  ts_listen_sock :: "nat option"
  ts_client_socks :: "nat list"
  ts_server :: Server

definition mk_TcpServer :: "Coordinator \<Rightarrow> file_system \<Rightarrow> TcpServer" where
  "mk_TcpServer coord fs = \<lparr>ts_port = 0, ts_listening = False, ts_running = False, ts_listen_sock = None,
     ts_client_socks = [], ts_server = start_server coord fs\<rparr>"

text \<open>\<open>start\<close>: the answers to the probe for a free port and to the calls on the new socket \<open>s\<close>.\<close>

definition server_start :: "socket_results \<Rightarrow> socket_results \<Rightarrow> nat \<Rightarrow> u16 \<Rightarrow> TcpServer \<Rightarrow> bool \<times> TcpServer" where
  "server_start probe os s port ts =
    (let port = (if port = 0 then find_free_tcp_port probe else port) in
     if \<not> sr_socket os then (False, ts)
     else if \<not> sr_bind os then (False, ts)
     else if \<not> sr_listen os then (False, ts)
     else (True, ts\<lparr>ts_listen_sock := Some s, ts_port := (if port \<noteq> 0 then port else sr_port os),
       ts_listening := True, ts_running := True\<rparr>))"

definition accept_connection :: "nat \<Rightarrow> TcpServer \<Rightarrow> TcpServer" where
  "accept_connection cs ts = ts\<lparr>ts_client_socks := ts_client_socks ts @ [cs],
     ts_server := (ts_server ts)\<lparr>sv_connections := (sv_connections (ts_server ts))(cs \<mapsto> new_connection)\<rparr>\<rparr>"

text \<open>
  The accept loop: the results of \<open>accept\<close>, each with what \<open>running\<close> is when it is read next.  Without a
  further result the loop waits; its end is the value \<open>Some\<close>.
\<close>

fun accept_loop :: "(nat option \<times> bool) list \<Rightarrow> TcpServer \<Rightarrow> TcpServer option" where
  "accept_loop [] ts = None"
| "accept_loop ((r, running) # rs) ts =
    (let ts = (case r of None \<Rightarrow> ts | Some cs \<Rightarrow> accept_connection cs ts)\<lparr>ts_running := running\<rparr>
     in if running then accept_loop rs ts else Some ts)"

definition server_serve :: "(nat option \<times> bool) list \<Rightarrow> TcpServer \<Rightarrow> TcpServer option" where
  "server_serve rs ts = (if \<not> ts_running ts then Some ts else accept_loop rs ts)"

text \<open>
  The end of a connection's thread after its socket is closed, and \<open>stop\<close>, which closes all sockets and
  waits for the threads, which end in the order \<open>order\<close>.
\<close>

definition end_thread :: "nat \<Rightarrow> Server \<Rightarrow> Server" where
  "end_thread cs s =
    (case sv_connections s cs of
       None \<Rightarrow> s
     | Some cn \<Rightarrow> s\<lparr>sv_coord := close_connection cn (sv_coord s), sv_connections := (sv_connections s)(cs := None)\<rparr>)"

definition server_stop :: "nat list \<Rightarrow> TcpServer \<Rightarrow> TcpServer" where
  "server_stop order ts = ts\<lparr>ts_running := False, ts_listen_sock := None, ts_client_socks := [],
     ts_server := fold end_thread order (ts_server ts), ts_listening := False\<rparr>"

section \<open>The coordinator process\<close>

text \<open>
  \<open>main\<close> of \<open>fg_coordinator\<close>, with its arguments as far as they are given: the exit code when the port
  cannot be bound, otherwise the server whose accept loop then runs.
\<close>

definition fg_coordinator_main ::
  "host \<Rightarrow> socket_results \<Rightarrow> socket_results \<Rightarrow> nat \<Rightarrow> u16 option \<Rightarrow> u64 option \<Rightarrow> string option \<Rightarrow> file_system \<Rightarrow> (int + TcpServer) res" where
  "fg_coordinator_main h probe os s port epoch state_file fs =
    (let port = (case port of None \<Rightarrow> 0 | Some p \<Rightarrow> p);
         epoch = (case epoch of None \<Rightarrow> 1 | Some e \<Rightarrow> e);
         state_file = (case state_file of None \<Rightarrow> [] | Some f \<Rightarrow> f) in
     chain (start_coordinator h epoch state_file fs) (\<lambda>coord.
     case server_start probe os s port (mk_TcpServer coord fs) of
       (False, _) \<Rightarrow> Inr (Inl 1)
     | (True, server) \<Rightarrow> Inr (Inr server)))"

section \<open>Effects that commute\<close>

locale commuting_effects =
  fixes effect :: "'x \<Rightarrow> 's \<Rightarrow> 's" and good :: "'s \<Rightarrow> bool"
  assumes keeps: "good s \<Longrightarrow> good (effect x s)"
    and commutes: "good s \<Longrightarrow> effect x (effect y s) = effect y (effect x s)"
begin

lemma fold_keeps: "good s \<Longrightarrow> good (fold effect xs s)"
  by (induction xs arbitrary: s) (simp_all add: keeps)

lemma fold_delay: "good s \<Longrightarrow> fold effect xs (effect x s) = effect x (fold effect xs s)"
proof (induction xs arbitrary: s)
  case (Cons y xs)
  then show ?case using commutes [OF Cons.prems, of y x] keeps [OF Cons.prems, of y] by simp
qed simp

lemma order_irrelevant: "good s \<Longrightarrow> mset xs = mset ys \<Longrightarrow> fold effect xs s = fold effect ys s"
proof (induction xs arbitrary: ys s)
  case (Cons x xs)
  then have "x \<in> set ys" using mset_eq_setD by fastforce
  then obtain as bs where ys: "ys = as @ x # bs" by (auto simp: in_set_conv_decomp)
  have "fold effect xs (effect x s) = fold effect (as @ bs) (effect x s)"
    using Cons.IH [of "effect x s" "as @ bs"] Cons.prems keeps by (simp add: ys)
  then show ?case using fold_delay [OF Cons.prems(1), of as x] by (simp add: ys)
qed simp

end

lemma targets_worker_marked: "targets_worker (co_resources (mark_worker_dead v c)) w = targets_worker (co_resources c) w"
  by (intro ext) (auto simp: targets_worker_def mark_worker_dead_resources om_find_update split: option.splits)

lemma mark_worker_dead_commutes:
  assumes inv: "coord_inv c"
  shows "mark_worker_dead v (mark_worker_dead w c) = mark_worker_dead w (mark_worker_dead v c)"
proof (rule Coordinator.Coordinator.equality)
  note om = coord_invD(5) [OF inv]
  show "co_worker_alive (mark_worker_dead v (mark_worker_dead w c)) = co_worker_alive (mark_worker_dead w (mark_worker_dead v c))"
    using std_map.put_commute [OF om, of v w False False] by (cases "v = w") (auto simp: mark_worker_dead_alive om_find_put [OF om])
  show "co_resources (mark_worker_dead v (mark_worker_dead w c)) = co_resources (mark_worker_dead w (mark_worker_dead v c))"
    by (auto simp: mark_worker_dead_resources om_update_all_def)
  show "co_plans (mark_worker_dead v (mark_worker_dead w c)) = co_plans (mark_worker_dead w (mark_worker_dead v c))"
    by (auto simp: mark_worker_dead_plans targets_worker_marked om_update_all_def targets_worker_def)
qed (simp_all add: mark_worker_dead_def Let_def)

lemma close_connection_inv: "coord_inv c \<Longrightarrow> coord_inv (close_connection cn c)"
  by (simp add: close_connection_def mark_worker_dead_inv)

lemma close_connection_commutes:
  "coord_inv c \<Longrightarrow> close_connection cn (close_connection cn' c) = close_connection cn' (close_connection cn c)"
  by (simp add: close_connection_def mark_worker_dead_commutes)

interpretation closing: commuting_effects end_thread "\<lambda>s. coord_inv (sv_coord s)"
proof
  fix s :: Server and x y
  assume inv: "coord_inv (sv_coord s)"
  show "coord_inv (sv_coord (end_thread x s))"
    using close_connection_inv [OF inv] inv by (simp add: end_thread_def split: option.split)
  show "end_thread x (end_thread y s) = end_thread y (end_thread x s)"
    by (cases "x = y") (auto simp: end_thread_def close_connection_commutes [OF inv] fun_upd_twist split: option.split)
qed

section \<open>Stopping\<close>

lemma end_threads_connections:
  "sv_connections (fold end_thread order s) = (sv_connections s) |` (- set order)"
proof (induction order arbitrary: s)
  case (Cons cs order)
  have "sv_connections (end_thread cs s) = (sv_connections s)(cs := None)"
    by (auto simp: end_thread_def split: option.split)
  then show ?case using Cons by (auto simp: restrict_map_def fun_eq_iff)
qed (simp add: restrict_map_def)

lemma end_threads_reachable:
  "reachable srv_init srv_step s \<Longrightarrow> reachable srv_init srv_step (fold end_thread order s)"
proof (induction order arbitrary: s)
  case (Cons cs order)
  have "reachable srv_init srv_step (end_thread cs s)"
    using Cons.prems reachable.onward [OF Cons.prems srv_step.closed] by (cases "sv_connections s cs") (simp_all add: end_thread_def)
  then show ?case using Cons.IH by simp
qed simp

text \<open>A worker that is not alive stays so while other connections end.\<close>

lemma end_thread_alive:
  "coord_inv (sv_coord s) \<Longrightarrow> set (alive_records (sv_coord (end_thread cs s))) \<subseteq> set (alive_records (sv_coord s))"
  by (auto simp: end_thread_def close_connection_def alive_records_def mark_worker_dead_resources om_update_all_def split: option.splits if_splits)

lemma end_threads_alive:
  "coord_inv (sv_coord s) \<Longrightarrow> set (alive_records (sv_coord (fold end_thread order s))) \<subseteq> set (alive_records (sv_coord s))"
proof (induction order arbitrary: s)
  case (Cons cs order)
  show ?case using Cons.IH [OF closing.keeps [OF Cons.prems]] end_thread_alive [OF Cons.prems] by (simp) (rule order_trans)
qed simp

lemma end_threads_exclude:
  assumes inv: "coord_inv (sv_coord s)" and cs: "cs \<in> set order" "sv_connections s cs = Some cn" "cn_worker cn \<noteq> 0"
  shows "\<forall>rec \<in> set (alive_records (sv_coord (fold end_thread order s))). wr_worker rec \<noteq> TypedId (cn_worker cn)"
proof -
  obtain as bs where order: "order = as @ cs # bs" using cs(1) by (auto simp: in_set_conv_decomp)
  have "fold end_thread order s = fold end_thread (as @ bs) (end_thread cs s)"
    using closing.order_irrelevant [OF inv, of order "cs # as @ bs"] by (simp add: order)
  moreover have "\<forall>rec \<in> set (alive_records (sv_coord (end_thread cs s))). wr_worker rec \<noteq> TypedId (cn_worker cn)"
    using mark_worker_dead_excludes(1) [OF inv] cs(2,3) by (simp add: end_thread_def close_connection_def)
  ultimately show ?thesis using end_threads_alive [OF closing.keeps [OF inv]] by (metis subsetD)
qed



section \<open>Starting and serving\<close>

text \<open>
  What \<open>start\<close> promises: it succeeds exactly when the socket can be bound and listened on, then the server
  listens on the requested port, or on one the system chose; otherwise the server is unchanged.
\<close>

lemma server_start_result:
  "server_start probe os s port ts = (ok, ts') \<Longrightarrow>
   (ok \<longleftrightarrow> sr_socket os \<and> sr_bind os \<and> sr_listen os) \<and>
   (if ok then ts_listening ts' \<and> ts_running ts' \<and> ts_listen_sock ts' = Some s \<and> (port \<noteq> 0 \<longrightarrow> ts_port ts' = port) \<and>
      ts_server ts' = ts_server ts else ts' = ts)"
  by (auto simp: server_start_def Let_def split: if_splits)

lemma accept_loop_ends: "(\<exists>ts'. accept_loop rs ts = Some ts') \<longleftrightarrow> False \<in> snd ` set rs"
proof (induction rs arbitrary: ts)
  case (Cons r rs)
  then show ?case by (cases r) (simp add: Let_def)
qed simp

text \<open>The loop only accepts: every step of it is a step of the server, as long as handles are not in use.\<close>

lemma accept_connection_reachable:
  assumes "reachable srv_init srv_step (ts_server ts)" and "sv_connections (ts_server ts) cs = None"
  shows "reachable srv_init srv_step (ts_server (accept_connection cs ts))"
  using reachable.onward [OF assms(1) srv_step.accepted [OF assms(2)]] by (simp add: accept_connection_def)

text \<open>A process without a state file serves a fresh coordinator on a port that is not 0 unless the system says so.\<close>

lemma fg_coordinator_fresh:
  assumes "sr_socket os" "sr_bind os" "sr_listen os"
  shows "\<exists>ts. fg_coordinator_main h probe os s port epoch None fs = Inr (Inr ts) \<and> ts_listening ts \<and> srv_init (ts_server ts) \<and>
    (case port of Some p \<Rightarrow> p \<noteq> 0 \<longrightarrow> ts_port ts = p | None \<Rightarrow> ts_port ts = 0 \<longrightarrow> sr_port os = 0)"
  using assms
  by (auto simp: fg_coordinator_main_def Let_def start_coordinator_def server_start_def mk_TcpServer_def srv_init_def split: option.split)

end
