(* ===== verification/Kernel.thy ===== *)
theory Kernel
  imports Binary64_Correct
begin

text \<open>
  The kernel of the CUDA programs, \<open>add_one_kernel\<close> of \<open>cuda/fg_cuda_proof.cu\<close> and
  \<open>cuda/fg_cuda_worker.cu\<close>, thread by thread, and the binary32 arithmetic it shares with the host code
  that checks it.  A grid runs its threads in an order the program does not control.
\<close>

section \<open>The type \<open>float\<close>\<close>

text \<open>
  IEEE 754 binary32 as its 32-bit pattern, rounded to nearest even, on finite operands as in \<open>Binary64\<close>.
  A device and a host of the programs add single precision numbers by the same rule.
\<close>

type_synonym float = u32

definition f_exponent :: "float \<Rightarrow> int" where
  "f_exponent x = (uint x div 2 ^ 23) mod 2 ^ 8"

definition f_fraction :: "float \<Rightarrow> int" where
  "f_fraction x = uint x mod 2 ^ 23"

definition f_isnan :: "float \<Rightarrow> bool" where
  "f_isnan x \<longleftrightarrow> f_exponent x = 255 \<and> f_fraction x \<noteq> 0"

definition f_val :: "float \<Rightarrow> rat" where
  "f_val x =
    (let m = (if f_exponent x = 0 then f_fraction x else 2 ^ 23 + f_fraction x);
         e = (if f_exponent x = 0 then - 149 else f_exponent x - 150);
         v = of_int m * pow2 e
     in if 2 ^ 31 \<le> uint x then - v else v)"

definition f_round_nonneg :: "rat \<Rightarrow> int" where
  "f_round_nonneg x =
    (if x = 0 then 0
     else let e = max (d_magnitude x - 23) (- 149)
          in min ((e + 149) * 2 ^ 23 + round_half_even (x * pow2 (- e))) (255 * 2 ^ 23))"

definition f_round :: "rat \<Rightarrow> float" where
  "f_round x = (if 0 \<le> x then word_of_int (f_round_nonneg x) else word_of_int (2 ^ 31 + f_round_nonneg (- x)))"

definition f_add :: "float \<Rightarrow> float \<Rightarrow> float" where
  "f_add x y = f_round (f_val x + f_val y)"

definition f_of_int :: "int \<Rightarrow> float" where
  "f_of_int i = f_round (of_int i)"

text \<open>The operator \<open>!=\<close>: a NaN differs from everything, the two zeros are equal.\<close>

definition f_differs :: "float \<Rightarrow> float \<Rightarrow> bool" where
  "f_differs x y \<longleftrightarrow> f_isnan x \<or> f_isnan y \<or>
     x \<noteq> y \<and> (f_exponent x = 255 \<or> f_exponent y = 255 \<or> f_val x \<noteq> f_val y)"

definition add_one :: "float \<Rightarrow> float" where
  "add_one x = f_add x (f_of_int 1)"

lemma f_round_nonneg_bounds: "0 \<le> x \<Longrightarrow> 0 \<le> f_round_nonneg x \<and> f_round_nonneg x \<le> 255 * 2 ^ 23"
proof -
  assume "0 \<le> x"
  then have "0 \<le> x * pow2 (- k)" for k by (simp add: pow2_def)
  then have "0 \<le> round_half_even (x * pow2 (- k))" for k by (auto simp: round_half_even_def Let_def)
  moreover have "0 \<le> (max a (- 149) + 149) * 2 ^ 23" for a :: int by (intro mult_nonneg_nonneg) simp_all
  ultimately show ?thesis by (simp add: f_round_nonneg_def Let_def)
qed

lemma f_round_not_nan: "\<not> f_isnan (f_round x)"
proof -
  have nan: "\<not> f_isnan (word_of_int k)" "\<not> f_isnan (word_of_int (2 ^ 31 + k))" if k: "0 \<le> k" "k \<le> 255 * 2 ^ 23" for k
  proof -
    have "k \<le> 2139095040" using k(2) by simp
    then have "k div 8388608 \<noteq> 255 \<or> k mod 8388608 = 0"
      using div_mult_mod_eq [of k 8388608] pos_mod_sign [of 8388608 k, simplified] by (cases "k div 8388608 = 255") simp_all
    then have "k div 2 ^ 23 \<noteq> 255 \<or> k mod 2 ^ 23 = 0" by simp
    moreover have "k div 2 ^ 23 < 256" "0 \<le> k div 2 ^ 23" using k by auto
    moreover have "uint (word_of_int k :: float) = k" "uint (word_of_int (2 ^ 31 + k) :: float) = 2 ^ 31 + k"
      using k by (simp_all add: take_bit_int_eq_self unsigned_of_int del: of_int_add)
    moreover have "(2 ^ 31 + k) div 2 ^ 23 = 256 + k div 2 ^ 23" "(2 ^ 31 + k) mod 2 ^ 23 = k mod 2 ^ 23"
      using div_mult_self3 [of "2 ^ 23" 256 k] mod_mult_self3 [of 256 "2 ^ 23" k] by simp_all
    ultimately show "\<not> f_isnan (word_of_int k)" "\<not> f_isnan (word_of_int (2 ^ 31 + k))"
      by (auto simp: f_isnan_def f_exponent_def f_fraction_def)
  qed
  show ?thesis
    using nan f_round_nonneg_bounds [of x] f_round_nonneg_bounds [of "- x"] by (auto simp: f_round_def)
qed

lemma add_one_same: "\<not> f_differs (add_one x) (add_one x)" "\<not> f_differs (f_of_int i) (f_of_int i)"
  by (simp_all add: f_differs_def add_one_def f_add_def f_of_int_def f_round_not_nan)

section \<open>The kernel\<close>

text \<open>
  One thread: \<open>int i = blockIdx.x * blockDim.x + threadIdx.x\<close> is unsigned 32-bit arithmetic read as a
  signed number; an access outside the arrays is the value \<open>None\<close>.
\<close>

definition thread_index :: "u32 \<Rightarrow> u32 \<times> u32 \<Rightarrow> int" where
  "thread_index block_dim bt = sint (fst bt * block_dim + snd bt)"

definition add_one_kernel :: "u32 \<Rightarrow> float list \<Rightarrow> int \<Rightarrow> u32 \<times> u32 \<Rightarrow> float list \<Rightarrow> float list option" where
  "add_one_kernel block_dim inp n bt out =
    (let i = thread_index block_dim bt in
     if i < n
     then if 0 \<le> i \<and> nat i < length inp \<and> nat i < length out then Some (out[nat i := add_one (inp ! nat i)]) else None
     else Some out)"

text \<open>A launch runs the threads of the grid in the order of a schedule.\<close>

fun run_threads :: "('t \<Rightarrow> 'm \<Rightarrow> 'm option) \<Rightarrow> 't list \<Rightarrow> 'm \<Rightarrow> 'm option" where
  "run_threads k [] m = Some m"
| "run_threads k (t # ts) m = Option.bind (k t m) (run_threads k ts)"

definition grid_threads :: "nat \<Rightarrow> nat \<Rightarrow> (u32 \<times> u32) list" where
  "grid_threads grid block = List.product (map of_nat [0 ..< grid]) (map of_nat [0 ..< block])"

text \<open>\<open><<<(n + 255) / 256, 256>>>\<close>.\<close>

definition launch_grid :: "int \<Rightarrow> nat" where
  "launch_grid n = nat ((n + 255) div 256)"

section \<open>Every order gives the same result\<close>

lemma thread_index_exact:
  assumes "b < 2 ^ 22" and "t < 256"
  shows "thread_index 256 (of_nat b, of_nat t) = int (b * 256 + t)"
proof -
  have "b * 256 + t < 2 ^ 31" using assms by simp
  then have "sint (of_nat (b * 256 + t) :: u32) = int (b * 256 + t)"
    by (simp add: sint_uint signed_take_bit_int_eq_self uint_nat unsigned_of_nat take_bit_nat_eq_self del: of_nat_add of_nat_mult)
  then show ?thesis by (simp add: thread_index_def)
qed

text \<open>The effect of any sequence of threads with indices that are not negative.\<close>

lemma run_add_one:
  assumes "\<forall>bt \<in> set ts. 0 \<le> thread_index 256 bt" and "length out = length inp"
  shows "run_threads (add_one_kernel 256 inp (int (length inp))) ts out =
    Some (map (\<lambda>i. if int i \<in> thread_index 256 ` set ts then add_one (inp ! i) else out ! i) [0 ..< length inp])"
  using assms
proof (induction ts arbitrary: out)
  case Nil
  then show ?case using map_nth [of out] by simp
next
  case (Cons bt ts)
  define i where "i = thread_index 256 bt"
  have i: "0 \<le> i" using Cons.prems by (simp add: i_def)
  let ?out = "if i < int (length inp) then out[nat i := add_one (inp ! nat i)] else out"
  have "add_one_kernel 256 inp (int (length inp)) bt out = Some ?out"
    using i Cons.prems(2) by (simp add: add_one_kernel_def i_def [symmetric] Let_def nat_less_iff)
  then have "run_threads (add_one_kernel 256 inp (int (length inp))) (bt # ts) out =
      Some (map (\<lambda>j. if int j \<in> thread_index 256 ` set ts then add_one (inp ! j) else ?out ! j) [0 ..< length inp])"
    using Cons.IH [of ?out] Cons.prems by simp
  also have "map (\<lambda>j. if int j \<in> thread_index 256 ` set ts then add_one (inp ! j) else ?out ! j) [0 ..< length inp] =
      map (\<lambda>j. if int j \<in> thread_index 256 ` set (bt # ts) then add_one (inp ! j) else out ! j) [0 ..< length inp]"
  proof (rule map_cong [OF refl])
    fix j assume "j \<in> set [0 ..< length inp]"
    then have j: "j < length inp" by simp
    show "(if int j \<in> thread_index 256 ` set ts then add_one (inp ! j) else ?out ! j) =
        (if int j \<in> thread_index 256 ` set (bt # ts) then add_one (inp ! j) else out ! j)"
    proof (cases "int j = i")
      case True
      then have "?out ! j = add_one (inp ! j)" using j Cons.prems(2) by auto
      then show ?thesis using True by (simp add: i_def)
    next
      case False
      then have "?out ! j = out ! j" using i by (auto simp: nth_list_update_neq)
      then show ?thesis using False by (simp add: i_def)
    qed
  qed
  finally show ?case .
qed

lemma grid_indices:
  assumes "0 \<le> n" and "n \<le> 2 ^ 30"
  shows "thread_index 256 ` set (grid_threads (launch_grid n) 256) = {0 ..< 256 * int (launch_grid n)}"
proof -
  have grid: "launch_grid n \<le> 2 ^ 22" using assms by (simp add: launch_grid_def)
  have "thread_index 256 ` set (grid_threads (launch_grid n) 256) =
      (\<lambda>(b, t). int (b * 256 + t)) ` ({..< launch_grid n} \<times> {..< 256})"
    using grid thread_index_exact by (force simp: grid_threads_def image_iff)
  also have "\<dots> = {0 ..< 256 * int (launch_grid n)}"
  proof (rule set_eqI, rule iffI)
    fix k assume "k \<in> {0 ..< 256 * int (launch_grid n)}"
    then have k: "k = int (nat k)" "nat k div 256 < launch_grid n" by auto
    show "k \<in> (\<lambda>(b, t). int (b * 256 + t)) ` ({..< launch_grid n} \<times> {..< 256})"
      by (rule image_eqI [of _ _ "(nat k div 256, nat k mod 256)"]) (use k in \<open>simp_all only: prod.case div_mult_mod_eq, simp\<close>)
  qed auto
  finally show ?thesis .
qed

lemma kernel_any_order:
  assumes "mset ts = mset (grid_threads (launch_grid n) 256)" and n: "n = int (length inp)" "n \<le> 2 ^ 30"
    and "length out = length inp"
  shows "run_threads (add_one_kernel 256 inp n) ts out = Some (map add_one inp)"
proof -
  have "set ts = set (grid_threads (launch_grid n) 256)" using assms(1) mset_eq_setD by blast
  then have idx: "thread_index 256 ` set ts = {0 ..< 256 * int (launch_grid n)}" using grid_indices n by simp
  have "int (launch_grid n) = (n + 255) div 256" using n(1) by (simp add: launch_grid_def pos_imp_zdiv_nonneg_iff)
  then have "n \<le> 256 * int (launch_grid n)" by presburger
  then have "map (\<lambda>i. if int i \<in> thread_index 256 ` set ts then add_one (inp ! i) else out ! i) [0 ..< length inp] =
      map (\<lambda>i. add_one (inp ! i)) [0 ..< length inp]"
    unfolding idx using n(1) by (intro map_cong) auto
  also have "\<dots> = map add_one inp" by (rule nth_equalityI) simp_all
  finally have "map (\<lambda>i. if int i \<in> thread_index 256 ` set ts then add_one (inp ! i) else out ! i) [0 ..< length inp] = map add_one inp" .
  moreover have "\<forall>bt \<in> set ts. 0 \<le> thread_index 256 bt" using idx by auto
  ultimately show ?thesis using run_add_one assms(4) n(1) by simp
qed

text \<open>
  C26: The kernel computes the host's function in every order of its threads.  For up to \<open>2 ^ 30\<close>
  elements, whatever order the device runs the threads of the grid \<open><<<(n + 255) / 256, 256>>>\<close> in, no
  thread leaves the arrays, although the last block has threads beyond \<open>n\<close>, and afterwards every element
  of the output is the element of the input plus one in single precision, whatever the output held
  before.
\<close>

theorem add_one_kernel_any_order:
  assumes "mset ts = mset (grid_threads (launch_grid (int (length inp))) 256)" and "length inp \<le> 2 ^ 30"
    and "length out = length inp"
  shows "run_threads (add_one_kernel 256 inp (int (length inp))) ts out = Some (map add_one inp)"
  using kernel_any_order [OF assms(1) refl] assms(2,3) by simp

theorem add_one_kernel_any_order_witness:
  "run_threads (add_one_kernel 256 [f_of_int 4, f_of_int 7] 2) (rev (grid_threads 1 256)) [0, 0] = Some [add_one (f_of_int 4), add_one (f_of_int 7)]"
  using add_one_kernel_any_order [of "rev (grid_threads 1 256)" "[f_of_int 4, f_of_int 7]" "[0, 0]"] by (simp add: launch_grid_def)

end
