(* ===== verification/Evaluation.thy ===== *)
theory Evaluation
  imports Coordinator
begin

text \<open>
  Code equations for running the model on concrete inputs.  The kernel evaluates natural numbers in
  unary, so whatever passes a byte count or a significand through \<open>nat\<close> gets an equation on binary
  integers: the logarithm and the powers of two behind rounding, and decimal output.
\<close>

section \<open>Powers and logarithms\<close>

fun int_bits :: "int \<Rightarrow> int" where
  "int_bits n = (if n \<le> 0 then 0 else 1 + int_bits (n div 2))"

fun int_pow2 :: "int \<Rightarrow> int" where
  "int_pow2 k = (if k \<le> 0 then 1 else if even k then (let h = int_pow2 (k div 2) in h * h) else 2 * int_pow2 (k - 1))"

declare int_bits.simps [simp del] int_pow2.simps [simp del]

lemma int_bits_floorlog: "int (floorlog 2 (nat n)) = int_bits n"
proof (induction n rule: int_bits.induct)
  case (1 n)
  then show ?case
    by (subst int_bits.simps, cases "n \<le> 0")
      (simp_all add: floorlog_def [of 2 0] compute_floorlog [of 2 "nat n"] nat_div_distrib)
qed

lemma int_pow2_power: "0 \<le> k \<Longrightarrow> int_pow2 k = 2 ^ nat k"
proof (induction k rule: int_pow2.induct)
  case (1 k)
  consider "k = 0" | "0 < k" "even k" | "0 < k" "odd k" using 1(3) by force
  then show ?case
  proof cases
    case 2
    then have "nat k = nat (k div 2) + nat (k div 2)" by auto
    then show ?thesis using 1 2 by (subst int_pow2.simps) (simp add: Let_def flip: power_add)
  next
    case 3
    then have "nat k = Suc (nat (k - 1))" by auto
    then show ?thesis using 1 3 by (subst int_pow2.simps) (simp add: Let_def)
  qed (subst int_pow2.simps, simp)
qed

lemma pow2_code [code]: "pow2 k = (if 0 \<le> k then Fract (int_pow2 k) 1 else Fract 1 (int_pow2 (- k)))"
  by (simp add: pow2_def int_pow2_power Fract_of_int_quotient)

lemma d_magnitude_code [code]: "d_magnitude x =
    (case quotient_of x of (p, q) \<Rightarrow>
       let k = int_bits p - int_bits q
       in if pow2 k \<le> x then k else k - 1)"
  by (simp add: d_magnitude_def int_bits_floorlog)

lemma d_of_u64_code [code]: "d_of_u64 w = d_round (of_int (uint w))"
  by (simp add: d_of_u64_def)

section \<open>Decimal output\<close>

function int_decimal :: "int \<Rightarrow> string" where
  "int_decimal n = (if n < 10 then [char_of (48 + n)] else int_decimal (n div 10) @ [char_of (48 + n mod 10)])"
  by auto
termination by (relation "measure nat") auto

declare int_decimal.simps [simp del]

fun int_digits :: "nat \<Rightarrow> int \<Rightarrow> string" where
  "int_digits 0 n = []"
| "int_digits (Suc w) n = int_digits w (n div 10) @ [char_of (48 + n mod 10)]"

lemma char_of_nat_int: "0 \<le> (k :: int) \<Longrightarrow> char_of (nat k) = (char_of k :: char)"
  using char_of_nat [of "nat k", where 'a = int] by simp

lemma decimal_int: "0 \<le> n \<Longrightarrow> decimal (nat n) = int_decimal n"
proof (induction n rule: int_decimal.induct)
  case (1 n)
  show ?case
  proof (cases "n < 10")
    case True
    then show ?thesis using 1(2) char_of_nat_int [of "48 + n"]
      by (subst int_decimal.simps, subst decimal.simps) (simp add: nat_add_distrib nat_less_iff del: decimal.simps)
  next
    case False
    then show ?thesis using 1 char_of_nat_int [of "48 + n mod 10"]
      by (subst int_decimal.simps, subst decimal.simps) (simp add: nat_add_distrib nat_mod_distrib nat_div_distrib nat_less_iff del: decimal.simps)
  qed
qed

lemma decimal_unat [code_unfold]: "decimal (unat (w :: 'a :: len word)) = int_decimal (uint w)"
  using decimal_int [of "uint w"] by (simp del: decimal.simps)

lemma nat_digits_int: "0 \<le> n \<Longrightarrow> nat_digits w (nat n) = int_digits w n"
proof (induction w arbitrary: n)
  case (Suc w)
  then show ?case using Suc.IH [of "n div 10"] char_of_nat_int [of "48 + n mod 10"]
    by (simp add: nat_add_distrib nat_mod_distrib nat_div_distrib)
qed simp

lemma round_half_even_nonneg: "0 \<le> x \<Longrightarrow> 0 \<le> round_half_even x"
  by (auto simp: round_half_even_def Let_def)

lemma double_to_string_code [code]: "double_to_string d =
    (let n = round_half_even (\<bar>d_val d\<bar> * 1000000)
     in (if d_sign d then ''-'' else '''') @ int_decimal (n div 1000000) @ ''.'' @ int_digits 6 (n mod 1000000))"
proof -
  define n where "n = round_half_even (\<bar>d_val d\<bar> * 1000000)"
  have n: "0 \<le> n" unfolding n_def by (intro round_half_even_nonneg) simp
  have "nat n div 1000000 = nat (n div 1000000)" "nat n mod 1000000 = nat (n mod 1000000)"
    using n by (simp_all add: nat_div_distrib nat_mod_distrib)
  then show ?thesis
    using n decimal_int [of "n div 1000000"] nat_digits_int [of "n mod 1000000" 6]
    by (simp add: double_to_string_def Let_def del: decimal.simps flip: n_def)
qed

end
