(* ===== verification/Tools.thy ===== *)
theory Tools
  imports Evaluation
begin

text \<open>
  What the programs around the library share, and \<open>tools/fg_inspect.cpp\<close>.  A program that only calls the
  library is its standard output, one string per line, and its exit code; \<open>Inl\<close> is an exception that
  leaves \<open>main\<close>.
\<close>

section \<open>What the programs share\<close>

definition MIB :: u64 where
  "MIB = 1024 * 1024"

text \<open>The aggregate initialisation \<open>Allocation{id, 1, owner, off, len, mov, nullopt, false, nullopt, DERIVED}\<close>.\<close>

definition derived_allocation :: "u64 \<Rightarrow> u64 \<Rightarrow> u64 \<Rightarrow> Bytes \<Rightarrow> Bytes \<Rightarrow> Movability \<Rightarrow> Allocation" where
  "derived_allocation i g owner off len mov =
    \<lparr>al_id = TypedId i, al_generation = Generation g, al_owner = TypedId owner, al_offset = off, al_length = len,
     al_movability = mov, al_reservation = None, al_policy_protected = False, al_workload = None,
     al_provenance = PV_DERIVED\<rparr>"

text \<open>A sequence of \<open>insert_allocation\<close> calls whose results are not looked at.\<close>

definition insert_each :: "Allocation list \<Rightarrow> ResourceLayout \<Rightarrow> ResourceLayout res" where
  "insert_each as l = fold_res (\<lambda>a l. chain (insert_allocation l a) (\<lambda>(_, l'). Inr l')) as l"

text \<open>The conversions of \<open>printf\<close>: \<open>%zu\<close> and \<open>%llu\<close>, a byte count divided by \<open>MIB\<close>, \<open>%d\<close> of a \<open>bool\<close>, \<open>%.4f\<close>.\<close>

definition fmt_u :: "u64 \<Rightarrow> string" where
  "fmt_u w = decimal (unat w)"

definition fmt_mib :: "Bytes \<Rightarrow> string" where
  "fmt_mib w = fmt_u (w div MIB)"

definition fmt_bool :: "bool \<Rightarrow> string" where
  "fmt_bool b = (if b then ''1'' else ''0'')"

definition fmt_f4 :: "double \<Rightarrow> string" where
  "fmt_f4 d =
    (let n = nat (round_half_even (\<bar>d_val d\<bar> * 10000))
     in (if d_sign d then ''-'' else '''') @ decimal (n div 10000) @ ''.'' @ nat_digits 4 (n mod 10000))"

lemma fmt_f4_code [code]: "fmt_f4 d =
    (let n = round_half_even (\<bar>d_val d\<bar> * 10000)
     in (if d_sign d then ''-'' else '''') @ int_decimal (n div 10000) @ ''.'' @ int_digits 4 (n mod 10000))"
proof -
  define n where "n = round_half_even (\<bar>d_val d\<bar> * 10000)"
  have n: "0 \<le> n" unfolding n_def by (intro round_half_even_nonneg) simp
  have "nat n div 10000 = nat (n div 10000)" "nat n mod 10000 = nat (n mod 10000)"
    using n by (simp_all add: nat_div_distrib nat_mod_distrib)
  then show ?thesis
    using n decimal_int [of "n div 10000"] nat_digits_int [of "n mod 10000" 4]
    by (simp add: fmt_f4_def Let_def del: decimal.simps flip: n_def)
qed

lemma fmt_u_code [code]: "fmt_u w = int_decimal (uint w)"
  by (simp add: fmt_u_def decimal_unat del: decimal.simps)

type_synonym run = "(string list \<times> int) res"

section \<open>The inspector\<close>

definition inspect_resource :: Resource where
  "inspect_resource = default_resource\<lparr>res_id := TypedId 1, res_generation := Generation 1, res_pool := TypedId 1,
     res_device := TypedId 1, res_domain := D_CUDA_DEVICE_MEMORY, res_capacity := 2048 * MIB, res_provenance := PV_DERIVED\<rparr>"

definition inspect_allocations :: "Allocation list" where
  "inspect_allocations = (let U = 256 * MIB in
    [derived_allocation 1 1 10 0 U MV_IMMOVABLE, derived_allocation 2 1 11 (2 * U) U MV_IMMOVABLE,
     derived_allocation 3 1 12 (4 * U) U MV_IMMOVABLE, derived_allocation 4 1 13 (6 * U) U MV_IMMOVABLE,
     derived_allocation 5 1 14 (3 * U) (U div 4) MV_MOVABLE_AFTER_QUIESCE])"

definition inspect_snapshot :: "ResourceLayout \<Rightarrow> FragmentationSnapshot" where
  "inspect_snapshot layout = default_snapshot\<lparr>snap_generation := Generation 1, snap_domain := D_CUDA_DEVICE_MEMORY,
     snap_provenance := PV_DERIVED, snap_epoch := Generation 1, snap_policy_generation := Generation 1,
     snap_generations := default_generations\<lparr>kg_resource := Generation 1, kg_allocation := Generation 1,
       kg_reservation := Generation 1, kg_topology := Generation 1, kg_capacity := Generation 1,
       kg_capability := Generation 1, kg_placement := Generation 1, kg_health := Generation 1\<rparr>,
     snap_devices := [\<lparr>dev_resource = inspect_resource, dev_layout = layout\<rparr>]\<rparr>"

definition uniform_demand :: "Bytes \<Rightarrow> WorkloadDemand" where
  "uniform_demand b = default_demand\<lparr>dem_id := TypedId 1, dem_generation := Generation 1, dem_accelerator_count := 1,
     dem_per_device_memory := b, dem_aggregate_memory := b, dem_contiguous_memory := b\<rparr>"

definition inspect_header :: "FragmentationSnapshot \<Rightarrow> string list" where
  "inspect_header snap =
    (let g = snap_generations snap in
     [''DOMAIN = '' @ domain_to_string (snap_domain snap),
      ''generations: res='' @ fmt_u (gen_value (kg_resource g)) @ '' alloc='' @ fmt_u (gen_value (kg_allocation g)) @
      '' resv='' @ fmt_u (gen_value (kg_reservation g)) @ '' topo='' @ fmt_u (gen_value (kg_topology g)) @
      '' cap='' @ fmt_u (gen_value (kg_capacity g)) @ '' policy='' @ fmt_u (gen_value (snap_policy_generation snap)) @
      '' epoch='' @ fmt_u (gen_value (snap_epoch snap))])"

definition inspect_metrics :: "FragmentationMetrics \<Rightarrow> string list" where
  "inspect_metrics m =
    [''total='' @ fmt_mib (met_total_capacity m) @ ''MiB used='' @ fmt_mib (met_used_capacity m) @ ''MiB free='' @
     fmt_mib (met_free_capacity m) @ ''MiB largest='' @ fmt_mib (met_largest_free_block m) @ ''MiB'',
     ''stranded='' @ fmt_mib (met_stranded_capacity m) @ ''MiB reclaimable='' @ fmt_mib (met_reclaimable_capacity m) @
     ''MiB protected='' @ fmt_mib (met_protected_capacity m) @ ''MiB'',
     ''extern_frag_ratio='' @ fmt_f4 (met_external_fragmentation_ratio m) @ '' workload_fits='' @ fmt_bool (met_workload_fits m)]"

definition inspect_allocation_line :: "AllocationId \<times> Allocation \<Rightarrow> string" where
  "inspect_allocation_line e = ''  id='' @ fmt_u (id_value (fst e)) @ '' off='' @ fmt_mib (al_offset (snd e)) @ ''MiB len='' @
     fmt_mib (al_length (snd e)) @ ''MiB mov='' @ movability_to_string (al_movability (snd e)) @ '' protected='' @
     fmt_bool (al_policy_protected (snd e))"

definition inspect_plan :: "RemediationPlan option \<Rightarrow> string list" where
  "inspect_plan plan =
    (case plan of
       None \<Rightarrow> [''plan = none (no beneficial action)'']
     | Some p \<Rightarrow>
       [''plan state='' @ plan_state_to_string (plan_state p) @ '' benefit='' @ fmt_f4 (plan_benefit p) @ '' cost='' @
        fmt_f4 (plan_cost p) @ '' risk='' @ fmt_f4 (plan_risk p) @ '' disruption='' @ fmt_f4 (plan_disruption p),
        ''actions='' @ decimal (length (plan_actions p))] @
       map (\<lambda>act. ''  action='' @ action_kind_to_string (act_kind act) @ '' cap='' @
         fmt_mib (act_expected_capacity_recovered act) @ ''MiB'') (plan_actions p))"

definition fg_inspect_main :: run where
  "fg_inspect_main =
    (let demand = uniform_demand (512 * MIB) in
     chain (insert_each inspect_allocations (mk_layout (res_capacity inspect_resource))) (\<lambda>layout.
     let snap = inspect_snapshot layout in
     chain (compute_metrics layout (Some demand)) (\<lambda>m.
     chain (analyze_fit snap demand) (\<lambda>fit.
     chain (plan_remediation snap demand (default_policy\<lparr>pol_generation := Generation 1\<rparr>) default_weights
              (TypedId 1) (Generation 1)) (\<lambda>plan.
     Inr (inspect_header snap @ inspect_metrics m @
          [''allocations:''] @ map inspect_allocation_line (lay_allocations layout) @
          [''workload fit = '' @ fit_outcome_to_string (fr_outcome fit)] @
          map (\<lambda>d. ''  blocker: '' @ d) (fr_block_diagnostics fit) @ inspect_plan plan, 0))))))"

end
