(* ===== verification/Evidence.thy ===== *)
theory Evidence
  imports Tools Coordinator_System
begin

text \<open>
  What a list of allocations, published by a worker or inserted by a program, makes of a device.  The
  order of insertion does not matter, only that the spans are apart and inside the device; the free
  bytes are then known as a set, and with them the answers of the oracle and of the planner on a
  snapshot of that one device.
\<close>

section \<open>Building a layout\<close>

definition apart :: "Allocation \<Rightarrow> Allocation \<Rightarrow> bool" where
  "apart a b \<longleftrightarrow> al_id a \<noteq> al_id b \<and>
     (unat (al_offset a) + unat (al_length a) \<le> unat (al_offset b) \<or> unat (al_offset b) + unat (al_length b) \<le> unat (al_offset a))"

definition placeable :: "nat \<Rightarrow> Allocation list \<Rightarrow> bool" where
  "placeable cap as \<longleftrightarrow> sorted_wrt apart as \<and>
     (\<forall>a \<in> set as. 0 < unat (al_length a) \<and> unat (al_offset a) + unat (al_length a) \<le> cap)"

definition registry :: "Allocation list \<Rightarrow> (AllocationId \<times> Allocation) set" where
  "registry as = (\<lambda>a. (al_id a, a)) ` set as"

lemma registry_simps [simp]: "registry [] = {}" "registry (a # as) = insert (al_id a, a) (registry as)"
  by (simp_all add: registry_def)

lemma apart_bytes: "apart a b \<Longrightarrow> alloc_bytes a \<inter> alloc_bytes b = {}"
  by (auto simp: apart_def alloc_bytes_def)

text \<open>An insertion into a layout whose allocations are all apart from the new one is accepted.\<close>

lemma insert_apart:
  assumes inv: "layout_inv l" and a: "0 < unat (al_length a)" "unat (al_offset a) + unat (al_length a) \<le> unat (lay_capacity l)"
    and apart: "\<And>e. e \<in> set (lay_allocations l) \<Longrightarrow> fst e = al_id (snd e) \<and> apart (snd e) a"
  obtains l' where "insert_allocation l a = Inr (None, l')" "layout_inv l'" "lay_capacity l' = lay_capacity l"
    "set (lay_allocations l') = insert (al_id a, a) (set (lay_allocations l))"
proof -
  have new: "om_find (lay_allocations l) (al_id a) = None"
    using apart by (fastforce simp: om_find_None apart_def)
  have "alloc_bytes a \<inter> used_bytes l = {}"
    using apart apart_bytes by (fastforce simp: used_bytes_def)
  then have "insertable l a" using a new by (simp add: insertable_def)
  then obtain l' where l': "insert_allocation l a = Inr (None, l')" "layout_inv l'"
    "lay_allocations l' = om_put (al_id a) a (lay_allocations l)" "lay_capacity l' = lay_capacity l"
    by (rule insert_allocation_accepts [OF inv])
  have "set (om_put (al_id a) a (lay_allocations l)) = insert (al_id a, a) (set (lay_allocations l))"
    using arg_cong [OF om_put_mset [OF layout_inv_allocations [OF inv] new, of a], of set_mset] by simp
  then show thesis using l' by (intro that [OF l'(1,2,4)]) simp
qed

lemma insert_all_apart:
  assumes "layout_inv l" and "placeable (unat (lay_capacity l)) as"
    and "\<And>e a. e \<in> set (lay_allocations l) \<Longrightarrow> a \<in> set as \<Longrightarrow> fst e = al_id (snd e) \<and> apart (snd e) a"
  shows "\<exists>l'. insert_all as l = Inr (None, l') \<and> insert_each as l = Inr l' \<and> layout_inv l' \<and>
    lay_capacity l' = lay_capacity l \<and> set (lay_allocations l') = set (lay_allocations l) \<union> registry as"
  using assms
proof (induction as arbitrary: l)
  case (Cons a as)
  obtain l1 where l1: "insert_allocation l a = Inr (None, l1)" "layout_inv l1" "lay_capacity l1 = lay_capacity l"
    "set (lay_allocations l1) = insert (al_id a, a) (set (lay_allocations l))"
  proof (rule insert_apart [OF Cons.prems(1), of a])
    show "0 < unat (al_length a)" "unat (al_offset a) + unat (al_length a) \<le> unat (lay_capacity l)"
      using Cons.prems(2) by (simp_all add: placeable_def)
    show "fst e = al_id (snd e) \<and> apart (snd e) a" if "e \<in> set (lay_allocations l)" for e
      using Cons.prems(3) [OF that, of a] by simp
  qed
  have "fst e = al_id (snd e) \<and> apart (snd e) b" if e: "e \<in> set (lay_allocations l1)" and b: "b \<in> set as" for e b
  proof (cases "e = (al_id a, a)")
    case True
    then show ?thesis using Cons.prems(2) b by (simp add: placeable_def)
  next
    case False
    then show ?thesis using Cons.prems(3) [of e b] e b l1(4) by simp
  qed
  moreover have "placeable (unat (lay_capacity l1)) as" using Cons.prems(2) l1(3) by (simp add: placeable_def)
  ultimately obtain l' where "insert_all as l1 = Inr (None, l')" "insert_each as l1 = Inr l'" "layout_inv l'"
    "lay_capacity l' = lay_capacity l1" "set (lay_allocations l') = set (lay_allocations l1) \<union> registry as"
    using Cons.IH [OF l1(2)] by blast
  then show ?case using l1 by (auto simp: insert_each_def)
qed (simp add: insert_each_def)

lemma build_layout:
  assumes "placeable (unat cap) as"
  obtains l where "insert_all as (mk_layout cap) = Inr (None, l)" "insert_each as (mk_layout cap) = Inr l" "layout_inv l"
    "lay_capacity l = cap" "set (lay_allocations l) = registry as"
  using insert_all_apart [OF mk_layout_inv, of cap as] assms that by auto

lemma built_bytes:
  assumes "set (lay_allocations l) = registry as"
  shows "free_bytes l = {0 ..< unat (lay_capacity l)} - (\<Union>a \<in> set as. alloc_bytes a)"
    and "reclaim_free_bytes l = {0 ..< unat (lay_capacity l)} - (\<Union>a \<in> {a \<in> set as. is_protected a}. alloc_bytes a)"
  using assms
  by (auto simp: free_bytes_def used_bytes_def reclaim_free_bytes_def protected_bytes_def registry_def)

lemma built_mset:
  assumes inv: "layout_inv l" and as: "placeable cap as" "set (lay_allocations l) = registry as"
  shows "mset (lay_allocations l) = mset (map (\<lambda>a. (al_id a, a)) as)"
proof -
  have "sorted_wrt (\<lambda>a b. al_id a \<noteq> al_id b) as"
    using as(1) by (auto simp: placeable_def apart_def elim: sorted_wrt_mono_rel [rotated])
  then have ids: "distinct (map al_id as)" by (induction as) auto
  have "distinct (lay_allocations l)"
    using om_inv_distinct [OF layout_inv_allocations [OF inv]] by (simp add: distinct_map)
  moreover have "distinct (map (\<lambda>a. (al_id a, a)) as)" using ids by (simp add: distinct_map inj_on_def)
  ultimately show ?thesis
    using as(2) unfolding registry_def by (subst set_eq_iff_mset_eq_distinct [symmetric]) simp_all
qed

lemma built_length:
  assumes "layout_inv l" and "placeable cap as" "set (lay_allocations l) = registry as"
  shows "length (lay_allocations l) = length as"
  using mset_eq_length [OF built_mset [OF assms]] by simp

lemma built_free_capacity:
  assumes inv: "layout_inv l" and as: "placeable (unat (lay_capacity l)) as" "set (lay_allocations l) = registry as"
  shows "unat (free_capacity l) + sum_list (map (\<lambda>a. unat (al_length a)) as) = unat (lay_capacity l)"
proof -
  have "sum_list (map (\<lambda>e. unat (al_length (snd e))) (lay_allocations l)) =
      sum_list (map (\<lambda>e. unat (al_length (snd e))) (map (\<lambda>a. (al_id a, a)) as))"
    by (rule sum_list_map_mset_cong [OF built_mset [OF inv as]])
  then show ?thesis using capacity_split [OF inv] by (simp add: comp_def free_capacity_def)
qed

section \<open>A snapshot of one device\<close>

lemma single_demand_fits:
  assumes "snap_devices sn = [dv]" and "finite (free (dev_layout dv))"
  shows "demand_fits free sn (uniform_demand b) \<longleftrightarrow> (\<exists>s. {s ..< s + unat b} \<subseteq> free (dev_layout dv))"
proof -
  have "unat b \<le> card (free (dev_layout dv))" if "{s ..< s + unat b} \<subseteq> free (dev_layout dv)" for s
    using card_mono [OF assms(2) that] by simp
  then show ?thesis
    by (auto simp: demand_fits_layouts layouts_fit_def assms(1) uniform_demand_def needed_devices_def default_demand_def fits_in_def)
qed

lemma finite_free [simp]: "finite (free_bytes l)" "finite (reclaim_free_bytes l)"
  by (simp_all add: free_bytes_def reclaim_free_bytes_def)

lemma uniform_demand_fields [simp]:
  "dem_topology_group (uniform_demand b) = None" "dem_reservation_duration (uniform_demand b) = None"
  "dem_per_device_memory (uniform_demand b) = b" "dem_aggregate_memory (uniform_demand b) = b"
  "dem_contiguous_memory (uniform_demand b) = b"
  by (simp_all add: uniform_demand_def default_demand_def)

lemma single_planner_input:
  assumes "snap_devices sn = [dv]" and "layout_inv (dev_layout dv)" and "length (lay_allocations (dev_layout dv)) \<le> 2 ^ 46"
  shows "planner_input_ok sn default_weights"
  using assms candidates_bound [of sn default_weights] unat_u64_less [of "lay_capacity (dev_layout dv)"] default_weights_ok
  by (simp add: planner_input_ok_def devices_ok_def)

lemma workload_metrics:
  assumes inv: "layout_inv l"
  obtains m where "compute_metrics l (Some d) = Inr m" "met_free_capacity m = free_capacity l"
    "met_largest_free_block m = largest_free_block l" "met_used_capacity m = lay_capacity l - lay_free_capacity l"
    "met_workload_fits m \<longleftrightarrow> dem_aggregate_memory d \<le> free_capacity l \<and>
       (dem_contiguous_memory d > 0 \<longrightarrow> dem_contiguous_memory d \<le> largest_free_block l)"
proof -
  obtain m where m: "layout_metrics l m" "compute_metrics l (Some d) = metrics_workload l d m"
    using layout_metrics_ok [OF inv] by blast
  obtain l' where l': "simulate_reclaim (lay_allocations l) l = Inr (Some l')" "largest_free_block l \<le> largest_free_block l'"
    by (rule simulate_reclaim_ok [OF inv])
  have mf: "met_free_capacity m = free_capacity l" "met_largest_free_block m = largest_free_block l"
    "met_used_capacity m = lay_capacity l - lay_free_capacity l"
    using m(1) by (simp_all add: layout_metrics_def)
  show thesis
    by (rule that, unfold m(2), rule metrics_workload_eval [OF mf(1,2) l' refl refl])
      (use mf largest_le_free [OF inv] in \<open>auto split: if_splits\<close>)
qed

text \<open>The answer of the oracle on one device with complete evidence.\<close>

lemma single_fit:
  assumes sn: "snap_devices sn = [dv]" "layout_inv (dev_layout dv)" "snap_reservations sn = []"
    "generations_complete (snap_generations sn)" "snap_provenance sn \<noteq> PV_UNKNOWN" and b: "b \<le> free_capacity (dev_layout dv)"
  obtains r where "analyze_fit sn (uniform_demand b) = Inr r"
    "fr_outcome r =
      (if \<exists>s. {s ..< s + unat b} \<subseteq> free_bytes (dev_layout dv) then FO_FIT_NOW
       else if \<exists>s. {s ..< s + unat b} \<subseteq> reclaim_free_bytes (dev_layout dv) then FO_FIT_AFTER_RECLAIM
       else if \<forall>e \<in> set (lay_allocations (dev_layout dv)). is_protected (snd e) then FO_NO_FIT_PROTECTED_STATE
       else FO_NO_FIT_FRAGMENTATION)"
proof -
  let ?l = "dev_layout dv" and ?d = "uniform_demand b"
  have ok: "snapshot_ok sn"
    using sn unat_u64_less [of "lay_capacity ?l"] by (simp add: snapshot_ok_def devices_ok_def reservations_within_def)
  have el: "eligible_devices sn ?d = {0}" by (auto simp: eligible_devices_def sn(1))
  have need: "needed_devices ?d = 1" by (simp add: needed_devices_def uniform_demand_def default_demand_def)
  have total: "free_total free sn ?d = card (free ?l)" for free by (simp add: free_total_def el sn(1))
  have fits: "(\<exists>s. {s ..< s + unat b} \<subseteq> X) \<longleftrightarrow> fits_in X ?d" for X by (simp add: fits_in_def)
  have cap: "capable free sn ?d = (if fits_in (free ?l) ?d then {0} else {})" for free
    by (auto simp: capable_def el sn(1))
  have run: "unat b \<le> card (reclaim_free_bytes ?l)" if prem: "fits_in (reclaim_free_bytes ?l) ?d"
  proof -
    obtain s where "{s ..< s + unat b} \<subseteq> reclaim_free_bytes ?l" using prem unfolding fits [symmetric] ..
    from card_mono [OF finite_free(2) this] show ?thesis by simp
  qed
  have "unat b \<le> card (free_bytes ?l)" using b free_capacity_card [OF sn(2)] by (simp add: word_le_nat_alt)
  then have "fit_spec sn ?d =
      (if fits_in (free_bytes ?l) ?d then FO_FIT_NOW
       else if fits_in (reclaim_free_bytes ?l) ?d then FO_FIT_AFTER_RECLAIM
       else if \<forall>e \<in> set (lay_allocations ?l). is_protected (snd e) then FO_NO_FIT_PROTECTED_STATE
       else FO_NO_FIT_FRAGMENTATION)"
    using sn run by (simp add: fit_spec_def total cap need el no_window_def)
  then show thesis using analyze_fit_spec [OF ok, of ?d] that unfolding fits by auto
qed

section \<open>The comb\<close>

text \<open>
  The layout of the shipped programs: blocks of 256 MiB at every second 256 MiB of a device of 2 GiB, like
  the teeth of a comb.  Half of the device is free, but no free block holds 512 MiB.
\<close>

definition comb :: "Allocation list \<Rightarrow> bool" where
  "comb as \<longleftrightarrow> list_all2 (\<lambda>off a. al_offset a = off \<and> al_length a = 0x10000000) [0, 0x20000000, 0x40000000, 0x60000000] as \<and>
     distinct (map al_id as)"

lemma combE:
  assumes "comb as"
  obtains a b c d where "as = [a, b, c, d]" "al_offset a = 0" "al_offset b = 0x20000000" "al_offset c = 0x40000000"
    "al_offset d = 0x60000000" "al_length a = 0x10000000" "al_length b = 0x10000000" "al_length c = 0x10000000"
    "al_length d = 0x10000000" "distinct [al_id a, al_id b, al_id c, al_id d]"
  using assms by (auto simp: comb_def list_all2_Cons1)

lemma comb_placeable: "comb as \<Longrightarrow> placeable 0x80000000 as"
  by (elim combE) (auto simp: placeable_def apart_def)

lemma comb_no_run:
  assumes comb: "comb as" and used: "(\<Union>a \<in> set as. alloc_bytes a) \<subseteq> used" and n: "0x10000000 < n"
  shows "\<not> {s ..< s + n} \<subseteq> {0 ..< 0x80000000} - used"
proof
  assume "{s ..< s + n} \<subseteq> {0 ..< 0x80000000} - used"
  then have run: "p \<notin> used \<and> p < 0x80000000" if "s \<le> p" "p \<le> s + 0x10000000" for p
    using that n by (auto dest!: subsetD [where c = p])
  have teeth: "p \<in> used"
    if "p < 0x10000000 \<or> 0x20000000 \<le> p \<and> p < 0x30000000 \<or> 0x40000000 \<le> p \<and> p < 0x50000000 \<or> 0x60000000 \<le> p \<and> p < 0x70000000" for p
  proof -
    have "p \<in> (\<Union>a \<in> set as. alloc_bytes a)" using comb that by (elim combE) (simp add: alloc_bytes_def)
    then show ?thesis using used by (rule subsetD [rotated])
  qed
  have "s \<notin> used" "s + 0x10000000 < 0x80000000" using run [of s] run [of "s + 0x10000000"] by simp_all
  then consider "0x10000000 \<le> s" "s < 0x20000000" | "0x30000000 \<le> s" "s < 0x40000000" | "0x50000000 \<le> s" "s < 0x60000000"
    using teeth [of s] by linarith
  then show False
    by cases (use run [of "0x20000000"] run [of "0x40000000"] run [of "0x60000000"] teeth [of "0x20000000"]
      teeth [of "0x40000000"] teeth [of "0x60000000"] in simp_all)
qed

lemma comb_gap: "{0x10000000 ..< 0x10000000 + 0x10000000} \<subseteq> {0 ..< 0x80000000} - (\<Union>a \<in> A. alloc_bytes a)"
  if "comb as" and "A \<subseteq> insert b (set as)" and "0x20000000 \<le> unat (al_offset b)"
  using that by (elim combE) (auto simp: alloc_bytes_def)

lemma comb_run: "{0x50000000 ..< 0x50000000 + 0x20000000} \<subseteq> {0 ..< 0x80000000} - (\<Union>a \<in> A. alloc_bytes a)"
  if "comb as" and "A \<subseteq> set (butlast as)"
  using that by (elim combE) (auto simp: alloc_bytes_def)

lemma comb_head: "{0 ..< 0 + 0x20000000} \<subseteq> {0 ..< 0x80000000} - (\<Union>a \<in> A. alloc_bytes a)"
  if "comb as" and "A \<subseteq> set (tl as)"
  using that by (elim combE) (auto simp: alloc_bytes_def)

lemma comb_largest:
  assumes inv: "layout_inv l" and cap: "lay_capacity l = 0x80000000" and reg: "set (lay_allocations l) = registry as'"
    and as: "comb as" "set as \<subseteq> set as'" "set as' \<subseteq> insert b (set as)" "0x20000000 \<le> unat (al_offset b)"
  shows "largest_free_block l = 0x10000000"
proof -
  have free: "free_bytes l = {0 ..< 0x80000000} - (\<Union>a \<in> set as'. alloc_bytes a)"
    using built_bytes(1) [OF reg] by (simp add: cap)
  have "0x10000000 \<le> unat (largest_free_block l)"
    unfolding longest_run_iff [OF inv, symmetric] free by (rule exI [of _ "0x10000000"], rule comb_gap [OF as(1,3,4)])
  moreover have "\<not> Suc 0x10000000 \<le> unat (largest_free_block l)"
    unfolding longest_run_iff [OF inv, symmetric] free using comb_no_run [OF as(1) UN_mono [OF as(2) order_refl], of "Suc 0x10000000"] by simp
  ultimately have "unat (largest_free_block l) = unat (0x10000000 :: u64)" by simp
  then show ?thesis by (simp only: word_unat_eq_iff)
qed

end
