(* ===== verification/Workers.thy ===== *)
theory Workers
  imports Evidence Transport_Correct
begin

text \<open>
  The worker processes: \<open>tools/fg_worker.cpp\<close>, and what it shares with \<open>cuda/fg_cuda_worker.cu\<close>.  A worker
  connects, sends three messages and waits for the reply to each without looking at it, then stays
  alive until it is killed: it is modelled by the messages it sends, or by the code it exits with.
\<close>

section \<open>The scripts\<close>

datatype process = Exits int | Publishes "Message list"

definition register_message :: "u64 \<Rightarrow> u64 \<Rightarrow> Message" where
  "register_message wid boot =
    default_message\<lparr>msg_type := MT_REGISTER, msg_worker_id := wid, msg_worker_boot := boot, msg_epoch := 1\<rparr>"

definition resource_message :: "u64 \<Rightarrow> u64 \<Rightarrow> Resource \<Rightarrow> Message" where
  "resource_message wid boot res =
    default_message\<lparr>msg_type := MT_PUBLISH_RESOURCE, msg_worker_id := wid, msg_worker_boot := boot, msg_epoch := 1,
      msg_resource := res\<rparr>"

definition layout_message :: "u64 \<Rightarrow> u64 \<Rightarrow> ResourceId \<Rightarrow> u64 \<Rightarrow> Allocation list \<Rightarrow> Message" where
  "layout_message wid boot rid gen as =
    default_message\<lparr>msg_type := MT_PUBLISH_LAYOUT, msg_worker_id := wid, msg_worker_boot := boot, msg_epoch := 1,
      msg_resource := default_resource\<lparr>res_id := rid\<rparr>, msg_resource_gen := gen, msg_allocations := as\<rparr>"

definition publish_script :: "u64 \<Rightarrow> u64 \<Rightarrow> Resource \<Rightarrow> Allocation list \<Rightarrow> Message list" where
  "publish_script wid boot res as =
    [register_message wid boot, resource_message wid boot res,
     layout_message wid boot (res_id res) (gen_value (res_generation res)) as]"

definition worker_resource :: "u64 \<Rightarrow> u64 \<Rightarrow> Resource" where
  "worker_resource wid gen = default_resource\<lparr>res_id := TypedId wid, res_generation := Generation gen, res_pool := TypedId 1,
     res_device := TypedId wid, res_node := TypedId 1, res_domain := D_CUDA_DEVICE_MEMORY, res_capacity := 2048 * MIB,
     res_provenance := PV_DERIVED\<rparr>"

text \<open>Lines 41 to 55 of \<open>fg_worker.cpp\<close>.\<close>

definition fg_worker_allocations :: "u64 \<Rightarrow> Allocation list" where
  "fg_worker_allocations wid =
    (let U = 256 * MIB in
     if wid = 1
     then [derived_allocation 101 1 (100 + wid) 0 U MV_IMMOVABLE, derived_allocation 102 1 (100 + wid) (2 * U) U MV_IMMOVABLE,
           derived_allocation 103 1 (100 + wid) (4 * U) U MV_IMMOVABLE, derived_allocation 104 1 (100 + wid) (6 * U) U MV_IMMOVABLE,
           derived_allocation 105 1 (100 + wid) (3 * U) (U div 4) MV_MOVABLE_AFTER_QUIESCE]
     else map (\<lambda>i. derived_allocation (201 + i) 1 (200 + wid) (2 * i * U) U MV_RELEASEABLE) [0, 1, 2, 3])"

definition fg_worker_script :: "u64 \<Rightarrow> u64 \<Rightarrow> Message list" where
  "fg_worker_script wid boot = publish_script wid boot (worker_resource wid 1) (fg_worker_allocations wid)"

definition fg_worker_main :: "bool \<Rightarrow> u64 \<Rightarrow> u64 \<Rightarrow> process" where
  "fg_worker_main connects wid boot = (if \<not> connects then Exits 1 else Publishes (fg_worker_script wid boot))"

section \<open>What the coordinator makes of a script\<close>

definition registered :: "WorkerId \<Rightarrow> u64 \<Rightarrow> Coordinator \<Rightarrow> Coordinator" where
  "registered w boot c =
    (let c = (case om_find (co_worker_boot c) w of
                None \<Rightarrow> c
              | Some b \<Rightarrow> if gen_value b \<noteq> boot then mark_worker_dead w c else c)
     in c\<lparr>co_worker_boot := om_put w (Generation boot) (co_worker_boot c), co_worker_alive := om_put w True (co_worker_alive c)\<rparr>)"

definition evidence_record :: "u64 \<Rightarrow> u64 \<Rightarrow> Resource \<Rightarrow> ResourceLayout \<Rightarrow> WorkerResourceRecord" where
  "evidence_record wid boot res l = \<lparr>wr_resource = res, wr_layout = l, wr_worker = TypedId wid,
     wr_boot = Generation boot, wr_alive = True, wr_provenance = res_provenance res\<rparr>"

definition with_record :: "WorkerResourceRecord \<Rightarrow> Coordinator \<Rightarrow> Coordinator" where
  "with_record rec c = advance_resource_generation
    (c\<lparr>co_resources := om_put (res_id (wr_resource rec)) rec (co_resources c)\<rparr>)"

lemma script_fields [simp]:
  "msg_type (register_message wid boot) = MT_REGISTER" "msg_type (resource_message wid boot res) = MT_PUBLISH_RESOURCE"
  "msg_type (layout_message wid boot rid gen as) = MT_PUBLISH_LAYOUT"
  "msg_worker_id (register_message wid boot) = wid" "msg_worker_boot (register_message wid boot) = boot"
  "msg_worker_id (resource_message wid boot res) = wid" "msg_worker_boot (resource_message wid boot res) = boot"
  "msg_resource (resource_message wid boot res) = res"
  "msg_worker_id (layout_message wid boot rid gen as) = wid" "msg_worker_boot (layout_message wid boot rid gen as) = boot"
  "res_id (msg_resource (layout_message wid boot rid gen as)) = rid"
  "msg_resource_gen (layout_message wid boot rid gen as) = gen" "msg_allocations (layout_message wid boot rid gen as) = as"
  by (simp_all add: register_message_def resource_message_def layout_message_def)

lemma register_handled:
  "boot \<noteq> 0 \<Longrightarrow> handle e (register_message wid boot) c fs = Inr ([acknowledge], registered (TypedId wid) boot c, fs)"
  by (simp add: handle_def handle_register_def accept_def registered_def Let_def split: option.split)

lemma worker_current:
  assumes "coord_inv c" and "om_find (co_worker_alive c) (TypedId wid) = Some True"
    and "om_find (co_worker_boot c) (TypedId wid) = Some (Generation boot)"
    and "msg_worker_id m = wid" "msg_worker_boot m = boot"
  shows "check_worker m c = (None, c)"
  using check_worker_same [OF assms(1)] assms by (cases "check_worker m c") auto

lemma registered_current:
  assumes "coord_inv c"
  shows "om_find (co_worker_alive (registered w boot c)) w = Some True"
    and "om_find (co_worker_boot (registered w boot c)) w = Some (Generation boot)"
  using coord_invD(5,6) [OF assms] coord_invD(5,6) [OF mark_worker_dead_inv [OF assms, of w]]
  by (simp_all add: registered_def Let_def om_find_put split: option.split)

lemma registered_inv: "coord_inv c \<Longrightarrow> boot \<noteq> 0 \<Longrightarrow> coord_inv (registered (TypedId wid) boot c)"
  using handle_keeps(1) [OF _ register_handled [of boot undefined wid c undefined]] by blast

text \<open>Registration changes no resource that was published: it may only withdraw the worker's own.\<close>

lemma registered_find:
  "om_find (co_resources (registered w boot c)) i = Some rec \<Longrightarrow>
   \<exists>rec0. om_find (co_resources c) i = Some rec0 \<and> wr_resource rec = wr_resource rec0 \<and> wr_layout rec = wr_layout rec0 \<and>
     wr_worker rec = wr_worker rec0 \<and> (wr_worker rec \<noteq> w \<longrightarrow> rec = rec0)"
  by (auto simp: registered_def Let_def mark_worker_dead_resources om_find_update split: option.splits if_splits)

lemma registered_find_None: "om_find (co_resources (registered w boot c)) i = None \<longleftrightarrow> om_find (co_resources c) i = None"
  by (auto simp: registered_def Let_def mark_worker_dead_resources om_find_update split: option.splits if_splits)

lemma resource_handled:
  assumes inv: "coord_inv c" and live: "om_find (co_worker_alive c) (TypedId wid) = Some True"
      "om_find (co_worker_boot c) (TypedId wid) = Some (Generation boot)"
    and dev: "res_device res \<noteq> TypedId 0"
    and newer: "\<And>rec. om_find (co_resources c) (res_id res) = Some rec \<Longrightarrow>
      gen_value (res_generation (wr_resource rec)) < gen_value (res_generation res)"
  shows "handle e (resource_message wid boot res) c fs =
    Inr ([acknowledge], with_record (evidence_record wid boot res (mk_layout (res_capacity res))) c, fs)"
proof -
  have "check_worker (resource_message wid boot res) c = (None, c)"
    by (rule worker_current [OF inv live]) simp_all
  moreover have "\<not> id_is_null (res_device res)" using dev by (cases "res_device res") (simp add: id_is_null_def)
  moreover have "\<not> (case om_find (co_resources c) (res_id res) of None \<Rightarrow> False
      | Some rec \<Rightarrow> gen_value (res_generation res) \<le> gen_value (res_generation (wr_resource rec)))"
    using newer by (auto simp: not_le split: option.splits)
  ultimately show ?thesis
    by (simp add: handle_def handle_publish_resource_def accept_def Let_def evidence_record_def with_record_def)
qed

lemma layout_handled:
  assumes inv: "coord_inv c" and live: "om_find (co_worker_alive c) (TypedId wid) = Some True"
      "om_find (co_worker_boot c) (TypedId wid) = Some (Generation boot)"
    and rec: "om_find (co_resources c) (res_id (wr_resource rec)) = Some rec" "wr_worker rec = TypedId wid"
      "gen_value (res_generation (wr_resource rec)) \<le> gen"
    and l: "insert_all as (mk_layout (res_capacity (wr_resource rec))) = Inr (None, l)"
  shows "handle e (layout_message wid boot (res_id (wr_resource rec)) gen as) c fs =
    Inr ([acknowledge], with_record (rec\<lparr>wr_layout := l\<rparr>) c, fs)"
proof -
  have "check_worker (layout_message wid boot (res_id (wr_resource rec)) gen as) c = (None, c)"
    by (rule worker_current [OF inv live]) simp_all
  moreover have "\<not> gen < gen_value (res_generation (wr_resource rec))" using rec(3) by simp
  ultimately show ?thesis using rec(1,2) l
    by (simp add: handle_def handle_publish_layout_def accept_def Let_def with_record_def)
qed

text \<open>The whole script in a state in which the resource is new or older than what the worker publishes.\<close>

lemma with_record_fields [simp]:
  "co_plans (with_record rec c) = co_plans c" "co_worker_alive (with_record rec c) = co_worker_alive c"
  "co_worker_boot (with_record rec c) = co_worker_boot c" "co_epoch (with_record rec c) = co_epoch c"
  "co_policy_generation (with_record rec c) = co_policy_generation c" "co_next_plan_id (with_record rec c) = co_next_plan_id c"
  "co_before_snapshots (with_record rec c) = co_before_snapshots c"
  "co_resources (with_record rec c) = om_put (res_id (wr_resource rec)) rec (co_resources c)"
  by (simp_all add: with_record_def advance_resource_generation_def Let_def)

lemma evidence_record_fields [simp]:
  "wr_resource (evidence_record wid boot res l) = res" "wr_worker (evidence_record wid boot res l) = TypedId wid"
  "wr_alive (evidence_record wid boot res l)" "wr_layout (evidence_record wid boot res l) = l"
  "(evidence_record wid boot res l)\<lparr>wr_layout := l'\<rparr> = evidence_record wid boot res l'"
  by (simp_all add: evidence_record_def)

lemma publish_script_handled:
  assumes inv: "coord_inv c" and boot: "boot \<noteq> 0" and dev: "res_device res \<noteq> TypedId 0"
    and newer: "\<And>rec. om_find (co_resources c) (res_id res) = Some rec \<Longrightarrow>
      gen_value (res_generation (wr_resource rec)) < gen_value (res_generation res)"
    and l: "insert_all as (mk_layout (res_capacity res)) = Inr (None, l)"
  shows "answer (map (Pair e) (publish_script wid boot res as)) c fs = Inr ([acknowledge, acknowledge, acknowledge],
    with_record (evidence_record wid boot res l)
      (with_record (evidence_record wid boot res (mk_layout (res_capacity res))) (registered (TypedId wid) boot c)), fs)"
proof -
  define c1 where "c1 = registered (TypedId wid) boot c"
  define c2 where "c2 = with_record (evidence_record wid boot res (mk_layout (res_capacity res))) c1"
  have inv1: "coord_inv c1" unfolding c1_def by (rule registered_inv [OF inv boot])
  note live = registered_current [OF inv, of "TypedId wid" boot, folded c1_def]
  have "gen_value (res_generation (wr_resource rec)) < gen_value (res_generation res)"
    if "om_find (co_resources c1) (res_id res) = Some rec" for rec
    using registered_find [OF that [unfolded c1_def]] newer by auto
  then have h2: "handle e (resource_message wid boot res) c1 fs = Inr ([acknowledge], c2, fs)"
    unfolding c2_def by (rule resource_handled [OF inv1 live dev])
  have inv2: "coord_inv c2" by (rule handle_keeps(1) [OF inv1 h2])
  have "om_find (co_resources c2) (res_id res) = Some (evidence_record wid boot res (mk_layout (res_capacity res)))"
    using om_find_put [OF coord_invD(1) [OF inv1]] by (simp add: c2_def)
  then have "handle e (layout_message wid boot (res_id res) (gen_value (res_generation res)) as) c2 fs =
      Inr ([acknowledge], with_record (evidence_record wid boot res l) c2, fs)"
    using layout_handled [OF inv2, of wid boot "evidence_record wid boot res (mk_layout (res_capacity res))" _ as l e fs] live l
    by (simp add: c2_def)
  with h2 show ?thesis
    using register_handled [OF boot, of e wid c fs] by (simp add: publish_script_def c1_def c2_def)
qed

lemma answer_reachable:
  "reachable co_init co_step (c, fs) \<Longrightarrow> answer ms c fs = Inr (out, c', fs') \<Longrightarrow> reachable co_init co_step (c', fs')"
proof (induction ms arbitrary: c fs out)
  case (Cons em ms)
  obtain e m where em: "em = (e, m)" by (cases em)
  with Cons.prems(2) obtain out1 c1 fs1 out2 where h: "handle e m c fs = Inr (out1, c1, fs1)" "answer ms c1 fs1 = Inr (out2, c', fs')"
    by (auto elim!: chain_InrE)
  have "reachable co_init co_step (c1, fs1)" using Cons.prems(1) co_step.message [OF h(1)] by (rule reachable.onward)
  then show ?case using h(2) by (rule Cons.IH)
qed simp

section \<open>The evidence of the reference worker\<close>

lemma fg_worker_comb:
  obtains as b where "comb as" "set as \<subseteq> set (fg_worker_allocations wid)" "set (fg_worker_allocations wid) \<subseteq> insert b (set as)"
    "0x20000000 \<le> unat (al_offset b)"
proof (cases "wid = 1")
  case True
  show thesis
    by (rule that [of "butlast (fg_worker_allocations wid)" "last (fg_worker_allocations wid)"])
      (auto simp: True fg_worker_allocations_def comb_def MIB_def Let_def derived_allocation_def)
next
  case False
  show thesis
    by (rule that [of "fg_worker_allocations wid" "last (fg_worker_allocations wid)"])
      (auto simp: False fg_worker_allocations_def comb_def MIB_def Let_def derived_allocation_def)
qed

lemma fg_worker_placeable: "placeable 0x80000000 (fg_worker_allocations wid)"
  by (cases "wid = 1") (simp_all add: fg_worker_allocations_def placeable_def apart_def MIB_def Let_def derived_allocation_def)

lemma fg_worker_layout:
  obtains l where "insert_all (fg_worker_allocations wid) (mk_layout (2048 * MIB)) = Inr (None, l)" "layout_inv l"
    "free_capacity l = (if wid = 1 then 960 else 1024) * MIB" "largest_free_block l = 256 * MIB"
proof -
  have cap: "2048 * MIB = 0x80000000" by (simp add: MIB_def)
  obtain l where l: "insert_all (fg_worker_allocations wid) (mk_layout 0x80000000) = Inr (None, l)" "layout_inv l"
    "lay_capacity l = 0x80000000" "set (lay_allocations l) = registry (fg_worker_allocations wid)"
    by (rule build_layout [of "0x80000000" "fg_worker_allocations wid"]) (use fg_worker_placeable in simp_all)
  have "largest_free_block l = 0x10000000"
    by (rule fg_worker_comb [of wid]) (rule comb_largest [OF l(2-4)])
  moreover have "unat (free_capacity l) = unat ((if wid = 1 then 960 else 1024) * MIB)"
    using built_free_capacity [OF l(2) _ l(4)] fg_worker_placeable [of wid] l(3)
    by (simp add: fg_worker_allocations_def MIB_def Let_def derived_allocation_def split: if_splits)
  then have "free_capacity l = (if wid = 1 then 960 else 1024) * MIB" by (simp only: word_unat_eq_iff)
  ultimately show thesis using that l(1,2) by (simp add: cap MIB_def)
qed


lemma fresh_reachable: "reachable co_init co_step (mk_Coordinator epoch, fs)"
  by (rule reachable.start) (auto simp: co_init_def)



lemma worker_twice:
  obtains c l where "reachable co_init co_step (c, \<lambda>_. None)" "om_find (co_worker_boot c) (TypedId 2) = Some (Generation 1)"
    "om_find (co_resources c) (TypedId 2) = Some (evidence_record 2 1 (worker_resource 2 1) l)"
proof -
  let ?c = "mk_Coordinator (Generation 1)" and ?res = "worker_resource 2 1"
  obtain l where l: "insert_all (fg_worker_allocations 2) (mk_layout (2048 * MIB)) = Inr (None, l)" by (rule fg_worker_layout)
  define c' where "c' = with_record (evidence_record 2 1 ?res l)
      (with_record (evidence_record 2 1 ?res (mk_layout (res_capacity ?res))) (registered (TypedId 2) 1 ?c))"
  have "answer (map (Pair sample_env) (fg_worker_script 2 1)) ?c (\<lambda>_. None) = Inr ([acknowledge, acknowledge, acknowledge], c', \<lambda>_. None)"
    unfolding fg_worker_script_def c'_def
    by (rule publish_script_handled [OF coord_inv_init]) (simp_all add: mk_Coordinator_def om_find_def worker_resource_def l)
  then have "reachable co_init co_step (c', \<lambda>_. None)" by (rule answer_reachable [OF fresh_reachable])
  moreover have "om_find (co_worker_boot c') (TypedId 2) = Some (Generation 1)"
    using registered_current(2) [OF coord_inv_init] by (simp add: c'_def)
  moreover have "om_inv (co_resources (registered (TypedId 2) 1 ?c))" using coord_invD(1) [OF registered_inv [OF coord_inv_init]] by simp
  then have "om_find (co_resources c') (TypedId 2) = Some (evidence_record 2 1 ?res l)"
    by (simp add: c'_def worker_resource_def om_find_put om_inv_put)
  ultimately show thesis by (rule that)
qed


end
