(* ===== verification/Cuda_Runtime.thy ===== *)
theory Cuda_Runtime
  imports Kernel Workers
begin

text \<open>
  The CUDA runtime as the CUDA programs see it.  The runtime and the device are not part of the
  repository: they are a record of operations on an unknown device state \<open>'d\<close>, an argument of every
  program, and \<open>cuda_memory\<close> says what the programs rely on.  The programs are in a monad that threads
  the device state and leaves with an exit code and a line on the error output, with an exception, or
  by undefined behaviour.
\<close>

section \<open>The runtime\<close>

text \<open>
  Each call returns whether it succeeded, its result and the new device state.  A pointer is a number;
  \<open>gpu_memory\<close> and \<open>gpu_write\<close> are the memory as a kernel sees it, \<open>gpu_order\<close> the order in which
  the device runs the threads of a grid.
\<close>

type_synonym ('d, 'a) cuda_call = "'d \<Rightarrow> bool \<times> 'a \<times> 'd"

record 'd cuda_runtime =
  cudaSetDevice :: "('d, unit) cuda_call"
  cudaDeviceMajor :: "('d, int) cuda_call"
  cudaMemGetInfo :: "('d, u64) cuda_call"
  cudaMalloc :: "u64 \<Rightarrow> ('d, nat) cuda_call"
  cudaFree :: "nat \<Rightarrow> ('d, unit) cuda_call"
  cudaMemcpyHostToDevice :: "nat \<Rightarrow> float list \<Rightarrow> ('d, unit) cuda_call"
  cudaMemcpyDeviceToDevice :: "nat \<Rightarrow> nat \<Rightarrow> nat \<Rightarrow> ('d, unit) cuda_call"
  cudaMemcpyDeviceToHost :: "nat \<Rightarrow> nat \<Rightarrow> ('d, float list) cuda_call"
  cudaDeviceSynchronize :: "('d, unit) cuda_call"
  gpu_memory :: "nat \<Rightarrow> 'd \<Rightarrow> float list option"
  gpu_write :: "nat \<Rightarrow> float list \<Rightarrow> 'd \<Rightarrow> 'd"
  gpu_order :: "nat \<Rightarrow> nat \<Rightarrow> 'd \<Rightarrow> (u32 \<times> u32) list"

text \<open>
  The launch \<open>add_one_kernel<<<(n + 255) / 256, 256>>>(out, in, n)\<close>; an invalid access is a failure.
  The runtime reports it with the next call; the model reports it with the launch.
\<close>

definition launch_add_one :: "'d cuda_runtime \<Rightarrow> nat \<Rightarrow> nat \<Rightarrow> int \<Rightarrow> ('d, unit) cuda_call" where
  "launch_add_one C out inp n d =
    (case (gpu_memory C inp d, gpu_memory C out d) of
       (Some xs, Some ys) \<Rightarrow>
         (case run_threads (add_one_kernel 256 xs n) (gpu_order C (launch_grid n) 256 d) ys of
            Some zs \<Rightarrow> (True, (), gpu_write C out zs d)
          | None \<Rightarrow> (False, (), d))
     | _ \<Rightarrow> (False, (), d))"

section \<open>What the programs rely on\<close>

definition keeps_memory :: "'d cuda_runtime \<Rightarrow> nat set \<Rightarrow> 'd \<Rightarrow> 'd \<Rightarrow> bool" where
  "keeps_memory C P d d' \<longleftrightarrow> (\<forall>q. q \<notin> P \<longrightarrow> gpu_memory C q d' = gpu_memory C q d)"

text \<open>
  A successful call does what the manual of the runtime says: an allocation is new memory of the
  requested size, a copy copies, nothing changes the memory of another allocation, and the device runs
  every thread of a grid exactly once.  Nothing is said about calls that fail, and no call has to succeed.
\<close>

definition cuda_memory :: "'d cuda_runtime \<Rightarrow> bool" where
  "cuda_memory C \<longleftrightarrow>
     (\<forall>b d p d'. cudaMalloc C b d = (True, p, d') \<longrightarrow> gpu_memory C p d = None \<and>
        (\<exists>ws. gpu_memory C p d' = Some ws \<and> length ws = unat (b div 4)) \<and> keeps_memory C {p} d d') \<and>
     (\<forall>p d d'. cudaFree C p d = (True, (), d') \<longrightarrow> keeps_memory C {p} d d') \<and>
     (\<forall>p xs ws d d'. gpu_memory C p d = Some ws \<longrightarrow> length xs = length ws \<longrightarrow>
        cudaMemcpyHostToDevice C p xs d = (True, (), d') \<longrightarrow> gpu_memory C p d' = Some xs \<and> keeps_memory C {p} d d') \<and>
     (\<forall>p q xs ws d d'. gpu_memory C q d = Some xs \<longrightarrow> gpu_memory C p d = Some ws \<longrightarrow> length xs = length ws \<longrightarrow>
        cudaMemcpyDeviceToDevice C p q (length xs) d = (True, (), d') \<longrightarrow> gpu_memory C p d' = Some xs \<and> keeps_memory C {p} d d') \<and>
     (\<forall>p ws xs d d'. gpu_memory C p d = Some ws \<longrightarrow>
        cudaMemcpyDeviceToHost C p (length ws) d = (True, xs, d') \<longrightarrow> xs = ws \<and> keeps_memory C {} d d') \<and>
     (\<forall>d d'. cudaDeviceSynchronize C d = (True, (), d') \<longrightarrow> keeps_memory C {} d d') \<and>
     (\<forall>p ws xs d. gpu_memory C p d = Some ws \<longrightarrow> gpu_memory C p (gpu_write C p xs d) = Some xs \<and> keeps_memory C {p} d (gpu_write C p xs d)) \<and>
     (\<forall>g b d. mset (gpu_order C g b d) = mset (grid_threads g b))"

text \<open>A runtime on which everything goes well.\<close>

definition cuda_succeeds :: "'d cuda_runtime \<Rightarrow> bool" where
  "cuda_succeeds C \<longleftrightarrow>
     (\<forall>d. fst (cudaSetDevice C d)) \<and> (\<forall>d. \<exists>v d'. cudaDeviceMajor C d = (True, v, d') \<and> 12 \<le> v) \<and>
     (\<exists>v. \<forall>d. \<exists>d'. cudaMemGetInfo C d = (True, v, d')) \<and>
     (\<forall>b d. fst (cudaMalloc C b d)) \<and> (\<forall>p d. fst (cudaFree C p d)) \<and> (\<forall>p xs d. fst (cudaMemcpyHostToDevice C p xs d)) \<and>
     (\<forall>p q n d. fst (cudaMemcpyDeviceToDevice C p q n d)) \<and> (\<forall>p n d. fst (cudaMemcpyDeviceToHost C p n d)) \<and>
     (\<forall>d. fst (cudaDeviceSynchronize C d))"

section \<open>Programs\<close>

datatype stop = Stops int string | Throws exn | Undefined

type_synonym ('d, 'a) cuda_prog = "'d \<Rightarrow> stop + 'a \<times> 'd"

definition cu_return :: "'a \<Rightarrow> ('d, 'a) cuda_prog" where
  "cu_return x d = Inr (x, d)"

definition cu_bind :: "('d, 'a) cuda_prog \<Rightarrow> ('a \<Rightarrow> ('d, 'b) cuda_prog) \<Rightarrow> ('d, 'b) cuda_prog" where
  "cu_bind m f d = (case m d of Inl s \<Rightarrow> Inl s | Inr (x, d') \<Rightarrow> f x d')"

text \<open>The macro \<open>CUDA_CHECK\<close>; a condition that leaves \<open>main\<close>; a call of the library.\<close>

definition CUDA_CHECK :: "('d, 'a) cuda_call \<Rightarrow> ('d, 'a) cuda_prog" where
  "CUDA_CHECK call d = (case call d of (ok, x, d') \<Rightarrow> if ok then Inr (x, d') else Inl (Stops 1 ''CUDA error''))"

definition leave_if :: "bool \<Rightarrow> int \<Rightarrow> string \<Rightarrow> ('d, unit) cuda_prog" where
  "leave_if b code msg d = (if b then Inl (Stops code msg) else Inr ((), d))"

definition governor :: "'a res \<Rightarrow> ('d, 'a) cuda_prog" where
  "governor r d = (case r of Inl e \<Rightarrow> Inl (Throws e) | Inr x \<Rightarrow> Inr (x, d))"

text \<open>A call whose status is kept or dropped, and \<open>operator->\<close> of an optional.\<close>

definition cuda_status :: "('d, 'a) cuda_call \<Rightarrow> ('d, bool \<times> 'a) cuda_prog" where
  "cuda_status call d = (case call d of (ok, x, d') \<Rightarrow> Inr ((ok, x), d'))"

definition deref :: "'a option \<Rightarrow> ('d, 'a) cuda_prog" where
  "deref r d = (case r of None \<Rightarrow> Inl Undefined | Some x \<Rightarrow> Inr (x, d))"

text \<open>The loops that compare the device's result with the host's, word by word.\<close>

definition parity :: "float list \<Rightarrow> float list \<Rightarrow> bool" where
  "parity ho expected = list_all (\<lambda>(x, y). \<not> f_differs x y) (zip ho expected)"

definition words_of :: "Bytes \<Rightarrow> nat" where
  "words_of bytes = unat (bytes div 4)"

lemma parity_same: "\<forall>x \<in> set xs. \<not> f_differs x x \<Longrightarrow> parity xs xs"
  by (induction xs) (simp_all add: parity_def)

section \<open>Reasoning about them\<close>

text \<open>
  \<open>ensures A m d P\<close>: started in \<open>d\<close> the program \<open>m\<close> returns with \<open>P\<close>, or leaves with one of the lines
  \<open>A\<close> on the error output; it does not throw and its behaviour is defined.
\<close>

definition ensures :: "string set \<Rightarrow> ('d, 'a) cuda_prog \<Rightarrow> 'd \<Rightarrow> ('a \<Rightarrow> 'd \<Rightarrow> bool) \<Rightarrow> bool" where
  "ensures A m d P \<longleftrightarrow> (case m d of Inl (Stops code msg) \<Rightarrow> code \<noteq> 0 \<and> msg \<in> A | Inl _ \<Rightarrow> False | Inr (x, d') \<Rightarrow> P x d')"

lemma ensures_bind: "ensures A m d (\<lambda>x d'. ensures A (f x) d' P) \<Longrightarrow> ensures A (cu_bind m f) d P"
  by (auto simp: ensures_def cu_bind_def split: sum.splits stop.splits)

lemma ensures_return: "P x d \<Longrightarrow> ensures A (cu_return x) d P"
  by (simp add: ensures_def cu_return_def)

lemma ensures_check:
  assumes "''CUDA error'' \<in> A \<or> fst (call d)" and "\<And>x d'. call d = (True, x, d') \<Longrightarrow> P x d'"
  shows "ensures A (CUDA_CHECK call) d P"
  using assms by (cases "call d") (auto simp: ensures_def CUDA_CHECK_def)

lemma ensures_leave_if: "(b \<Longrightarrow> code \<noteq> 0 \<and> msg \<in> A) \<Longrightarrow> (\<not> b \<Longrightarrow> P () d) \<Longrightarrow> ensures A (leave_if b code msg) d P"
  by (simp add: ensures_def leave_if_def)

lemma ensures_governor: "r = Inr x \<Longrightarrow> P x d \<Longrightarrow> ensures A (governor r) d P"
  by (simp add: ensures_def governor_def)

lemma ensures_deref: "P x d \<Longrightarrow> ensures A (deref (Some x)) d P"
  by (simp add: ensures_def deref_def)

lemma ensures_status: "ensures {} (CUDA_CHECK call) d P \<Longrightarrow> (\<And>x d'. P x d' \<Longrightarrow> Q (True, x) d') \<Longrightarrow> ensures A (cuda_status call) d Q"
  by (cases "call d") (auto simp: ensures_def CUDA_CHECK_def cuda_status_def split: if_splits)

lemma ensures_mono: "ensures A m d P \<Longrightarrow> (\<And>x d'. P x d' \<Longrightarrow> Q x d') \<Longrightarrow> ensures A m d Q"
  by (auto simp: ensures_def split: sum.splits stop.splits)

text \<open>The calls of a runtime that does what its manual says, with failures reported or excluded.\<close>

definition calls_ok :: "string set \<Rightarrow> 'd cuda_runtime \<Rightarrow> bool" where
  "calls_ok A C \<longleftrightarrow> cuda_memory C \<and> (''CUDA error'' \<in> A \<or> cuda_succeeds C)"

lemma calls_okD:
  assumes "calls_ok A C"
  shows "''CUDA error'' \<in> A \<or> fst (cudaMalloc C b d)" "''CUDA error'' \<in> A \<or> fst (cudaFree C p d)"
    "''CUDA error'' \<in> A \<or> fst (cudaMemcpyHostToDevice C p xs d)" "''CUDA error'' \<in> A \<or> fst (cudaMemcpyDeviceToDevice C p q n d)"
    "''CUDA error'' \<in> A \<or> fst (cudaMemcpyDeviceToHost C p n d)" "''CUDA error'' \<in> A \<or> fst (cudaDeviceSynchronize C d)"
  using assms by (auto simp: calls_ok_def cuda_succeeds_def)

lemma cuda_memoryD:
  assumes "calls_ok A C"
  shows "cudaMalloc C b d = (True, p, d') \<Longrightarrow> gpu_memory C p d = None \<and>
      (\<exists>ws. gpu_memory C p d' = Some ws \<and> length ws = unat (b div 4)) \<and> keeps_memory C {p} d d'" (is "PROP ?M")
    and "cudaFree C p d = (True, (), d') \<Longrightarrow> keeps_memory C {p} d d'" (is "PROP ?F")
    and "gpu_memory C p d = Some ws \<Longrightarrow> length xs = length ws \<Longrightarrow> cudaMemcpyHostToDevice C p xs d = (True, (), d') \<Longrightarrow>
      gpu_memory C p d' = Some xs \<and> keeps_memory C {p} d d'" (is "PROP ?U")
    and "gpu_memory C q d = Some xs \<Longrightarrow> gpu_memory C p d = Some ws \<Longrightarrow> length xs = length ws \<Longrightarrow>
      cudaMemcpyDeviceToDevice C p q (length xs) d = (True, (), d') \<Longrightarrow> gpu_memory C p d' = Some xs \<and> keeps_memory C {p} d d'" (is "PROP ?R")
    and "gpu_memory C p d = Some ws \<Longrightarrow> cudaMemcpyDeviceToHost C p (length ws) d = (True, ys, d') \<Longrightarrow>
      ys = ws \<and> keeps_memory C {} d d'" (is "PROP ?D")
    and "cudaDeviceSynchronize C d = (True, (), d') \<Longrightarrow> keeps_memory C {} d d'" (is "PROP ?S")
    and "gpu_memory C p d = Some ws \<Longrightarrow> gpu_memory C p (gpu_write C p xs d) = Some xs \<and> keeps_memory C {p} d (gpu_write C p xs d)" (is "PROP ?W")
    and "mset (gpu_order C g n d) = mset (grid_threads g n)"
proof -
  have C: "cuda_memory C" using assms by (simp add: calls_ok_def)
  note laws = C [unfolded cuda_memory_def]
  show "PROP ?M" by (rule laws [THEN conjunct1, rule_format])
  show "PROP ?F" by (rule laws [THEN conjunct2, THEN conjunct1, rule_format])
  show "PROP ?U" by (rule laws [THEN conjunct2, THEN conjunct2, THEN conjunct1, rule_format])
  show "PROP ?R" by (rule laws [THEN conjunct2, THEN conjunct2, THEN conjunct2, THEN conjunct1, rule_format])
  show "PROP ?D" by (rule laws [THEN conjunct2, THEN conjunct2, THEN conjunct2, THEN conjunct2, THEN conjunct1, rule_format])
  show "PROP ?S" by (rule laws [THEN conjunct2, THEN conjunct2, THEN conjunct2, THEN conjunct2, THEN conjunct2, THEN conjunct1, rule_format])
  show "PROP ?W" by (rule laws [THEN conjunct2, THEN conjunct2, THEN conjunct2, THEN conjunct2, THEN conjunct2, THEN conjunct2, THEN conjunct1, rule_format])
  show "mset (gpu_order C g n d) = mset (grid_threads g n)" by (rule laws [THEN conjunct2, THEN conjunct2, THEN conjunct2, THEN conjunct2, THEN conjunct2, THEN conjunct2, THEN conjunct2, rule_format])
qed

lemma ensures_malloc:
  assumes ok: "calls_ok A C"
    and post: "\<And>p ws d'. gpu_memory C p d = None \<Longrightarrow> gpu_memory C p d' = Some ws \<Longrightarrow> length ws = unat (b div 4) \<Longrightarrow>
      keeps_memory C {p} d d' \<Longrightarrow> P p d'"
  shows "ensures A (CUDA_CHECK (cudaMalloc C b)) d P"
proof (rule ensures_check [OF calls_okD(1) [OF ok]])
  fix p d' assume "cudaMalloc C b d = (True, p, d')"
  from cuda_memoryD(1) [OF ok this] show "P p d'" using post by blast
qed

lemma ensures_free:
  assumes ok: "calls_ok A C" and post: "\<And>d'. keeps_memory C {p} d d' \<Longrightarrow> P () d'"
  shows "ensures A (CUDA_CHECK (cudaFree C p)) d P"
proof (rule ensures_check [OF calls_okD(2) [OF ok]])
  fix x d' assume "cudaFree C p d = (True, x, d')"
  then show "P x d'" using cuda_memoryD(2) [OF ok, of p d d'] post by simp
qed

lemma ensures_upload:
  assumes ok: "calls_ok A C" and mem: "gpu_memory C p d = Some ws" "length xs = length ws"
    and post: "\<And>d'. gpu_memory C p d' = Some xs \<Longrightarrow> keeps_memory C {p} d d' \<Longrightarrow> P () d'"
  shows "ensures A (CUDA_CHECK (cudaMemcpyHostToDevice C p xs)) d P"
proof (rule ensures_check [OF calls_okD(3) [OF ok]])
  fix x d' assume "cudaMemcpyHostToDevice C p xs d = (True, x, d')"
  then show "P x d'" using cuda_memoryD(3) [OF ok mem, of d'] post by simp
qed

lemma ensures_relocate:
  assumes ok: "calls_ok A C" and mem: "gpu_memory C q d = Some xs" "gpu_memory C p d = Some ws" "length xs = length ws" "n = length xs"
    and post: "\<And>d'. gpu_memory C p d' = Some xs \<Longrightarrow> keeps_memory C {p} d d' \<Longrightarrow> P () d'"
  shows "ensures A (CUDA_CHECK (cudaMemcpyDeviceToDevice C p q n)) d P"
proof (rule ensures_check [OF calls_okD(4) [OF ok]])
  fix x d' assume "cudaMemcpyDeviceToDevice C p q n d = (True, x, d')"
  then show "P x d'" using cuda_memoryD(4) [OF ok mem(1-3), of d'] mem(4) post by simp
qed

lemma ensures_download:
  assumes ok: "calls_ok A C" and mem: "gpu_memory C p d = Some ws" "n = length ws"
    and post: "\<And>d'. keeps_memory C {} d d' \<Longrightarrow> P ws d'"
  shows "ensures A (CUDA_CHECK (cudaMemcpyDeviceToHost C p n)) d P"
proof (rule ensures_check [OF calls_okD(5) [OF ok]])
  fix xs d' assume "cudaMemcpyDeviceToHost C p n d = (True, xs, d')"
  then show "P xs d'" using cuda_memoryD(5) [OF ok mem(1), of xs d'] mem(2) post by simp
qed

lemma ensures_synchronize:
  assumes ok: "calls_ok A C" and post: "\<And>d'. keeps_memory C {} d d' \<Longrightarrow> P () d'"
  shows "ensures A (CUDA_CHECK (cudaDeviceSynchronize C)) d P"
proof (rule ensures_check [OF calls_okD(6) [OF ok]])
  fix x d' assume "cudaDeviceSynchronize C d = (True, x, d')"
  then show "P x d'" using cuda_memoryD(6) [OF ok, of d d'] post by simp
qed

lemma launch_ok:
  assumes ok: "calls_ok A C" and mem: "gpu_memory C inp d = Some xs" "gpu_memory C out d = Some ys" "length ys = length xs"
    and n: "n = int (length xs)" "length xs \<le> 2 ^ 30"
  shows "launch_add_one C out inp n d = (True, (), gpu_write C out (map add_one xs) d)"
proof -
  have "run_threads (add_one_kernel 256 xs n) (gpu_order C (launch_grid n) 256 d) ys = Some (map add_one xs)"
    using n mem(3) by (intro kernel_any_order [OF cuda_memoryD(8) [OF ok]]) simp_all
  then show ?thesis using mem(1,2) by (simp add: launch_add_one_def)
qed

lemma ensures_launch:
  assumes ok: "calls_ok A C" and mem: "gpu_memory C inp d = Some xs" "gpu_memory C out d = Some ys" "length ys = length xs"
    and n: "n = int (length xs)" "length xs \<le> 2 ^ 30"
    and post: "\<And>d'. gpu_memory C out d' = Some (map add_one xs) \<Longrightarrow> keeps_memory C {out} d d' \<Longrightarrow> P () d'"
  shows "ensures A (CUDA_CHECK (launch_add_one C out inp n)) d P"
proof (rule ensures_check)
  fix x d' assume "launch_add_one C out inp n d = (True, x, d')"
  then have "d' = gpu_write C out (map add_one xs) d" using launch_ok [OF ok mem n] by simp
  then show "P x d'" using cuda_memoryD(7) [OF ok mem(2), of "map add_one xs"] post by simp
qed (simp add: launch_ok [OF ok mem n])

lemma keeps_memoryD: "keeps_memory C P d d' \<Longrightarrow> gpu_memory C q d = r \<Longrightarrow> q \<notin> P \<Longrightarrow> gpu_memory C q d' = r"
  by (simp add: keeps_memory_def)

section \<open>A runtime that meets the requirements\<close>

text \<open>Memory that only grows: a pointer is the position of its block in a list.\<close>

definition sample_cuda :: "float list list cuda_runtime" where
  "sample_cuda = \<lparr>cudaSetDevice = (\<lambda>d. (True, (), d)), cudaDeviceMajor = (\<lambda>d. (True, 12, d)), cudaMemGetInfo = (\<lambda>d. (True, 1000, d)),
     cudaMalloc = (\<lambda>b d. (True, length d, d @ [replicate (unat (b div 4)) 0])), cudaFree = (\<lambda>p d. (True, (), d)),
     cudaMemcpyHostToDevice = (\<lambda>p xs d. (True, (), d[p := xs])),
     cudaMemcpyDeviceToDevice = (\<lambda>p q n d. (True, (), d[p := d ! q])),
     cudaMemcpyDeviceToHost = (\<lambda>p n d. (True, d ! p, d)), cudaDeviceSynchronize = (\<lambda>d. (True, (), d)),
     gpu_memory = (\<lambda>p d. if p < length d then Some (d ! p) else None), gpu_write = (\<lambda>p xs d. d[p := xs]),
     gpu_order = (\<lambda>g b d. rev (grid_threads g b))\<rparr>"

lemma sample_cuda_fields [simp]:
  "cudaMalloc sample_cuda b d = (True, length d, d @ [replicate (unat (b div 4)) 0])" "cudaFree sample_cuda p d = (True, (), d)"
  "cudaMemcpyHostToDevice sample_cuda p xs d = (True, (), d[p := xs])" "cudaMemcpyDeviceToDevice sample_cuda p q n d = (True, (), d[p := d ! q])"
  "cudaMemcpyDeviceToHost sample_cuda p n d = (True, d ! p, d)" "cudaDeviceSynchronize sample_cuda d = (True, (), d)"
  "gpu_memory sample_cuda p d = (if p < length d then Some (d ! p) else None)" "gpu_write sample_cuda p xs d = d[p := xs]"
  "gpu_order sample_cuda g k d = rev (grid_threads g k)"
  by (simp_all add: sample_cuda_def)

lemma sample_cuda_memory: "cuda_memory sample_cuda"
  unfolding cuda_memory_def keeps_memory_def by (intro conjI) (auto simp: nth_append split: if_splits)

lemma sample_cuda_succeeds: "cuda_succeeds sample_cuda"
  by (simp add: cuda_succeeds_def sample_cuda_def)

end
