(* ===== verification/Cuda_Proof.thy ===== *)
theory Cuda_Proof
  imports Cuda_Runtime
begin

text \<open>
  \<open>cuda/fg_cuda_proof.cu\<close>: the demonstration on one device, scenario by scenario.  The calls of the
  library are those of the other theories, the CUDA runtime is the argument \<open>C\<close>.  What the program
  prints on its standard output is left out; what it prints on its error output is the reason for
  which it leaves.  Host memory is assumed to be available.
\<close>

section \<open>Data\<close>

definition proof_resource :: Resource where
  "proof_resource = default_resource\<lparr>res_id := TypedId 1, res_generation := Generation 1, res_pool := TypedId 1,
     res_device := TypedId 1, res_node := TypedId 1, res_domain := D_CUDA_DEVICE_MEMORY, res_capacity := 2048 * MIB,
     res_provenance := PV_DERIVED\<rparr>"

definition proof_snapshot :: "ResourceLayout \<Rightarrow> FragmentationSnapshot" where
  "proof_snapshot layout = default_snapshot\<lparr>snap_generation := Generation 1, snap_domain := D_CUDA_DEVICE_MEMORY,
     snap_provenance := PV_DERIVED, snap_epoch := Generation 1, snap_policy_generation := Generation 1,
     snap_generations := default_generations\<lparr>kg_resource := Generation 1, kg_allocation := Generation 1,
       kg_reservation := Generation 1, kg_topology := Generation 1, kg_capacity := Generation 1\<rparr>,
     snap_devices := [\<lparr>dev_resource = proof_resource, dev_layout = layout\<rparr>]\<rparr>"

definition proof_demand :: WorkloadDemand where
  "proof_demand = uniform_demand (512 * MIB)"

definition proof_policy :: Policy where
  "proof_policy = default_policy\<lparr>pol_generation := Generation 1\<rparr>"

definition proof_blocks :: "Allocation list" where
  "proof_blocks = (let U = 256 * MIB in
    [derived_allocation 1 1 1 0 U MV_IMMOVABLE, derived_allocation 2 1 2 (2 * U) U MV_IMMOVABLE,
     derived_allocation 3 1 3 (4 * U) U MV_IMMOVABLE, derived_allocation 4 1 4 (6 * U) U MV_IMMOVABLE,
     derived_allocation 5 1 5 (3 * U) (U div 4) MV_MOVABLE_AFTER_QUIESCE])"

definition release_blocks :: "Allocation list" where
  "release_blocks = (let U = 256 * MIB in
    [derived_allocation 11 1 21 0 U MV_RELEASEABLE, derived_allocation 12 1 22 (2 * U) U MV_RELEASEABLE,
     derived_allocation 13 1 23 (4 * U) U MV_RELEASEABLE, derived_allocation 14 1 24 (6 * U) U MV_RELEASEABLE])"

text \<open>\<open>for (const auto& b : blocks) if (!layout.insert_allocation(b, err)) { ...; return 1; }\<close>\<close>

definition insert_or_leave :: "string \<Rightarrow> Allocation list \<Rightarrow> Bytes \<Rightarrow> ('d, ResourceLayout) cuda_prog" where
  "insert_or_leave what blocks capacity =
    cu_bind (governor (insert_all blocks (mk_layout capacity))) (\<lambda>(err, layout).
      case err of None \<Rightarrow> cu_return layout | Some e \<Rightarrow> cu_bind (leave_if True 1 (what @ e)) (\<lambda>_. cu_return layout))"

section \<open>The scenarios\<close>

text \<open>Scenario A, lines 42 to 92: the three pointers are kept for scenario B.\<close>

definition scenario_a :: "'d cuda_runtime \<Rightarrow> ('d, nat \<times> nat \<times> nat) cuda_prog" where
  "scenario_a C =
    (let real_block = 256 * MIB in
     cu_bind (CUDA_CHECK (cudaMalloc C real_block)) (\<lambda>a0.
     cu_bind (CUDA_CHECK (cudaMalloc C real_block)) (\<lambda>a1.
     cu_bind (CUDA_CHECK (cudaMalloc C real_block)) (\<lambda>a2.
     cu_bind (insert_or_leave ''layout err: '' proof_blocks (res_capacity proof_resource)) (\<lambda>layout.
     cu_bind (governor (compute_metrics layout (Some proof_demand))) (\<lambda>m.
     let agg = (met_free_capacity m \<ge> dem_aggregate_memory proof_demand);
         cont = (met_largest_free_block m \<ge> dem_contiguous_memory proof_demand) in
     cu_bind (leave_if (\<not> (agg \<and> \<not> cont)) 1 ''A invariant failed'') (\<lambda>_.
     cu_bind (governor (analyze_fit (proof_snapshot layout) proof_demand)) (\<lambda>ar.
     cu_bind (leave_if (fr_outcome ar \<noteq> FO_NO_FIT_FRAGMENTATION) 1 ''A expected NO_FIT_FRAGMENTATION'') (\<lambda>_.
     cu_return (a0, a1, a2))))))))))"

text \<open>The device part of scenario B, lines 121 to 136.\<close>

definition run_target_kernel :: "'d cuda_runtime \<Rightarrow> nat \<Rightarrow> nat \<Rightarrow> ('d, unit) cuda_prog" where
  "run_target_kernel C a0 a1 =
    (let n = words_of (512 * MIB); hi = map (\<lambda>i. f_of_int (int i)) [0 ..< n] in
     cu_bind (CUDA_CHECK (cudaMalloc C (512 * MIB))) (\<lambda>target.
     cu_bind (CUDA_CHECK (cudaMemcpyHostToDevice C target hi)) (\<lambda>_.
     cu_bind (CUDA_CHECK (cudaMalloc C (512 * MIB))) (\<lambda>ko.
     cu_bind (CUDA_CHECK (launch_add_one C ko target (int n))) (\<lambda>_.
     cu_bind (CUDA_CHECK (cudaDeviceSynchronize C)) (\<lambda>_.
     cu_bind (CUDA_CHECK (cudaMemcpyDeviceToHost C ko n)) (\<lambda>ho.
     cu_bind (CUDA_CHECK (cudaFree C target)) (\<lambda>_.
     cu_bind (CUDA_CHECK (cudaFree C ko)) (\<lambda>_.
     cu_bind (CUDA_CHECK (cudaFree C a0)) (\<lambda>_.
     cu_bind (CUDA_CHECK (cudaFree C a1)) (\<lambda>_.
     leave_if (\<not> parity ho (map add_one hi)) 1 ''B parity failed'')))))))))))"

text \<open>Scenario B; its snapshot is used again by scenario E.\<close>

definition scenario_b :: "'d cuda_runtime \<Rightarrow> nat \<times> nat \<times> nat \<Rightarrow> ('d, FragmentationSnapshot) cuda_prog" where
  "scenario_b C ptrs =
    (case ptrs of (a0, a1, a2) \<Rightarrow>
     cu_bind (insert_or_leave ''B layout err: '' release_blocks (res_capacity proof_resource)) (\<lambda>blayout.
     let bsnap = proof_snapshot blayout in
     cu_bind (governor (plan_remediation bsnap proof_demand proof_policy default_weights (TypedId 10) (Generation 1))) (\<lambda>plan.
     cu_bind (leave_if (plan = None) 1 ''B no plan'') (\<lambda>_.
     cu_bind (CUDA_CHECK (cudaFree C a2)) (\<lambda>_.
     cu_bind (governor (remove_allocation blayout (TypedId 11))) (\<lambda>(_, blayout').
     cu_bind (governor (compute_metrics blayout' (Some proof_demand))) (\<lambda>m3.
     cu_bind (leave_if (\<not> met_workload_fits m3) 1 ''B did not fit'') (\<lambda>_.
     cu_bind (run_target_kernel C a0 a1) (\<lambda>_.
     cu_return bsnap)))))))))"

text \<open>Scenario C: state is copied from one device buffer to another.\<close>

definition scenario_c :: "'d cuda_runtime \<Rightarrow> ('d, unit) cuda_prog" where
  "scenario_c C =
    (let csize = 128 * MIB; hp = map (\<lambda>i. f_of_int (int i mod 1000)) [0 ..< words_of csize] in
     cu_bind (CUDA_CHECK (cudaMalloc C csize)) (\<lambda>srcA.
     cu_bind (CUDA_CHECK (cudaMalloc C csize)) (\<lambda>dstB.
     cu_bind (CUDA_CHECK (cudaMemcpyHostToDevice C srcA hp)) (\<lambda>_.
     cu_bind (CUDA_CHECK (cudaMemcpyDeviceToDevice C dstB srcA (words_of csize))) (\<lambda>_.
     cu_bind (CUDA_CHECK (cudaMemcpyDeviceToHost C dstB (words_of csize))) (\<lambda>hp'.
     cu_bind (CUDA_CHECK (cudaFree C srcA)) (\<lambda>_.
     cu_bind (CUDA_CHECK (cudaFree C dstB)) (\<lambda>_.
     leave_if (\<not> parity hp' hp) 1 ''C parity failed''))))))))"

definition protected_blocks :: "Allocation list" where
  "protected_blocks =
    [(derived_allocation 20 1 50 0 (600 * MIB) MV_RESERVATION_PROTECTED)\<lparr>al_reservation := Some (TypedId 7)\<rparr>,
     derived_allocation 21 1 60 (600 * MIB) (200 * MIB) MV_RELEASEABLE]"

definition protected_demand :: WorkloadDemand where
  "protected_demand = (uniform_demand (500 * MIB))\<lparr>dem_id := TypedId 9\<rparr>"

definition scenario_d :: "('d, unit) cuda_prog" where
  "scenario_d =
    cu_bind (governor (insert_each protected_blocks (mk_layout (1024 * MIB)))) (\<lambda>playout.
    cu_bind (governor (plan_remediation (proof_snapshot playout) protected_demand proof_policy default_weights
        (TypedId 30) (Generation 1))) (\<lambda>pplan.
    leave_if (case pplan of None \<Rightarrow> False
      | Some p \<Rightarrow> list_ex (\<lambda>act. act_source_allocation act = Some (TypedId 20)) (plan_actions p)) 1 ''D violated protection''))"

definition scenario_e :: "FragmentationSnapshot \<Rightarrow> ('d, unit) cuda_prog" where
  "scenario_e bsnap =
    cu_bind (governor (plan_remediation bsnap proof_demand proof_policy default_weights (TypedId 40) (Generation 1))) (\<lambda>eplan.
    case eplan of
      None \<Rightarrow> leave_if True 1 ''E no plan''
    | Some p \<Rightarrow> leave_if (plan_policy_generation p = Generation 2) 1 ''E stale plan not rejected'')"

definition restart_state :: PersistedState where
  "restart_state = default_persisted_state\<lparr>ps_resource_generation := Generation 2, ps_allocation_generation := Generation 2,
     ps_reservation_generation := Generation 1, ps_policy_generation := Generation 1, ps_epoch := Generation 1,
     ps_next_plan_id := 41,
     ps_plans := [\<lparr>pp_id = TypedId 40, pp_generation = Generation 1, pp_domain = TypedId 1, pp_state = PS_APPROVED,
       pp_verification = None, pp_policy_generation = Generation 1, pp_epoch = Generation 1,
       pp_based_on_snapshot = Generation 1, pp_expected_capacity_recovered = 256 * MIB, pp_benefit = d_lit (5 / 10),
       pp_cost = d_lit (2 / 10), pp_risk = d_lit (1 / 10), pp_disruption = d_lit (1 / 10), pp_action_count = 1,
       pp_action_kinds = [AK_RELEASE_UNUSED]\<rparr>]\<rparr>"

definition scenario_g :: "('d, unit) cuda_prog" where
  "scenario_g =
    (let enc = encode_state restart_state;
         bytes = (case enc of Inl _ \<Rightarrow> [] | Inr bs \<Rightarrow> bs);
         dec = decode_state bytes in
     cu_bind (leave_if (isl enc \<or> isl dec) 1 ''G persistence failed'') (\<lambda>_.
     cu_bind (governor (recover (case dec of Inl _ \<Rightarrow> default_persisted_state | Inr st \<Rightarrow> st) (mk_Coordinator (Generation 2)))) (\<lambda>coord.
     cu_bind (governor (case om_find (co_plans coord) (TypedId 40) of None \<Rightarrow> throw ''map::at'' | Some p \<Rightarrow> Inr (plan_state p))) (\<lambda>st.
     leave_if (st = PS_APPROVED) 1 ''G recovered plan as current''))))"

section \<open>The program\<close>

definition fg_cuda_proof_main :: "'d cuda_runtime \<Rightarrow> ('d, int) cuda_prog" where
  "fg_cuda_proof_main C =
    cu_bind (\<lambda>d. case cudaSetDevice C d of (ok, _, d') \<Rightarrow> leave_if (\<not> ok) 2 ''no CUDA device'' d') (\<lambda>_.
    cu_bind (CUDA_CHECK (cudaDeviceMajor C)) (\<lambda>major.
    cu_bind (leave_if (major < 12) 3 ''requires sm_120 (RTX 5090)'') (\<lambda>_.
    cu_bind (CUDA_CHECK (cudaMemGetInfo C)) (\<lambda>free_b0.
    cu_bind (scenario_a C) (\<lambda>ptrs.
    cu_bind (scenario_b C ptrs) (\<lambda>bsnap.
    cu_bind (scenario_c C) (\<lambda>_.
    cu_bind scenario_d (\<lambda>_.
    cu_bind (scenario_e bsnap) (\<lambda>_.
    cu_bind scenario_g (\<lambda>_.
    cu_bind (CUDA_CHECK (cudaMemGetInfo C)) (\<lambda>free_after.
    cu_bind (leave_if (free_after < free_b0) 1 ''device memory not returned to baseline'') (\<lambda>_.
    cu_return 0))))))))))))"

section \<open>The governor in the scenarios\<close>

lemma proof_snapshot_fields [simp]:
  "snap_devices (proof_snapshot l) = [\<lparr>dev_resource = proof_resource, dev_layout = l\<rparr>]" "snap_reservations (proof_snapshot l) = []"
  "generations_complete (snap_generations (proof_snapshot l))" "snap_provenance (proof_snapshot l) \<noteq> PV_UNKNOWN"
  "snap_policy_generation (proof_snapshot l) = Generation 1"
  by (simp_all add: proof_snapshot_def default_snapshot_def generations_complete_def gen_is_valid_def)

lemma proof_sizes: "2048 * MIB = 0x80000000" "512 * MIB = 0x20000000" "256 * MIB = 0x10000000"
  by (simp_all add: MIB_def)

lemma proof_layout:
  assumes "placeable 0x80000000 as"
  obtains l where "insert_all as (mk_layout (res_capacity proof_resource)) = Inr (None, l)" "layout_inv l"
    "lay_capacity l = 0x80000000" "set (lay_allocations l) = registry as"
  using build_layout [of "0x80000000" as] assms by (auto simp: proof_resource_def proof_sizes)

text \<open>Scenario A: the free bytes suffice, no run of them does, and releasing the movable block does not help.\<close>

lemma proof_blocks_comb:
  "comb (butlast proof_blocks)" "proof_blocks = butlast proof_blocks @ [last proof_blocks]" "0x20000000 \<le> unat (al_offset (last proof_blocks))"
  "\<forall>a \<in> set (butlast proof_blocks). is_protected a" "\<not> is_protected (last proof_blocks)"
  by (simp_all add: proof_blocks_def comb_def derived_allocation_def is_protected_def Let_def MIB_def)

lemma proof_blocks_placeable: "placeable 0x80000000 proof_blocks"
  by (simp add: proof_blocks_def placeable_def apart_def derived_allocation_def Let_def MIB_def)

lemma fragmented_layout:
  obtains l where "insert_all proof_blocks (mk_layout (res_capacity proof_resource)) = Inr (None, l)" "layout_inv l"
    "0x20000000 \<le> free_capacity l" "largest_free_block l = 0x10000000"
    "\<exists>r. analyze_fit (proof_snapshot l) proof_demand = Inr r \<and> fr_outcome r = FO_NO_FIT_FRAGMENTATION"
proof -
  let ?comb = "butlast proof_blocks"
  obtain l where l: "insert_all proof_blocks (mk_layout (res_capacity proof_resource)) = Inr (None, l)" "layout_inv l"
    "lay_capacity l = 0x80000000" "set (lay_allocations l) = registry proof_blocks"
    by (rule proof_layout [OF proof_blocks_placeable])
  have sub: "set ?comb \<subseteq> set proof_blocks" "set proof_blocks \<subseteq> insert (last proof_blocks) (set ?comb)"
    using arg_cong [OF proof_blocks_comb(2), of set] by auto
  have large: "largest_free_block l = 0x10000000"
    by (rule comb_largest [OF l(2-4) proof_blocks_comb(1) sub proof_blocks_comb(3)])
  have "sum_list (map (\<lambda>a. unat (al_length a)) proof_blocks) = 0x44000000"
    by (simp add: proof_blocks_def derived_allocation_def Let_def MIB_def)
  then have "unat (free_capacity l) = 0x3C000000"
    using built_free_capacity [OF l(2) _ l(4)] proof_blocks_placeable l(3) by simp
  then have free: "0x20000000 \<le> free_capacity l" by (simp add: word_le_nat_alt)
  note bytes = built_bytes [OF l(4), unfolded l(3)]
  have "{a \<in> set proof_blocks. is_protected a} = set ?comb"
    using proof_blocks_comb(4,5) arg_cong [OF proof_blocks_comb(2), of set] by auto
  then have "\<not> {s ..< s + unat (0x20000000 :: u64)} \<subseteq> reclaim_free_bytes l" for s
    using comb_no_run [OF proof_blocks_comb(1) order_refl, of "0x20000000" s] by (simp add: bytes(2))
  moreover have "\<not> {s ..< s + unat (0x20000000 :: u64)} \<subseteq> free_bytes l" for s
    using comb_no_run [OF proof_blocks_comb(1) UN_mono [OF sub(1) order_refl], of "0x20000000" s] by (simp add: bytes(1))
  moreover have "\<not> (\<forall>e \<in> set (lay_allocations l). is_protected (snd e))"
    using proof_blocks_comb(5) by (auto simp: l(4) registry_def proof_blocks_def Let_def)
  moreover obtain r where "analyze_fit (proof_snapshot l) (uniform_demand 0x20000000) = Inr r"
    "fr_outcome r = (if \<exists>s. {s ..< s + unat (0x20000000 :: u64)} \<subseteq> free_bytes l then FO_FIT_NOW
       else if \<exists>s. {s ..< s + unat (0x20000000 :: u64)} \<subseteq> reclaim_free_bytes l then FO_FIT_AFTER_RECLAIM
       else if \<forall>e \<in> set (lay_allocations l). is_protected (snd e) then FO_NO_FIT_PROTECTED_STATE else FO_NO_FIT_FRAGMENTATION)"
    by (rule single_fit [OF proof_snapshot_fields(1) _ proof_snapshot_fields(2-4), of l "0x20000000"])
      (use l(2) free in simp_all)
  ultimately have "\<exists>r. analyze_fit (proof_snapshot l) proof_demand = Inr r \<and> fr_outcome r = FO_NO_FIT_FRAGMENTATION"
    unfolding proof_demand_def proof_sizes by (intro exI [of _ r]) auto
  with l(1,2) free large show thesis by (rule that)
qed

text \<open>Scenarios B and E: every block can be released, so there is a plan, and one release is enough.\<close>

lemma release_blocks_comb: "comb release_blocks" "\<forall>a \<in> set release_blocks. \<not> is_protected a" "registry release_blocks \<noteq> {}"
  "(TypedId 11, hd release_blocks) \<in> registry release_blocks" "al_offset (hd release_blocks) = 0" "al_length (hd release_blocks) = 0x10000000"
  by (simp_all add: release_blocks_def comb_def derived_allocation_def is_protected_def Let_def MIB_def)

lemma release_layout:
  obtains l where "insert_all release_blocks (mk_layout (res_capacity proof_resource)) = Inr (None, l)" "layout_inv l"
    "\<And>pid pg. \<exists>p. plan_remediation (proof_snapshot l) proof_demand proof_policy default_weights pid pg = Inr (Some p)"
    "\<exists>l'. remove_allocation l (TypedId 11) = Inr (None, l') \<and> layout_inv l' \<and> 0x20000000 \<le> largest_free_block l'"
proof -
  obtain l where l: "insert_all release_blocks (mk_layout (res_capacity proof_resource)) = Inr (None, l)" "layout_inv l"
    "lay_capacity l = 0x80000000" "set (lay_allocations l) = registry release_blocks"
    by (rule proof_layout [OF comb_placeable [OF release_blocks_comb(1)]])
  note bytes = built_bytes [OF l(4), unfolded l(3)]
  have none: "{a \<in> set release_blocks. is_protected a} = {}" using release_blocks_comb(2) by blast
  have "{0 ..< 0 + unat (0x20000000 :: u64)} \<subseteq> reclaim_free_bytes l" unfolding bytes(2) none by auto
  then have "demand_fits reclaim_free_bytes (proof_snapshot l) proof_demand"
    unfolding proof_demand_def proof_sizes by (subst single_demand_fits [OF proof_snapshot_fields(1)]) (simp, rule exI [of _ 0], simp)
  moreover have "\<not> demand_fits free_bytes (proof_snapshot l) proof_demand"
    using comb_no_run [OF release_blocks_comb(1) order_refl, of "0x20000000"]
    unfolding proof_demand_def proof_sizes by (subst single_demand_fits [OF proof_snapshot_fields(1)]) (simp_all add: bytes(1))
  moreover have "length (lay_allocations l) \<le> 2 ^ 46"
    using built_length [OF l(2) comb_placeable [OF release_blocks_comb(1)] l(4)] by (simp add: release_blocks_def Let_def)
  then have "planner_input_ok (proof_snapshot l) default_weights"
    using l(2) by (intro single_planner_input [OF proof_snapshot_fields(1)]) simp_all
  ultimately have plan: "\<exists>p. plan_remediation (proof_snapshot l) proof_demand proof_policy default_weights pid pg = Inr (Some p)" for pid pg
    using planner_total [of "proof_snapshot l" default_weights proof_demand proof_policy pid pg] by auto
  have "om_find (lay_allocations l) (TypedId 11) = Some (hd release_blocks)"
    using release_blocks_comb(4) l(4) om_find_in_set [OF layout_inv_allocations [OF l(2)]] by simp
  then obtain l' where l': "remove_allocation l (TypedId 11) = Inr (None, l')" "layout_inv l'" "lay_capacity l' = lay_capacity l"
    "lay_allocations l' = om_erase (TypedId 11) (lay_allocations l)"
    using remove_allocation_contract [OF l(2)] by blast
  have "set (lay_allocations l') = registry (tl release_blocks)"
    unfolding l'(4) by (auto simp: om_erase_def l(4) release_blocks_def Let_def derived_allocation_def)
  then have "free_bytes l' = {0 ..< 0x80000000} - (\<Union>a \<in> set (tl release_blocks). alloc_bytes a)"
    using built_bytes(1) l'(3) l(3) by simp
  then have "{0 ..< 0 + 0x20000000} \<subseteq> free_bytes l'" using comb_head [OF release_blocks_comb(1) order_refl] by simp
  then have "0x20000000 \<le> unat (largest_free_block l')" unfolding longest_run_iff [OF l'(2), symmetric] by blast
  then have "0x20000000 \<le> largest_free_block l'" by (simp add: word_le_nat_alt)
  with l' have "\<exists>l'. remove_allocation l (TypedId 11) = Inr (None, l') \<and> layout_inv l' \<and> 0x20000000 \<le> largest_free_block l'" by blast
  with l(1,2) plan show thesis by (rule that)
qed

text \<open>Scenario D: a plan never names the allocation under a reservation.\<close>

lemma protected_layout:
  obtains l where "insert_each protected_blocks (mk_layout (1024 * MIB)) = Inr l"
    "\<exists>r. plan_remediation (proof_snapshot l) protected_demand proof_policy default_weights (TypedId 30) (Generation 1) = Inr r \<and>
       (\<forall>p. r = Some p \<longrightarrow> (\<forall>act \<in> set (plan_actions p). act_source_allocation act \<noteq> Some (TypedId 20)))"
proof -
  have place: "placeable (unat (1024 * MIB)) protected_blocks"
    by (simp add: protected_blocks_def placeable_def apart_def derived_allocation_def MIB_def)
  obtain l where l: "insert_each protected_blocks (mk_layout (1024 * MIB)) = Inr l" "layout_inv l"
    "set (lay_allocations l) = registry protected_blocks"
    by (rule build_layout [OF place])
  let ?sn = "proof_snapshot l"
  have "length (lay_allocations l) \<le> 2 ^ 46" using built_length [OF l(2) place l(3)] by (simp add: protected_blocks_def)
  then have input: "planner_input_ok ?sn default_weights"
    using l(2) by (intro single_planner_input [OF proof_snapshot_fields(1)]) simp_all
  then obtain r where r: "plan_remediation ?sn protected_demand proof_policy default_weights (TypedId 30) (Generation 1) = Inr r"
    using planner_total by blast
  have "act_source_allocation act \<noteq> Some (TypedId 20)" if p: "r = Some p" "act \<in> set (plan_actions p)" for p act
  proof
    assume source: "act_source_allocation act = Some (TypedId 20)"
    obtain ks where ks: "list_all2 (action_for ?sn) ks (plan_actions p)" "set ks \<subseteq> reclaim_keys ?sn"
      using plan_keys [OF input] r p(1) by blast
    obtain n where n: "n < length (plan_actions p)" "plan_actions p ! n = act" using p(2) by (auto simp: in_set_conv_nth)
    obtain i a where ia: "ks ! n = (i, a)" by (cases "ks ! n")
    have key: "action_for ?sn (i, a) act" "(i, a) \<in> reclaim_keys ?sn"
      using list_all2_nthD2 [OF ks(1) n(1)] n ia ks(2) list_all2_lengthD [OF ks(1)] nth_mem [of n ks] by auto
    then have "a = TypedId 20" "i = 0" using source reclaim_keys_found(1) [OF key(2)] by (simp_all add: action_for_def)
    moreover have "(TypedId 20, hd protected_blocks) \<in> set (lay_allocations l)" "is_protected (hd protected_blocks)"
      by (simp_all add: l(3) protected_blocks_def derived_allocation_def is_protected_def)
    moreover have "devices_ok ?sn" using input by (simp add: planner_input_ok_def)
    ultimately show False
      using reclaim_keys_member [of ?sn 0 "(TypedId 20, hd protected_blocks)"] key(2) by simp
  qed
  with l(1) r show thesis by (intro that) auto
qed

text \<open>Scenario G: the state survives the round trip, and the approved plan comes back degraded.\<close>

lemma restart_recovers:
  obtains bs coord p where "encode_state restart_state = Inr bs" "decode_state bs = Inr (recovered_state restart_state)"
    "recover (recovered_state restart_state) (mk_Coordinator (Generation 2)) = Inr coord"
    "om_find (co_plans coord) (TypedId 40) = Some p" "plan_state p = PS_REVALIDATION_REQUIRED"
proof -
  have unit: "unit_double (d_lit (5 / 10))" "unit_double (d_lit (2 / 10))" "unit_double (d_lit (1 / 10))"
    by (simp_all add: unit_double_lit_range)
  then have fin: "scores_finite pp" if "pp \<in> set (ps_plans restart_state)" for pp
    using that by (simp add: restart_state_def scores_finite_def unit_double_def)
  have enc: "encode_state restart_state = Inr (encode_bytes restart_state)"
    unfolding encode_state_ok using fin by (auto simp: restart_state_def default_persisted_state_def)
  have "state_valid restart_state" "counts_ok restart_state"
    using fin by (auto simp: state_valid_def counts_ok_def restart_state_def default_persisted_state_def)
  then have dec: "decode_state (encode_bytes restart_state) = Inr (recovered_state restart_state)" by (intro decode_encode_bytes)
  define pp where "pp = degrade_plan (stored_plan (hd (ps_plans restart_state)))"
  have pp: "ps_plans (recovered_state restart_state) = [pp]" "pp_id pp = TypedId 40" "pp_state pp = PS_REVALIDATION_REQUIRED"
    "pp_benefit pp = d_lit (5 / 10)" "pp_cost pp = d_lit (2 / 10)" "pp_risk pp = d_lit (1 / 10)" "pp_disruption pp = d_lit (1 / 10)"
    by (simp_all add: recovered_state_def stored_state_def restart_state_def default_persisted_state_def degrade_plan_def stored_plan_def pp_def)
  have score: "unit_double v \<Longrightarrow> mk_HealthyScore v = Inr v" for v by (simp add: mk_HealthyScore_iff)
  have "\<exists>p. recover_plan pp = Inr p \<and> plan_id p = TypedId 40 \<and> plan_state p = PS_REVALIDATION_REQUIRED"
    unfolding recover_plan_def pp(2-) score [OF unit(1)] score [OF unit(2)] score [OF unit(3)] by (simp add: Let_def)
  then obtain p where p: "recover_plan pp = Inr p" "plan_id p = TypedId 40" "plan_state p = PS_REVALIDATION_REQUIRED" by blast
  have "\<exists>coord. recover (recovered_state restart_state) (mk_Coordinator (Generation 2)) = Inr coord \<and> co_plans coord = [(TypedId 40, p)]"
    by (simp add: recover_def Let_def pp(1) p(1,2) mk_Coordinator_def om_put_def)
  then show thesis using that [OF enc dec] p(3) by fastforce
qed

section \<open>The scenarios pass\<close>

lemma ensures_insert:
  assumes "insert_all blocks (mk_layout cap) = Inr (None, l)" and "P l d"
  shows "ensures A (insert_or_leave what blocks cap) d P"
  using assms unfolding insert_or_leave_def by (intro ensures_bind ensures_governor [OF assms(1)]) (simp add: ensures_return)

lemma scenario_a_passes:
  assumes ok: "calls_ok A C"
  shows "ensures A (scenario_a C) d (\<lambda>_ _. True)"
proof -
  obtain l where l: "insert_all proof_blocks (mk_layout (res_capacity proof_resource)) = Inr (None, l)" "layout_inv l"
    "0x20000000 \<le> free_capacity l" "largest_free_block l = 0x10000000"
    "\<exists>r. analyze_fit (proof_snapshot l) proof_demand = Inr r \<and> fr_outcome r = FO_NO_FIT_FRAGMENTATION"
    by (rule fragmented_layout)
  then obtain r where r: "analyze_fit (proof_snapshot l) proof_demand = Inr r" "fr_outcome r = FO_NO_FIT_FRAGMENTATION" by blast
  obtain m where m: "compute_metrics l (Some proof_demand) = Inr m" "met_free_capacity m = free_capacity l"
    "met_largest_free_block m = largest_free_block l" by (rule workload_metrics [OF l(2)])
  have "\<not> \<not> (dem_aggregate_memory proof_demand \<le> met_free_capacity m \<and> \<not> dem_contiguous_memory proof_demand \<le> met_largest_free_block m)"
    using l(3,4) by (simp add: m(2,3) proof_demand_def proof_sizes)
  then show ?thesis
    unfolding scenario_a_def Let_def
    by (intro ensures_bind ensures_malloc [OF ok] ensures_insert [OF l(1)] ensures_governor [OF m(1)]
        ensures_governor [OF r(1)] ensures_leave_if ensures_return) (use r(2) in blast)+
qed

lemma run_target_kernel_passes:
  assumes ok: "calls_ok A C"
  shows "ensures A (run_target_kernel C a0 a1) d (\<lambda>_ _. True)"
proof -
  define n where "n = words_of (512 * MIB)"
  define hi where "hi = map (\<lambda>i. f_of_int (int i)) [0 ..< n]"
  have n: "n = unat (512 * MIB div 4)" "n \<le> 2 ^ 30" "length hi = n" by (simp_all add: n_def hi_def words_of_def MIB_def)
  have par: "parity (map add_one hi) (map add_one hi)" by (rule parity_same) (simp add: add_one_same)
  show ?thesis
    unfolding run_target_kernel_def Let_def n_def [symmetric] hi_def [symmetric]
    apply (rule ensures_bind, rule ensures_malloc [OF ok])
    subgoal premises t for target ws d1
      apply (rule ensures_bind, rule ensures_upload [OF ok t(2)])
      subgoal using t(3) n by simp
      subgoal premises u for d2
        apply (rule ensures_bind, rule ensures_malloc [OF ok])
        subgoal premises k for ko ks d3
          apply (rule ensures_bind, rule ensures_launch [OF ok _ k(2), where xs = hi])
          subgoal using keeps_memoryD [OF k(4) u(1)] k(1) u(1) by (cases "target = ko") simp_all
          subgoal using k(3) n by simp
          subgoal using n by simp
          subgoal using n by simp
          subgoal premises l for d4
            apply (rule ensures_bind, rule ensures_synchronize [OF ok])
            subgoal premises s for d5
              apply (rule ensures_bind, rule ensures_download [OF ok keeps_memoryD [OF s l(1)]])
              subgoal by simp
              subgoal using n by simp
              subgoal by (intro ensures_bind ensures_free [OF ok] ensures_leave_if) (use par in simp_all)
              done
            done
          done
        done
      done
    done
qed

lemma scenario_b_passes:
  assumes ok: "calls_ok A C"
  shows "ensures A (scenario_b C ptrs) d (\<lambda>bsnap _. \<forall>pid pg. \<exists>p.
    plan_remediation bsnap proof_demand proof_policy default_weights pid pg = Inr (Some p) \<and> plan_policy_generation p = Generation 1)"
proof -
  obtain a0 a1 a2 where ptrs: "ptrs = (a0, a1, a2)" by (cases ptrs)
  obtain l l' where l: "insert_all release_blocks (mk_layout (res_capacity proof_resource)) = Inr (None, l)" "layout_inv l"
    "\<And>pid pg. \<exists>p. plan_remediation (proof_snapshot l) proof_demand proof_policy default_weights pid pg = Inr (Some p)"
    "remove_allocation l (TypedId 11) = Inr (None, l')" "layout_inv l'" "0x20000000 \<le> largest_free_block l'"
    using release_layout by metis
  obtain p where p: "plan_remediation (proof_snapshot l) proof_demand proof_policy default_weights (TypedId 10) (Generation 1) = Inr (Some p)"
    using l(3) by blast
  obtain m where m: "compute_metrics l' (Some proof_demand) = Inr m" "met_workload_fits m \<longleftrightarrow> dem_aggregate_memory proof_demand \<le> free_capacity l' \<and>
       (dem_contiguous_memory proof_demand > 0 \<longrightarrow> dem_contiguous_memory proof_demand \<le> largest_free_block l')"
    by (rule workload_metrics [OF l(5)])
  have fits: "met_workload_fits m"
    using l(6) order_trans [OF l(6) largest_le_free [OF l(5)]] by (simp add: m(2) proof_demand_def proof_sizes)
  have plans: "\<forall>pid pg. \<exists>p. plan_remediation (proof_snapshot l) proof_demand proof_policy default_weights pid pg = Inr (Some p) \<and>
      plan_policy_generation p = Generation 1"
    using l(3) plan_remediation_fields(4) by (metis proof_snapshot_fields(5))
  show ?thesis
    unfolding scenario_b_def ptrs prod.case Let_def
    apply (rule ensures_bind, rule ensures_insert [OF l(1)])
    apply (rule ensures_bind, rule ensures_governor [OF p])
    apply (rule ensures_bind, rule ensures_leave_if, simp)
    apply (rule ensures_bind, rule ensures_free [OF ok])
    apply (rule ensures_bind, rule ensures_governor [OF l(4)], unfold prod.case)
    apply (rule ensures_bind, rule ensures_governor [OF m(1)])
    apply (rule ensures_bind, rule ensures_leave_if, simp add: fits)
    apply (rule ensures_bind, rule ensures_mono [OF run_target_kernel_passes [OF ok]])
    apply (rule ensures_return, rule plans)
    done
qed

lemma scenario_c_passes:
  assumes ok: "calls_ok A C"
  shows "ensures A (scenario_c C) d (\<lambda>_ _. True)"
proof -
  define n where "n = words_of (128 * MIB)"
  define hp where "hp = map (\<lambda>i. f_of_int (int i mod 1000)) [0 ..< n]"
  have n: "n = unat (128 * MIB div 4)" "length hp = n" by (simp_all add: n_def hp_def words_of_def)
  have par: "parity hp hp" by (rule parity_same) (auto simp: hp_def add_one_same)
  show ?thesis
    unfolding scenario_c_def Let_def n_def [symmetric] hp_def [symmetric]
    apply (rule ensures_bind, rule ensures_malloc [OF ok])
    subgoal premises a for srcA ws d1
      apply (rule ensures_bind, rule ensures_malloc [OF ok])
      subgoal premises b for dstB ws' d2
        apply (rule ensures_bind, rule ensures_upload [OF ok keeps_memoryD [OF b(4) a(2)]])
        subgoal using a(2) b(1) by auto
        subgoal using a(3) n by simp
        subgoal premises u for d3
          apply (rule ensures_bind, rule ensures_relocate [OF ok u(1) keeps_memoryD [OF u(2) b(2)]])
          subgoal using a(2) b(1) by auto
          subgoal using b(3) n by simp
          subgoal using n by simp
          subgoal premises r for d4
            apply (rule ensures_bind, rule ensures_download [OF ok r(1)])
            subgoal using n by simp
            subgoal by (intro ensures_bind ensures_free [OF ok] ensures_leave_if) (use par in simp_all)
            done
          done
        done
      done
    done
qed

lemma scenario_d_passes: "ensures A scenario_d d (\<lambda>_ _. True)"
proof -
  obtain l r where l: "insert_each protected_blocks (mk_layout (1024 * MIB)) = Inr l"
    "plan_remediation (proof_snapshot l) protected_demand proof_policy default_weights (TypedId 30) (Generation 1) = Inr r"
    "\<forall>p. r = Some p \<longrightarrow> (\<forall>act \<in> set (plan_actions p). act_source_allocation act \<noteq> Some (TypedId 20))"
    using protected_layout by metis
  show ?thesis
    unfolding scenario_d_def
    by (intro ensures_bind ensures_governor [OF l(1)] ensures_governor [OF l(2)] ensures_leave_if)
      (use l(3) in \<open>auto simp: list_ex_iff split: option.splits\<close>)
qed

lemma scenario_e_passes:
  assumes "\<forall>pid pg. \<exists>p. plan_remediation bsnap proof_demand proof_policy default_weights pid pg = Inr (Some p) \<and> plan_policy_generation p = Generation 1"
  shows "ensures A (scenario_e bsnap) d (\<lambda>_ _. True)"
proof -
  obtain p where p: "plan_remediation bsnap proof_demand proof_policy default_weights (TypedId 40) (Generation 1) = Inr (Some p)"
    "plan_policy_generation p = Generation 1" using assms by blast
  show ?thesis
    unfolding scenario_e_def by (rule ensures_bind, rule ensures_governor [OF p(1)]) (simp add: p(2) ensures_leave_if)
qed

lemma scenario_g_passes: "ensures A scenario_g d (\<lambda>_ _. True)"
proof -
  obtain bs coord p where g: "encode_state restart_state = Inr bs" "decode_state bs = Inr (recovered_state restart_state)"
    "recover (recovered_state restart_state) (mk_Coordinator (Generation 2)) = Inr coord"
    "om_find (co_plans coord) (TypedId 40) = Some p" "plan_state p = PS_REVALIDATION_REQUIRED"
    by (rule restart_recovers)
  show ?thesis
    unfolding scenario_g_def Let_def g(1) sum.case g(2)
    by (intro ensures_bind ensures_leave_if ensures_governor [OF g(3)] ensures_governor [where x = PS_REVALIDATION_REQUIRED])
      (simp_all add: g(4,5))
qed

definition host_reasons :: "string set" where
  "host_reasons = {''no CUDA device'', ''requires sm_120 (RTX 5090)'', ''CUDA error'', ''device memory not returned to baseline''}"

lemma cuda_proof_ensures:
  assumes C: "cuda_memory C" and A: "A = host_reasons \<or> cuda_succeeds C"
  shows "ensures A (fg_cuda_proof_main C) d (\<lambda>code _. code = 0)"
proof -
  have ok: "calls_ok A C" using C A by (auto simp: calls_ok_def host_reasons_def)
  have set: "ensures A (\<lambda>d. case cudaSetDevice C d of (ok, _, d') \<Rightarrow> leave_if (\<not> ok) 2 ''no CUDA device'' d') d Q"
    if "\<And>d'. Q () d'" for d Q
    using A that by (auto simp: ensures_def leave_if_def host_reasons_def cuda_succeeds_def split: prod.split)
      (metis fst_conv)
  have major: "ensures A (CUDA_CHECK (cudaDeviceMajor C)) d (\<lambda>v d'. Q v d')"
    if "\<And>v d'. A = host_reasons \<or> 12 \<le> v \<Longrightarrow> Q v d'" for d Q
    by (rule ensures_check) (use A that in \<open>auto simp: host_reasons_def cuda_succeeds_def, (metis fst_conv prod.inject)+\<close>)
  define v0 where "v0 = (SOME v. \<forall>d. \<exists>d'. cudaMemGetInfo C d = (True, v, d'))"
  have info: "\<exists>d'. cudaMemGetInfo C d = (True, v0, d')" if "cuda_succeeds C" for d
    using that someI_ex [of "\<lambda>v. \<forall>d. \<exists>d'. cudaMemGetInfo C d = (True, v, d')"] by (auto simp: cuda_succeeds_def v0_def)
  have mem: "ensures A (CUDA_CHECK (cudaMemGetInfo C)) d (\<lambda>v d'. Q v d')"
    if "\<And>v d'. A = host_reasons \<or> v = v0 \<Longrightarrow> Q v d'" for d Q
    by (rule ensures_check) (use A that info [of d] in \<open>auto simp: host_reasons_def\<close>)
  show ?thesis
    unfolding fg_cuda_proof_main_def
    apply (rule ensures_bind, rule set)
    apply (rule ensures_bind, rule major)
    apply (rule ensures_bind, rule ensures_leave_if)
    subgoal by (auto simp: host_reasons_def)
    apply (rule ensures_bind, rule mem)
    apply (rule ensures_bind, rule ensures_mono [OF scenario_a_passes [OF ok]])
    apply (rule ensures_bind, rule ensures_mono [OF scenario_b_passes [OF ok]])
    apply (rule ensures_bind, rule ensures_mono [OF scenario_c_passes [OF ok]])
    apply (rule ensures_bind, rule ensures_mono [OF scenario_d_passes])
    apply (rule ensures_bind, rule ensures_mono [OF scenario_e_passes], assumption)
    apply (rule ensures_bind, rule ensures_mono [OF scenario_g_passes])
    apply (rule ensures_bind, rule mem)
    apply (rule ensures_bind, rule ensures_leave_if)
    subgoal by (auto simp: host_reasons_def)
    apply (rule ensures_return, rule refl)
    done
qed



end
