(* ===== verification/Cuda_Worker.thy ===== *)
theory Cuda_Worker
  imports Cuda_Runtime
begin

text \<open>
  \<open>cuda/fg_cuda_worker.cu\<close>: the worker process that owns memory of a real device.  It allocates four
  blocks, runs the kernel once and compares its result with the host's, and publishes the layout that
  the four blocks stand for.  The words that \<open>cudaMemcpy\<close> leaves in the host buffer are its result,
  also when it fails, because the program does not look at its status.
\<close>

section \<open>The worker\<close>

definition run_kernel_and_parity :: "'d cuda_runtime \<Rightarrow> ('d, bool) cuda_prog" where
  "run_kernel_and_parity C =
    (let bytes = 16 * MIB; n = words_of bytes; hi = map (\<lambda>i. f_of_int (int i mod 1000)) [0 ..< n] in
     cu_bind (cuda_status (cudaMalloc C bytes)) (\<lambda>(ok, din).
     if \<not> ok then cu_return False else
     cu_bind (cuda_status (cudaMalloc C bytes)) (\<lambda>(ok, dout).
     if \<not> ok then cu_bind (cuda_status (cudaFree C din)) (\<lambda>_. cu_return False) else
     cu_bind (cuda_status (cudaMemcpyHostToDevice C din hi)) (\<lambda>_.
     cu_bind (cuda_status (launch_add_one C dout din (int n))) (\<lambda>_.
     cu_bind (cuda_status (cudaDeviceSynchronize C)) (\<lambda>_.
     cu_bind (cuda_status (cudaMemcpyDeviceToHost C dout n)) (\<lambda>(_, ho).
     cu_bind (cuda_status (cudaFree C din)) (\<lambda>_.
     cu_bind (cuda_status (cudaFree C dout)) (\<lambda>_.
     cu_return (parity ho (map add_one hi)))))))))))"

text \<open>\<open>for (int i = 0; i < 4; ++i) { if (cudaMalloc(&bufs[i], RB) != cudaSuccess) ... }\<close>\<close>

fun allocate_buffers :: "'d cuda_runtime \<Rightarrow> nat \<Rightarrow> ('d, unit) cuda_prog" where
  "allocate_buffers C 0 = cu_return ()"
| "allocate_buffers C (Suc n) =
    cu_bind (cuda_status (cudaMalloc C (256 * MIB))) (\<lambda>(ok, _).
    cu_bind (leave_if (\<not> ok) 1 ''cudaMalloc failed'') (\<lambda>_. allocate_buffers C n))"

definition cuda_worker_allocations :: "u64 \<Rightarrow> Allocation list" where
  "cuda_worker_allocations boot =
    (let RB = 256 * MIB in
     [derived_allocation 1 boot 100 0 RB MV_IMMOVABLE, derived_allocation 2 boot 101 (2 * RB) RB MV_IMMOVABLE,
      derived_allocation 3 boot 102 (4 * RB) RB MV_IMMOVABLE, derived_allocation 4 boot 103 (6 * RB) RB MV_RELEASEABLE])"

text \<open>Unlike \<open>fg_worker\<close> it publishes its resource under the generation of its boot id.\<close>

definition cuda_worker_script :: "u64 \<Rightarrow> Message list" where
  "cuda_worker_script boot = publish_script 1 boot (worker_resource 1 boot) (cuda_worker_allocations boot)"

text \<open>
  The value is the messages that the process sends before it sleeps until it is killed; \<open>connects\<close> is
  the result of \<open>TcpClient::connect\<close>.
\<close>

definition fg_cuda_worker_main :: "'d cuda_runtime \<Rightarrow> nat \<Rightarrow> u64 \<Rightarrow> bool \<Rightarrow> ('d, Message list) cuda_prog" where
  "fg_cuda_worker_main C argc boot connects =
    cu_bind (leave_if (argc < 3) 2 ''usage: fg_cuda_worker <port> <boot_id>'') (\<lambda>_.
    cu_bind (cuda_status (cudaSetDevice C)) (\<lambda>(ok, _).
    cu_bind (leave_if (\<not> ok) 3 ''no CUDA device'') (\<lambda>_.
    cu_bind (CUDA_CHECK (cudaDeviceMajor C)) (\<lambda>major.
    cu_bind (leave_if (major < 12) 3 ''requires sm_120'') (\<lambda>_.
    cu_bind (CUDA_CHECK (cudaMemGetInfo C)) (\<lambda>_.
    cu_bind (allocate_buffers C 4) (\<lambda>_.
    cu_bind (run_kernel_and_parity C) (\<lambda>parity.
    cu_bind (leave_if (\<not> parity) 1 ''kernel parity failed'') (\<lambda>_.
    cu_bind (leave_if (\<not> connects) 1 ''worker connect failed'') (\<lambda>_.
    cu_return (cuda_worker_script boot)))))))))))"

section \<open>On a device that works\<close>

lemma allocate_buffers_succeeds:
  assumes "calls_ok {} C"
  shows "ensures A (allocate_buffers C n) d (\<lambda>_ _. True)"
proof (induction n arbitrary: d)
  case (Suc n)
  show ?case
    unfolding allocate_buffers.simps
    by (rule ensures_bind, rule ensures_status [OF ensures_malloc [OF assms, where P = "\<lambda>_ _. True"]])
      (simp_all add: ensures_bind ensures_leave_if Suc)
qed (simp add: ensures_return)

lemma run_kernel_and_parity_succeeds:
  assumes ok: "calls_ok {} C"
  shows "ensures A (run_kernel_and_parity C) d (\<lambda>parity _. parity)"
proof -
  define n where "n = words_of (16 * MIB)"
  define hi where "hi = map (\<lambda>i. f_of_int (int i mod 1000)) [0 ..< n]"
  have n: "n = unat (16 * MIB div 4)" "n \<le> 2 ^ 30" "length hi = n" by (simp_all add: n_def hi_def words_of_def MIB_def)
  have par: "parity (map add_one hi) (map add_one hi)" by (rule parity_same) (simp add: add_one_same)
  have free: "ensures A (cu_bind (cuda_status (cudaFree C p)) f) d P" if "\<And>d. ensures A (f (True, ())) d P" for f :: "bool \<times> unit \<Rightarrow> ('a, bool) cuda_prog" and p d P
    by (rule ensures_bind, rule ensures_status [OF ensures_free [OF ok, where P = "\<lambda>_ _. True"]]) (use that in simp_all)
  show ?thesis
    unfolding run_kernel_and_parity_def Let_def n_def [symmetric] hi_def [symmetric]
    apply (rule ensures_bind, rule ensures_status [OF ensures_malloc [OF ok, where P = "\<lambda>p d'. \<exists>ws. gpu_memory C p d' = Some ws \<and> length ws = n"]])
    subgoal using n by simp
    subgoal premises i for din d1
      apply (simp, rule ensures_bind, rule ensures_status [OF ensures_malloc [OF ok,
        where P = "\<lambda>p d'. p \<noteq> din \<and> (\<exists>ws. gpu_memory C p d' = Some ws \<and> length ws = n) \<and> gpu_memory C din d' = gpu_memory C din d1"]])
      subgoal premises o for p ws d2 using o(1-3) keeps_memoryD [OF o(4) refl, of din] i n by (cases "p = din") auto
      subgoal premises o for dout d2
      proof -
        obtain ws ws' where mem: "gpu_memory C din d2 = Some ws" "length hi = length ws" "gpu_memory C dout d2 = Some ws'" "length ws' = n" "dout \<noteq> din"
          using i o n by auto
        show ?thesis
          apply (simp, rule ensures_bind, rule ensures_status [OF ensures_upload [OF ok mem(1,2),
            where P = "\<lambda>_ d'. gpu_memory C din d' = Some hi \<and> gpu_memory C dout d' = Some ws'"]])
          subgoal using mem by (simp add: keeps_memory_def)
          subgoal premises u for x d3
            apply (rule ensures_bind, rule ensures_status [OF ensures_launch [OF ok u [THEN conjunct1] u [THEN conjunct2],
              where P = "\<lambda>_ d'. gpu_memory C dout d' = Some (map add_one hi)"]])
            subgoal using mem n by simp
            subgoal using n by simp
            subgoal using n by simp
            subgoal by simp
            subgoal premises l for y d4
              apply (rule ensures_bind, rule ensures_status [OF ensures_synchronize [OF ok, where P = "\<lambda>_ d'. gpu_memory C dout d' = Some (map add_one hi)"]])
              subgoal using l by (simp add: keeps_memory_def)
              subgoal premises s for z d5
                apply (rule ensures_bind, rule ensures_status [OF ensures_download [OF ok s, where P = "\<lambda>xs _. xs = map add_one hi"]])
                subgoal using n by simp
                subgoal by simp
                subgoal using par by (simp add: free ensures_return)
                done
              done
            done
          done
      qed
      done
    done
qed

text \<open>The worker reaches its coordinator when the device does what it should and the coordinator listens.\<close>

lemma cuda_worker_publishes:
  assumes "cuda_memory C" and "cuda_succeeds C" and "3 \<le> argc" and "connects"
  shows "\<exists>d'. fg_cuda_worker_main C argc boot connects d = Inr (cuda_worker_script boot, d')"
proof -
  have ok: "calls_ok {} C" using assms(1,2) by (simp add: calls_ok_def)
  have set: "fst (cudaSetDevice C d)" "\<exists>v d'. cudaDeviceMajor C d = (True, v, d') \<and> 12 \<le> v" "\<exists>v d'. cudaMemGetInfo C d = (True, v, d')" for d
    using assms(2) unfolding cuda_succeeds_def by blast+
  have "ensures {} (fg_cuda_worker_main C argc boot connects) d (\<lambda>script _. script = cuda_worker_script boot)"
    unfolding fg_cuda_worker_main_def
    apply (rule ensures_bind, rule ensures_leave_if, use assms(3) in simp)
    apply (rule ensures_bind, rule ensures_status [OF ensures_check [where P = "\<lambda>_ _. True"]], use set(1) in simp, simp, unfold prod.case)
    apply (rule ensures_bind, rule ensures_leave_if, simp)
    apply (rule ensures_bind, rule ensures_check)
    subgoal for _ d1 using set(2) [of d1] by auto
    subgoal premises m for _ d1 major d2
      apply (rule ensures_bind, rule ensures_leave_if)
      subgoal using m set(2) [of d1] by auto
      apply (rule ensures_bind, rule ensures_check)
      subgoal using set(3) [of d2] by auto
      apply (rule ensures_bind, rule ensures_mono [OF allocate_buffers_succeeds [OF ok]])
      apply (rule ensures_bind, rule ensures_mono [OF run_kernel_and_parity_succeeds [OF ok]])
      apply (rule ensures_bind, rule ensures_leave_if, simp)
      apply (rule ensures_bind, rule ensures_leave_if, use assms(4) in simp)
      apply (rule ensures_return, rule refl)
      done
    done
  then show ?thesis by (auto simp: ensures_def split: sum.splits stop.splits)
qed

end
