(* ===== verification/Scenario_F.thy ===== *)
theory Scenario_F
  imports Cuda_Worker Governance_Loop Durability
begin

text \<open>
  \<open>cuda/fg_cuda_scenario_f.cu\<close>: the orchestrator of a coordinator process and of two incarnations of the
  CUDA worker.  The orchestrator talks to the coordinator over one connection; meanwhile the coordinator
  serves the connections of the workers.  What they do, and when, is the schedule, an argument of the
  program: before each request of the orchestrator the coordinator has handled some events of the workers.
  The operating system (launching a process, connecting, the memory of the device) is an argument too.
\<close>

section \<open>The coordinator as the orchestrator sees it\<close>

text \<open>A request on a worker's connection, and the end of the connection on which a worker had registered.\<close>

datatype peer_event = Peer_sends Message | Peer_gone WorkerId

type_synonym schedule = "nat \<Rightarrow> peer_event list \<times> env"

fun deliver :: "env \<Rightarrow> peer_event \<Rightarrow> Coordinator \<times> file_system \<Rightarrow> (Coordinator \<times> file_system) res" where
  "deliver e (Peer_sends m) (c, fs) = chain (handle e m c fs) (\<lambda>(_, c, fs). Inr (c, fs))"
| "deliver e (Peer_gone w) (c, fs) = Inr (mark_worker_dead w c, fs)"

text \<open>The device, the coordinator while its process runs, and the number of requests made so far.\<close>

record 'd orchestrated =
  or_device :: 'd
  or_coord :: "(Coordinator \<times> file_system) option"
  or_requests :: nat

definition on_device :: "('d, 'a) cuda_call \<Rightarrow> ('d orchestrated, 'a) cuda_call" where
  "on_device call w = (case call (or_device w) of (ok, x, d) \<Rightarrow> (ok, x, w\<lparr>or_device := d\<rparr>))"

text \<open>
  \<open>cli.send_frame(m); auto r = cli.recv_frame();\<close> An exception in a thread of the coordinator ends its
  process, and then there is no reply.
\<close>

definition exchange :: "schedule \<Rightarrow> Message \<Rightarrow> ('d orchestrated, Message option) cuda_prog" where
  "exchange S m w =
    (case or_coord w of
       None \<Rightarrow> Inr (None, w)
     | Some st \<Rightarrow>
       case S (or_requests w) of (evs, e) \<Rightarrow>
       case chain (fold_res (deliver e) evs st) (\<lambda>(c, fs). handle e m c fs) of
         Inl _ \<Rightarrow> Inr (None, w\<lparr>or_coord := None\<rparr>)
       | Inr (out, c, fs) \<Rightarrow>
           Inr (case out of [] \<Rightarrow> None | r # _ \<Rightarrow> Some r, w\<lparr>or_coord := Some (c, fs), or_requests := Suc (or_requests w)\<rparr>))"

section \<open>The helpers\<close>

definition wait_port :: "(nat \<Rightarrow> bool) \<Rightarrow> nat \<Rightarrow> bool" where
  "wait_port connects tries = list_ex connects [0 ..< tries]"

fun wait_memory :: "'d cuda_runtime \<Rightarrow> u64 \<Rightarrow> u64 \<Rightarrow> nat \<Rightarrow> ('d orchestrated, bool) cuda_prog" where
  "wait_memory C initial now 0 = cu_return False"
| "wait_memory C initial now (Suc tries) =
    cu_bind (cuda_status (on_device (cudaMemGetInfo C))) (\<lambda>(ok, v).
    let now = (if ok then v else now) in
    if now \<ge> initial \<and> now - initial < 8 * MIB then cu_return True else wait_memory C initial now tries)"

section \<open>The requests\<close>

definition scenario_f_demand :: WorkloadDemand where
  "scenario_f_demand = uniform_demand (512 * MIB)"

definition create_request :: Message where
  "create_request = default_message\<lparr>msg_type := MT_CREATE_PLAN, msg_epoch := 1, msg_policy_gen := 1, msg_demand := scenario_f_demand\<rparr>"

definition begin_request :: "RemediationPlan \<Rightarrow> Message" where
  "begin_request p = default_message\<lparr>msg_type := MT_BEGIN_ACTION, msg_plan_id := id_value (plan_id p),
     msg_plan_gen := gen_value (plan_generation p), msg_action_index := 0, msg_epoch := 1, msg_policy_gen := 1\<rparr>"

definition stale_request :: Message where
  "stale_request = default_message\<lparr>msg_type := MT_PUBLISH_LAYOUT, msg_worker_id := 1, msg_worker_boot := 1, msg_epoch := 1,
     msg_resource := default_resource\<lparr>res_id := TypedId 1\<rparr>, msg_resource_gen := 1,
     msg_allocations := [derived_allocation 99 1 999 0 (256 * MIB) MV_RELEASEABLE]\<rparr>"

definition approve_request :: "RemediationPlan \<Rightarrow> Message" where
  "approve_request p = default_message\<lparr>msg_type := MT_APPROVE_PLAN, msg_plan_id := id_value (plan_id p),
     msg_plan_gen := gen_value (plan_generation p), msg_policy_gen := 1\<rparr>"

definition complete_request :: "RemediationPlan \<Rightarrow> Message" where
  "complete_request p = default_message\<lparr>msg_type := MT_ACTION_COMPLETE, msg_plan_id := id_value (plan_id p),
     msg_action_index := 0, msg_action_ok := True, msg_new_generation := gen_value (plan_generation p) + 1\<rparr>"

definition verify_request :: "RemediationPlan \<Rightarrow> Message" where
  "verify_request p = default_message\<lparr>msg_type := MT_VERIFY, msg_plan_id := id_value (plan_id p),
     msg_plan_gen := gen_value (plan_generation p)\<rparr>"

text \<open>The two polling loops: ask for a plan until there is one.\<close>

fun poll_plan :: "schedule \<Rightarrow> nat \<Rightarrow> ('d orchestrated, RemediationPlan option) cuda_prog" where
  "poll_plan S 0 = cu_return None"
| "poll_plan S (Suc tries) =
    cu_bind (exchange S create_request) (\<lambda>r.
    case r of
      Some m \<Rightarrow> if msg_type m = MT_PLAN_RESULT \<and> msg_ok m then cu_return (Some (msg_plan m)) else poll_plan S tries
    | None \<Rightarrow> poll_plan S tries)"

definition plan_or_leave :: "schedule \<Rightarrow> string \<Rightarrow> ('d orchestrated, RemediationPlan) cuda_prog" where
  "plan_or_leave S msg =
    cu_bind (poll_plan S 40) (\<lambda>got.
    case got of Some p \<Rightarrow> cu_return p | None \<Rightarrow> cu_bind (leave_if True 1 msg) (\<lambda>_. cu_return default_plan))"

section \<open>The scenario\<close>

record scenario_os =
  os_launches_coordinator :: bool
  os_connects :: "nat \<Rightarrow> bool"
  os_launches_worker :: "u64 \<Rightarrow> bool"
  os_controller_connects :: bool
  os_host :: host
  os_files :: file_system

text \<open>Lines 95 to 109: what the old incarnation left behind must be refused.\<close>

definition old_evidence_refused :: "schedule \<Rightarrow> RemediationPlan \<Rightarrow> ('d orchestrated, unit) cuda_prog" where
  "old_evidence_refused S old =
    cu_bind (exchange S (begin_request old)) (\<lambda>r.
    cu_bind (deref r) (\<lambda>bar.
    cu_bind (leave_if (msg_ok bar) 1 ''old plan executed after worker death'') (\<lambda>_.
    cu_bind (exchange S stale_request) (\<lambda>r.
    cu_bind (deref r) (\<lambda>sar.
    leave_if (msg_ok sar) 1 ''stale layout replay accepted'')))))"

text \<open>Lines 124 to 137.\<close>

definition remediate :: "schedule \<Rightarrow> RemediationPlan \<Rightarrow> ('d orchestrated, unit) cuda_prog" where
  "remediate S p =
    cu_bind (exchange S (approve_request p)) (\<lambda>r.
    cu_bind (deref r) (\<lambda>apr.
    cu_bind (leave_if (\<not> msg_ok apr) 1 ''fresh plan not approved'') (\<lambda>_.
    cu_bind (exchange S (begin_request p)) (\<lambda>_.
    cu_bind (exchange S (complete_request p)) (\<lambda>_.
    cu_bind (exchange S (verify_request p)) (\<lambda>r.
    cu_bind (deref r) (\<lambda>vfr.
    leave_if (msg_verification_outcome vfr \<noteq> VO_TARGET_FIT_ACHIEVED) 1 ''fresh remediation did not achieve target fit'')))))))"

text \<open>Lines 79 to 137, the conversation with the coordinator.\<close>

definition two_incarnations :: "scenario_os \<Rightarrow> schedule \<Rightarrow> ('d orchestrated, unit) cuda_prog" where
  "two_incarnations os S =
    cu_bind (plan_or_leave S ''worker A evidence not published / parity failed'') (\<lambda>old.
    cu_bind (old_evidence_refused S old) (\<lambda>_.
    cu_bind (leave_if (\<not> os_launches_worker os 2) 1 ''launch worker A-prime failed'') (\<lambda>_.
    cu_bind (plan_or_leave S ''worker A-prime evidence not published'') (\<lambda>p.
    remediate S p))))"

definition fg_cuda_scenario_f_main :: "'d cuda_runtime \<Rightarrow> scenario_os \<Rightarrow> schedule \<Rightarrow> nat \<Rightarrow> ('d orchestrated, int) cuda_prog" where
  "fg_cuda_scenario_f_main C os S argc =
    cu_bind (leave_if (argc < 3) 2 ''usage: fg_cuda_scenario_f <coord_exe> <worker_exe>'') (\<lambda>_.
    cu_bind (cuda_status (on_device (cudaSetDevice C))) (\<lambda>(ok, _).
    cu_bind (leave_if (\<not> ok) 3 ''no CUDA in orchestrator'') (\<lambda>_.
    cu_bind (cuda_status (on_device (cudaMemGetInfo C))) (\<lambda>(ok, v).
    let initial = (if ok then v else 0) in
    cu_bind (leave_if (\<not> os_launches_coordinator os) 1 ''launch coordinator failed'') (\<lambda>_.
    cu_bind (\<lambda>w. Inr ((), w\<lparr>or_coord := case start_coordinator (os_host os) 1 '''' (os_files os) of
        Inl _ \<Rightarrow> None | Inr c \<Rightarrow> Some (c, os_files os)\<rparr>)) (\<lambda>_.
    cu_bind (leave_if (\<not> wait_port (os_connects os) 100) 1 ''coordinator not ready'') (\<lambda>_.
    cu_bind (leave_if (\<not> os_launches_worker os 1) 1 ''launch worker A failed'') (\<lambda>_.
    cu_bind (leave_if (\<not> os_controller_connects os) 1 ''controller connect failed'') (\<lambda>_.
    cu_bind (two_incarnations os S) (\<lambda>_.
    cu_bind (\<lambda>w. Inr ((), w\<lparr>or_coord := None\<rparr>)) (\<lambda>_.
    cu_bind (wait_memory C initial 0 60) (\<lambda>drained.
    cu_bind (leave_if (\<not> drained) 1 ''device memory did not return to measured baseline'') (\<lambda>_.
    cu_return 0)))))))))))))"

end
