(* ===== verification/Scenario_F_Correct.thy ===== *)
theory Scenario_F_Correct
  imports Scenario_F
begin

text \<open>
  The scenario of \<open>cuda/fg_cuda_scenario_f.cu\<close> passes: the states of the coordinator while a worker's
  evidence arrives, the polls in each of them, the refusal of what a dead incarnation left behind, and
  the remediation at the end.
\<close>

section \<open>The layout of the CUDA worker\<close>

definition cuda_layout :: "u64 \<Rightarrow> ResourceLayout \<Rightarrow> bool" where
  "cuda_layout b l \<longleftrightarrow> insert_all (cuda_worker_allocations b) (mk_layout (2048 * MIB)) = Inr (None, l) \<and> layout_inv l \<and>
     lay_capacity l = 2048 * MIB \<and> set (lay_allocations l) = registry (cuda_worker_allocations b)"

lemma cuda_worker_comb: "comb (cuda_worker_allocations b)"
  by (simp add: cuda_worker_allocations_def comb_def derived_allocation_def Let_def MIB_def)

lemma cuda_worker_releases:
  "{a \<in> set (cuda_worker_allocations b). is_protected a} = set (butlast (cuda_worker_allocations b))"
  "{e \<in> registry (cuda_worker_allocations b). \<not> is_protected (snd e)} = {(TypedId 4, last (cuda_worker_allocations b))}"
  "length (cuda_worker_allocations b) = 4"
  by (auto simp: cuda_worker_allocations_def derived_allocation_def is_protected_def Let_def)

lemma cuda_layout_exists: obtains l where "cuda_layout b l"
proof -
  have "placeable (unat (2048 * MIB)) (cuda_worker_allocations b)"
    using comb_placeable [OF cuda_worker_comb] by (simp add: MIB_def)
  from build_layout [OF this] show thesis using that unfolding cuda_layout_def by blast
qed

section \<open>The evidence of one incarnation, message by message\<close>

text \<open>
  \<open>stage b l k c\<close>: of the three messages of the incarnation \<open>b\<close> the first \<open>k\<close> have been handled, and
  what a former incarnation published is withdrawn.
\<close>

definition stage :: "u64 \<Rightarrow> ResourceLayout \<Rightarrow> nat \<Rightarrow> Coordinator \<Rightarrow> bool" where
  "stage b l k c \<longleftrightarrow> coord_inv c \<and> generations_complete (co_generations c) \<and>
     (0 < k \<longrightarrow> om_find (co_worker_alive c) (TypedId 1) = Some True \<and> om_find (co_worker_boot c) (TypedId 1) = Some (Generation b)) \<and>
     (if k < 2 then co_resources c = [] \<or>
        (\<exists>rec. co_resources c = [(TypedId 1, rec)] \<and> gen_value (res_generation (wr_resource rec)) < b \<and> \<not> wr_alive rec)
      else co_resources c = [(TypedId 1, evidence_record 1 b (worker_resource 1 b) (if k = 2 then mk_layout (2048 * MIB) else l))])"

lemma stage_alive:
  "stage b l k c \<Longrightarrow> alive_records c =
    (if k < 2 then [] else [evidence_record 1 b (worker_resource 1 b) (if k = 2 then mk_layout (2048 * MIB) else l)])"
  by (auto simp: stage_def alive_records_def split: if_splits)

lemma stage_inv: "stage b l k c \<Longrightarrow> coord_inv c" "stage b l k c \<Longrightarrow> generations_complete (co_generations c)"
  by (simp_all add: stage_def)

lemma om_put_single [simp]: "om_put k v [] = [(k, v)]" "om_put k v [(k, v')] = [(k, v)]"
  by (simp_all add: om_put_def)

lemma worker_resource_fields [simp]:
  "res_id (worker_resource w g) = TypedId w" "res_generation (worker_resource w g) = Generation g"
  "res_device (worker_resource w g) = TypedId w" "res_capacity (worker_resource w g) = 2048 * MIB"
  by (simp_all add: worker_resource_def)

lemma with_record_generations: "generations_complete (co_generations c) \<Longrightarrow> generations_complete (co_generations (with_record rec c))"
  by (simp add: with_record_def advance_resource_generation_def Let_def generations_complete_def gen_next_valid)

lemma stage_register:
  assumes st: "stage b l 0 c" and b: "b \<noteq> 0"
  shows "stage b l 1 (registered (TypedId 1) b c)"
proof -
  have "co_generations (registered (TypedId 1) b c) = co_generations c"
    by (simp add: registered_def Let_def mark_worker_dead_def split: option.split)
  moreover have "co_resources (registered (TypedId 1) b c) = co_resources c \<or>
      co_resources (registered (TypedId 1) b c) = om_update_all (\<lambda>rec. if wr_worker rec = TypedId 1 then rec\<lparr>wr_alive := False\<rparr> else rec) (co_resources c)"
    by (auto simp: registered_def Let_def mark_worker_dead_resources split: option.split)
  ultimately show ?thesis
    using st registered_inv [OF stage_inv(1) [OF st] b] registered_current [OF stage_inv(1) [OF st]]
    by (auto simp: stage_def om_update_all_def split: if_splits)
qed

lemma stage_message:
  assumes st: "stage b l k c" and k: "k < 3" and b: "b \<noteq> 0" and l: "cuda_layout b l"
  obtains c' where "handle e (cuda_worker_script b ! k) c fs = Inr ([acknowledge], c', fs)" "stage b l (Suc k) c'"
proof -
  note inv = stage_inv [OF st]
  consider "k = 0" | "k = 1" | "k = 2" using k by linarith
  then show thesis
  proof cases
    case 1
    have "handle e (cuda_worker_script b ! k) c fs = Inr ([acknowledge], registered (TypedId 1) b c, fs)"
      using register_handled [OF b, of e 1 c fs] by (simp add: 1 cuda_worker_script_def publish_script_def)
    then show thesis using that stage_register [of b l c] st b by (simp add: 1)
  next
    case 2
    define c' where "c' = with_record (evidence_record 1 b (worker_resource 1 b) (mk_layout (2048 * MIB))) c"
    have live: "om_find (co_worker_alive c) (TypedId 1) = Some True" "om_find (co_worker_boot c) (TypedId 1) = Some (Generation b)"
      using st by (simp_all add: stage_def 2)
    have "handle e (resource_message 1 b (worker_resource 1 b)) c fs = Inr ([acknowledge], c', fs)"
      unfolding c'_def worker_resource_fields(4) [of 1 b, symmetric]
      by (rule resource_handled [OF inv(1) live]) (use st in \<open>auto simp: stage_def 2 om_find_def split: if_splits\<close>)
    moreover from handle_keeps(1) [OF inv(1) this] have "stage b l 2 c'"
      using st inv(2) live by (auto simp: stage_def c'_def 2 with_record_generations)
    ultimately show thesis using that by (simp add: 2 cuda_worker_script_def publish_script_def numeral_2_eq_2)
  next
    case 3
    define rec where "rec = evidence_record 1 b (worker_resource 1 b) (mk_layout (2048 * MIB))"
    define c' where "c' = with_record (evidence_record 1 b (worker_resource 1 b) l) c"
    have live: "om_find (co_worker_alive c) (TypedId 1) = Some True" "om_find (co_worker_boot c) (TypedId 1) = Some (Generation b)"
      and res: "co_resources c = [(TypedId 1, rec)]"
      using st by (simp_all add: stage_def 3 rec_def)
    have "handle e (layout_message 1 b (TypedId 1) b (cuda_worker_allocations b)) c fs = Inr ([acknowledge], c', fs)"
      using layout_handled [OF inv(1) live, of rec b "cuda_worker_allocations b" l e fs] res l
      by (simp add: rec_def c'_def om_find_def cuda_layout_def)
    moreover from handle_keeps(1) [OF inv(1) this] have "stage b l 3 c'"
      using res inv(2) live by (auto simp: stage_def c'_def with_record_generations rec_def)
    ultimately show thesis using that by (simp add: 3 cuda_worker_script_def publish_script_def numeral_3_eq_3)
  qed
qed

lemma stage_deliver:
  assumes "stage b l k c" and "k + n \<le> 3" and "b \<noteq> 0" and "cuda_layout b l"
  shows "\<exists>c'. fold_res (deliver e) (map Peer_sends (take n (drop k (cuda_worker_script b)))) (c, fs) = Inr (c', fs) \<and> stage b l (k + n) c'"
  using assms(1,2)
proof (induction n arbitrary: k c)
  case (Suc n)
  have k: "k < 3" "k < length (cuda_worker_script b)" using Suc.prems(2) by (simp_all add: cuda_worker_script_def publish_script_def)
  obtain c1 where c1: "handle e (cuda_worker_script b ! k) c fs = Inr ([acknowledge], c1, fs)" "stage b l (Suc k) c1"
    by (rule stage_message [OF Suc.prems(1) k(1) assms(3,4)])
  then obtain c' where "fold_res (deliver e) (map Peer_sends (take n (drop (Suc k) (cuda_worker_script b)))) (c1, fs) = Inr (c', fs)"
    "stage b l (Suc k + n) c'"
    using Suc.IH [OF c1(2)] Suc.prems(2) by auto
  then show ?case using c1(1) k(2) by (auto simp: Cons_nth_drop_Suc [symmetric])
qed simp

section \<open>Asking for a plan\<close>

lemma create_request_fields [simp]: "msg_type create_request = MT_CREATE_PLAN" "msg_demand create_request = uniform_demand 0x20000000"
  by (simp_all add: create_request_def scenario_f_demand_def MIB_def)

lemma create_request_handled: "handle e create_request c fs =
    (case plan_remediation (assemble_snapshot e c) (uniform_demand 0x20000000) (default_policy\<lparr>pol_generation := co_policy_generation c\<rparr>)
        default_weights (TypedId (co_next_plan_id c)) (Generation (co_next_plan_id c)) of
       Inl x \<Rightarrow> Inl x
     | Inr None \<Rightarrow> Inr ([default_message\<lparr>msg_type := MT_ERROR, msg_ok := False, msg_detail := ''no beneficial action''\<rparr>],
         c\<lparr>co_last_demand := uniform_demand 0x20000000\<rparr>, fs)
     | Inr (Some p) \<Rightarrow> Inr ([default_message\<lparr>msg_type := MT_PLAN_RESULT, msg_ok := True, msg_plan := p\<lparr>plan_state := PS_PLAN_READY\<rparr>\<rparr>],
         c\<lparr>co_last_demand := uniform_demand 0x20000000, co_plans := om_put (plan_id p) (p\<lparr>plan_state := PS_PLAN_READY\<rparr>) (co_plans c),
           co_before_snapshots := om_put (plan_id p) (assemble_snapshot e c) (co_before_snapshots c),
           co_next_plan_id := id_value (plan_id p) + 1\<rparr>, fs))"
  by (simp add: handle_def handle_create_plan_def Let_def split: sum.split option.split)

lemma stage_create:
  assumes st: "stage b l k c" and h: "handle e create_request c fs = Inr (out, c', fs')"
  shows "stage b l k c'"
proof -
  have "co_resources c' = co_resources c" "co_worker_alive c' = co_worker_alive c" "co_worker_boot c' = co_worker_boot c"
    "co_generations c' = co_generations c"
    using h unfolding create_request_handled by (auto split: sum.splits option.splits)
  then show ?thesis using st handle_keeps(1) [OF stage_inv(1) [OF st] h] by (simp add: stage_def)
qed

lemma stage_devices:
  assumes "stage b l k c"
  shows "snap_devices (assemble_snapshot e c) =
    (if k < 2 then [] else [\<lparr>dev_resource = worker_resource 1 b, dev_layout = (if k = 2 then mk_layout (2048 * MIB) else l)\<rparr>])"
  using stage_alive [OF assms] by simp

lemma stage_planner_input:
  assumes st: "stage b l k c" and l: "cuda_layout b l"
  shows "planner_input_ok (assemble_snapshot e c) default_weights"
proof (cases "k < 2")
  case True
  then show ?thesis
    using stage_devices [OF st, of e] default_weights_ok candidates_bound [of "assemble_snapshot e c" default_weights]
    by (simp add: planner_input_ok_def devices_ok_def)
next
  case False
  let ?l = "if k = 2 then mk_layout (2048 * MIB) else l"
  have "length (lay_allocations l) = 4"
    using l built_length [OF _ comb_placeable [OF cuda_worker_comb]] cuda_worker_releases(3) by (simp add: cuda_layout_def)
  then have "length (lay_allocations ?l) \<le> 2 ^ 46" "layout_inv ?l" using l mk_layout_inv by (simp_all add: cuda_layout_def)
  then show ?thesis
    using False stage_devices [OF st, of e]
    by (intro single_planner_input [where dv = "\<lparr>dev_resource = worker_resource 1 b, dev_layout = ?l\<rparr>"]) simp_all
qed

text \<open>Before the layout has arrived there is nothing to release, or nothing that needs to be.\<close>

lemma stage_no_plan:
  assumes st: "stage b l k c" and k: "k < 3" and l: "cuda_layout b l"
  obtains r c' where "handle e create_request c fs = Inr ([r], c', fs)" "\<not> msg_ok r" "stage b l k c'"
proof -
  let ?sn = "assemble_snapshot e c" and ?d = "uniform_demand 0x20000000"
  have "\<not> (\<not> demand_fits free_bytes ?sn ?d \<and> demand_fits reclaim_free_bytes ?sn ?d)"
  proof (cases "k < 2")
    case True
    then show ?thesis
      using stage_devices [OF st, of e] by (simp add: demand_fits_layouts layouts_fit_def needed_devices_def)
  next
    case False
    then have dev: "snap_devices ?sn = [\<lparr>dev_resource = worker_resource 1 b, dev_layout = mk_layout (2048 * MIB)\<rparr>]"
      using stage_devices [OF st, of e] k by simp
    have "{0 ..< 0 + unat (0x20000000 :: u64)} \<subseteq> free_bytes (mk_layout (2048 * MIB))"
      by (auto simp: free_bytes_def used_bytes_def MIB_def)
    then have "\<exists>s. {s ..< s + unat (0x20000000 :: u64)} \<subseteq> free_bytes (mk_layout (2048 * MIB))" by (rule exI)
    then show ?thesis using single_demand_fits [OF dev, of free_bytes "0x20000000"] by simp
  qed
  then have "plan_remediation ?sn ?d (default_policy\<lparr>pol_generation := co_policy_generation c\<rparr>) default_weights
      (TypedId (co_next_plan_id c)) (Generation (co_next_plan_id c)) = Inr None"
    using planner_total [OF stage_planner_input [OF st l, of e]] by metis
  then have h: "handle e create_request c fs = Inr ([default_message\<lparr>msg_type := MT_ERROR, msg_ok := False, msg_detail := ''no beneficial action''\<rparr>],
      c\<lparr>co_last_demand := ?d\<rparr>, fs)"
    by (simp add: create_request_handled)
  show thesis by (rule that [OF h _ stage_create [OF st h]]) simp
qed

text \<open>
  With the layout there is a plan of one action, which releases the fourth block.  \<open>fresh_plan q c\<close>:
  \<open>q\<close> is this plan, just returned, and nothing has happened since.
\<close>

definition fresh_plan :: "RemediationPlan \<Rightarrow> Coordinator \<Rightarrow> bool" where
  "fresh_plan q c \<longleftrightarrow> (\<exists>before act. in_loop before (uniform_demand 0x20000000) q {} PS_PLAN_READY c \<and> snapshot_ok before \<and>
     \<not> demand_fits free_bytes before (uniform_demand 0x20000000) \<and> plan_actions q = [act] \<and> action_for before (0, TypedId 4) act \<and>
     {(0, TypedId 4)} \<subseteq> reclaim_keys before \<and> layouts_fit (uniform_demand 0x20000000) (free_without {(0, TypedId 4)} before) \<and>
     snap_epoch before = co_epoch c \<and> snap_policy_generation before = co_policy_generation c)"

lemma published_fits:
  assumes st: "stage b l 3 c" and l: "cuda_layout b l"
  shows "\<not> demand_fits free_bytes (assemble_snapshot e c) (uniform_demand 0x20000000)"
    and "demand_fits reclaim_free_bytes (assemble_snapshot e c) (uniform_demand 0x20000000)"
    and "reclaim_keys (assemble_snapshot e c) = {(0, TypedId 4)}"
proof -
  have dev: "snap_devices (assemble_snapshot e c) = [\<lparr>dev_resource = worker_resource 1 b, dev_layout = l\<rparr>]"
    using stage_devices [OF st, of e] by simp
  have reg: "set (lay_allocations l) = registry (cuda_worker_allocations b)" and cap: "unat (lay_capacity l) = 0x80000000"
    using l by (simp_all add: cuda_layout_def MIB_def)
  note bytes = built_bytes [OF reg, unfolded cap cuda_worker_releases(1)]
  have fits: "demand_fits free (assemble_snapshot e c) (uniform_demand 0x20000000) \<longleftrightarrow> (\<exists>s. {s ..< s + unat (0x20000000 :: u64)} \<subseteq> free l)"
    if "finite (free l)" for free
    using single_demand_fits [OF dev, of free "0x20000000"] that by (simp only: DeviceState.select_convs)
  show "\<not> demand_fits free_bytes (assemble_snapshot e c) (uniform_demand 0x20000000)"
    using comb_no_run [OF cuda_worker_comb order_refl, of "0x20000000"] unfolding fits [OF finite_free(1)] by (simp add: bytes(1))
  show "demand_fits reclaim_free_bytes (assemble_snapshot e c) (uniform_demand 0x20000000)"
  proof -
    have "{0x50000000 ..< 0x50000000 + unat (0x20000000 :: u64)} \<subseteq> reclaim_free_bytes l"
      using comb_run [OF cuda_worker_comb order_refl, of b] by (simp add: bytes(2))
    then have "\<exists>s. {s ..< s + unat (0x20000000 :: u64)} \<subseteq> reclaim_free_bytes l" by (rule exI)
    then show ?thesis unfolding fits [OF finite_free(2)] .
  qed
  have "reclaim_keys (assemble_snapshot e c) = (\<lambda>f. (0, fst f)) ` {f \<in> registry (cuda_worker_allocations b). \<not> is_protected (snd f)}"
    unfolding reclaim_keys_def dev reg [symmetric] by (force simp: image_iff)
  then show "reclaim_keys (assemble_snapshot e c) = {(0, TypedId 4)}" unfolding cuda_worker_releases(2) by simp
qed

lemma single_list: "distinct xs \<Longrightarrow> set xs \<subseteq> {x} \<Longrightarrow> xs \<noteq> [] \<Longrightarrow> xs = [x]"
  by (cases xs; cases "tl xs") auto

lemma stage_plan:
  assumes st: "stage b l 3 c" and l: "cuda_layout b l"
  obtains q c' where "handle e create_request c fs = Inr ([default_message\<lparr>msg_type := MT_PLAN_RESULT, msg_ok := True, msg_plan := q\<rparr>], c', fs)"
    "fresh_plan q c'" "stage b l 3 c'"
proof -
  let ?sn = "assemble_snapshot e c" and ?d = "uniform_demand 0x20000000"
  note input = stage_planner_input [OF st l, of e]
  note fits = published_fits [OF st l, of e]
  obtain p where plan: "plan_remediation ?sn ?d (default_policy\<lparr>pol_generation := co_policy_generation c\<rparr>)
      default_weights (TypedId (co_next_plan_id c)) (Generation (co_next_plan_id c)) = Inr (Some p)"
    using planner_total [OF input] fits(1,2) by (metis option.exhaust)
  define q where "q = p\<lparr>plan_state := PS_PLAN_READY\<rparr>"
  obtain ks where ks: "list_all2 (action_for ?sn) ks (plan_actions q)" "distinct ks" "set ks \<subseteq> {(0, TypedId 4)}"
    "layouts_fit ?d (free_without (set ks) ?sn)"
    using plan_keys [OF input plan] unfolding q_def fits(3) by auto
  have "ks \<noteq> []" using ks(4) fits(1) by (auto simp: demand_fits_without)
  then have "ks = [(0, TypedId 4)]" by (rule single_list [OF ks(2,3)])
  with ks obtain act where act: "plan_actions q = [act]" "action_for ?sn (0, TypedId 4) act"
    "layouts_fit ?d (free_without {(0, TypedId 4)} ?sn)" by (auto simp: list_all2_Cons1)
  obtain c1 where c1: "handle e create_request c fs = Inr ([default_message\<lparr>msg_type := MT_PLAN_RESULT, msg_ok := True, msg_plan := q\<rparr>], c1, fs)"
    "in_loop ?sn ?d q {} PS_PLAN_READY c1"
    using create_in_loop [OF stage_inv(1) [OF st] create_request_fields(1) stage_inv(2) [OF st], of e p fs] plan unfolding q_def by auto
  have "snapshot_ok ?sn" using input by (simp add: planner_input_ok_def snapshot_ok_def reservations_within_def)
  moreover have "snap_epoch ?sn = co_epoch c1" "snap_policy_generation ?sn = co_policy_generation c1"
    using c1(2) plan_remediation_fields(4,5) [OF plan] by (simp_all add: in_loop_def q_def)
  ultimately have "fresh_plan q c1" using c1(2) act fits(1,3) unfolding fresh_plan_def by blast
  with c1(1) show thesis by (rule that [OF _ _ stage_create [OF st c1(1)]])
qed

section \<open>Polling\<close>

lemma ensures_exchange:
  assumes "or_coord w = Some (c, fs)" and "S (or_requests w) = (evs, e)"
    and "fold_res (deliver e) evs (c, fs) = Inr (c1, fs)" and "handle e m c1 fs = Inr ([r], c2, fs)"
    and "P (Some r) (w\<lparr>or_coord := Some (c2, fs), or_requests := Suc (or_requests w)\<rparr>)"
  shows "ensures A (exchange S m) w P"
  using assms by (simp add: ensures_def exchange_def)

text \<open>
  \<open>arrives S n j ms\<close>: the messages \<open>ms\<close> are what the workers do before the requests \<open>n\<close> to \<open>n + j\<close>, and the
  last of them comes before request \<open>n + j\<close>.
\<close>

definition arrives :: "schedule \<Rightarrow> nat \<Rightarrow> nat \<Rightarrow> Message list \<Rightarrow> bool" where
  "arrives S n j ms \<longleftrightarrow> concat (map (\<lambda>i. fst (S i)) [n ..< Suc (n + j)]) = map Peer_sends ms \<and> fst (S (n + j)) \<noteq> []"

lemma arrives_0: "arrives S n 0 ms \<longleftrightarrow> fst (S n) = map Peer_sends ms \<and> ms \<noteq> []"
  by (auto simp: arrives_def)

lemma arrives_Suc:
  assumes "arrives S n (Suc j) ms"
  obtains i where "fst (S n) = map Peer_sends (take i ms)" "i < length ms" "arrives S (Suc n) j (drop i ms)"
proof -
  have all: "fst (S n) @ concat (map (\<lambda>i. fst (S i)) [Suc n ..< Suc (Suc n + j)]) = map Peer_sends ms" and ne: "fst (S (Suc n + j)) \<noteq> []"
    using assms by (simp_all add: arrives_def upt_conv_Cons del: upt_Suc)
  define i where "i = length (fst (S n))"
  have *: "fst (S n) = map Peer_sends (take i ms)" "concat (map (\<lambda>i. fst (S i)) [Suc n ..< Suc (Suc n + j)]) = map Peer_sends (drop i ms)"
    using arg_cong [OF all, of "take i"] arg_cong [OF all, of "drop i"] by (simp_all add: i_def take_map drop_map del: upt_Suc)
  have "concat (map (\<lambda>i. fst (S i)) [Suc n ..< Suc (Suc n + j)]) \<noteq> []" using ne by simp
  then have "drop i ms \<noteq> []" unfolding *(2) by simp
  then have "i < length ms" by simp
  with * ne show thesis by (intro that [of i]) (simp_all add: arrives_def del: upt_Suc)
qed

lemma poll_plan_succeeds:
  assumes "arrives S n j (drop k (cuda_worker_script b))" and "j < tries" and "stage b l k c" and "k \<le> 3"
    and "or_coord w = Some (c, fs)" and "or_requests w = n" and b: "b \<noteq> 0" and l: "cuda_layout b l"
  shows "ensures A (poll_plan S tries) w (\<lambda>got w'. \<exists>q c'. got = Some q \<and> or_coord w' = Some (c', fs) \<and>
    or_requests w' = Suc (n + j) \<and> fresh_plan q c' \<and> stage b l 3 c')"
  using assms(1-6)
proof (induction j arbitrary: n k c w tries)
  case 0
  obtain t where tries: "tries = Suc t" using 0(2) by (cases tries) auto
  obtain e where S: "S n = (map Peer_sends (drop k (cuda_worker_script b)), e)" using 0(1) by (cases "S n") (simp add: arrives_0)
  have len: "length (cuda_worker_script b) = 3" by (simp add: cuda_worker_script_def publish_script_def)
  obtain c1 where c1: "fold_res (deliver e) (map Peer_sends (drop k (cuda_worker_script b))) (c, fs) = Inr (c1, fs)" "stage b l 3 c1"
    using stage_deliver [OF 0(3) _ b l, of "3 - k" e fs] 0(4) len by auto
  obtain q c2 where c2: "handle e create_request c1 fs = Inr ([default_message\<lparr>msg_type := MT_PLAN_RESULT, msg_ok := True, msg_plan := q\<rparr>], c2, fs)"
    "fresh_plan q c2" "stage b l 3 c2" by (rule stage_plan [OF c1(2) l])
  show ?case
    unfolding tries poll_plan.simps
    by (rule ensures_bind, rule ensures_exchange [OF 0(5) _ c1(1) c2(1)])
      (use 0(6) S c2(2,3) in \<open>auto intro!: ensures_return\<close>)
next
  case (Suc j)
  obtain t where tries: "tries = Suc t" "j < t" using Suc.prems(2) by (cases tries) auto
  obtain i where i: "fst (S n) = map Peer_sends (take i (drop k (cuda_worker_script b)))" "i < length (drop k (cuda_worker_script b))"
    "arrives S (Suc n) j (drop i (drop k (cuda_worker_script b)))" by (rule arrives_Suc [OF Suc.prems(1)])
  have k: "k + i < 3" using i(2) by (simp add: cuda_worker_script_def publish_script_def)
  obtain e where S: "S n = (map Peer_sends (take i (drop k (cuda_worker_script b))), e)" using i(1) by (cases "S n") simp
  obtain c1 where c1: "fold_res (deliver e) (map Peer_sends (take i (drop k (cuda_worker_script b)))) (c, fs) = Inr (c1, fs)" "stage b l (k + i) c1"
    using stage_deliver [OF Suc.prems(3) _ b l, of i e fs] k by auto
  obtain r c2 where c2: "handle e create_request c1 fs = Inr ([r], c2, fs)" "\<not> msg_ok r" "stage b l (k + i) c2"
    by (rule stage_no_plan [OF c1(2) k l])
  show ?case
    unfolding tries(1) poll_plan.simps
    apply (rule ensures_bind, rule ensures_exchange [OF Suc.prems(5) _ c1(1) c2(1)])
    subgoal using Suc.prems(6) S by simp
    subgoal
      using Suc.IH [of "Suc n" "k + i" t c2 "w\<lparr>or_coord := Some (c2, fs), or_requests := Suc (or_requests w)\<rparr>"]
        i(3) tries(2) c2(2,3) k Suc.prems(6) by (simp add: add.commute)
    done
qed

section \<open>What the dead incarnation left behind\<close>

lemma mark_worker_dead_fields [simp]:
  "co_generations (mark_worker_dead w c) = co_generations c"
  "om_inv (co_worker_alive c) \<Longrightarrow> om_find (co_worker_alive c) w = Some b \<Longrightarrow> om_find (co_worker_alive (mark_worker_dead w c)) w = Some False"
  by (simp_all add: mark_worker_dead_def Let_def om_find_put)

lemma dead_stage:
  assumes st: "stage 1 l 3 c"
  shows "stage 2 l' 0 (mark_worker_dead (TypedId 1) c)"
  using st mark_worker_dead_inv [OF stage_inv(1) [OF st], of "TypedId 1"]
  by (simp add: stage_def mark_worker_dead_resources om_update_all_def evidence_record_def)

lemma dead_begin_refused:
  assumes "fresh_plan q c"
  shows "handle e (begin_request q) (mark_worker_dead (TypedId 1) c) fs = Inr ([fail ''plan not approved''], mark_worker_dead (TypedId 1) c, fs)"
proof -
  have "om_find (co_plans c) (plan_id q) = Some (q\<lparr>plan_state := PS_PLAN_READY\<rparr>)" using assms by (auto simp: fresh_plan_def in_loop_def)
  then have "\<exists>p. om_find (co_plans (mark_worker_dead (TypedId 1) c)) (plan_id q) = Some p \<and> plan_state p \<noteq> PS_APPROVED"
    by (simp add: mark_worker_dead_plans om_find_update)
  then obtain p where "om_find (co_plans (mark_worker_dead (TypedId 1) c)) (plan_id q) = Some p" "plan_state p \<noteq> PS_APPROVED" by blast
  then show ?thesis
    by (simp add: handle_def begin_request_def handle_begin_action_def with_plan_def refuse_def)
qed

lemma dead_replay_refused:
  assumes st: "stage 1 l 3 c"
  shows "handle e stale_request (mark_worker_dead (TypedId 1) c) fs = Inr ([fail ''unregistered/dead worker''], mark_worker_dead (TypedId 1) c, fs)"
proof -
  have "om_find (co_worker_alive (mark_worker_dead (TypedId 1) c)) (TypedId 1) = Some False"
    using st coord_invD(5,6) [OF stage_inv(1) [OF st]] by (simp add: stage_def)
  then show ?thesis
    by (simp add: handle_def stale_request_def handle_publish_layout_def check_worker_def refuse_def Let_def)
qed

lemma fail_ok [simp]: "\<not> msg_ok (fail why)"
  by (simp add: fail_def)

lemma old_evidence_refused_passes:
  assumes w: "or_coord w = Some (c, fs)" "or_requests w = n" and st: "stage 1 l 3 c" and q: "fresh_plan q c"
    and S: "fst (S n) = [Peer_gone (TypedId 1)]" "fst (S (Suc n)) = []"
  shows "ensures A (old_evidence_refused S q) w (\<lambda>_ w'. \<exists>c'. or_coord w' = Some (c', fs) \<and> or_requests w' = Suc (Suc n) \<and> stage 2 l' 0 c')"
proof -
  obtain e e' where e: "S n = ([Peer_gone (TypedId 1)], e)" "S (Suc n) = ([], e')" using S by (cases "S n", cases "S (Suc n)") simp
  let ?c = "mark_worker_dead (TypedId 1) c"
  show ?thesis
    unfolding old_evidence_refused_def
    apply (rule ensures_bind, rule ensures_exchange [where evs = "[Peer_gone (TypedId 1)]" and e = e, OF w(1) _ _ dead_begin_refused [OF q, of e fs]])
    subgoal using w(2) e(1) by simp
    subgoal by simp
    apply (rule ensures_bind, rule ensures_deref)
    apply (rule ensures_bind, rule ensures_leave_if, simp)
    apply (rule ensures_bind, rule ensures_exchange [where c = ?c and evs = "[]" and e = e', OF _ _ _ dead_replay_refused [OF st, of e' fs]])
    subgoal by simp
    subgoal using w(2) e(2) by simp
    subgoal by simp
    apply (rule ensures_bind, rule ensures_deref)
    apply (rule ensures_leave_if, simp)
    subgoal using w(2) dead_stage [OF st] by simp
    done
qed

section \<open>The fresh remediation\<close>

lemma request_fields [simp]:
  "msg_type (approve_request p) = MT_APPROVE_PLAN" "TypedId (msg_plan_id (approve_request p)) = plan_id p"
  "msg_type (begin_request p) = MT_BEGIN_ACTION" "TypedId (msg_plan_id (begin_request p)) = plan_id p"
  "msg_plan_gen (begin_request p) = gen_value (plan_generation p)" "msg_action_index (begin_request p) = 0"
  "msg_type (complete_request p) = MT_ACTION_COMPLETE" "TypedId (msg_plan_id (complete_request p)) = plan_id p"
  "msg_action_ok (complete_request p)" "msg_action_index (complete_request p) = 0"
  "msg_type (verify_request p) = MT_VERIFY" "TypedId (msg_plan_id (verify_request p)) = plan_id p"
  by (simp_all add: approve_request_def begin_request_def complete_request_def verify_request_def)

lemma remediation_handled:
  assumes "fresh_plan q c"
  obtains c1 c2 c3 c4 r where "handle e1 (approve_request q) c fs = Inr ([acknowledge], c1, fs)"
    "handle e2 (begin_request q) c1 fs = Inr ([acknowledge], c2, fs)" "handle e3 (complete_request q) c2 fs = Inr ([acknowledge], c3, fs)"
    "handle e4 (verify_request q) c3 fs = Inr ([r], c4, fs)" "msg_verification_outcome r = VO_TARGET_FIT_ACHIEVED"
proof -
  let ?d = "uniform_demand 0x20000000"
  obtain before act where q: "in_loop before ?d q {} PS_PLAN_READY c" "snapshot_ok before" "\<not> demand_fits free_bytes before ?d"
    "plan_actions q = [act]" "action_for before (0, TypedId 4) act" "{(0, TypedId 4)} \<subseteq> reclaim_keys before"
    "layouts_fit ?d (free_without {(0, TypedId 4)} before)" "snap_epoch before = co_epoch c" "snap_policy_generation before = co_policy_generation c"
    using assms unfolding fresh_plan_def by blast
  have inv: "\<forall>l \<in> set (layouts_of before). layout_inv l" using q(2) by (auto simp: snapshot_ok_def devices_ok_def)
  obtain c1 where c1: "handle e1 (approve_request q) c fs = Inr ([acknowledge], c1, fs)" "in_loop before ?d q {} PS_APPROVED c1"
    by (rule approve_in_loop [OF q(1), of "approve_request q" e1 fs]) simp_all
  obtain c2 where c2: "handle e2 (begin_request q) c1 fs = Inr ([acknowledge], c2, fs)" "in_loop before ?d q {} PS_EXECUTING c2"
    by (rule begin_in_loop [OF c1(2), of "begin_request q" e2 fs]) (simp_all add: q(4))
  obtain c3 where c3: "handle e3 (complete_request q) c2 fs = Inr ([acknowledge], c3, fs)" "in_loop before ?d q {(0, TypedId 4)} PS_VERIFYING c3"
    by (rule complete_in_loop [OF c2(2) inv, of "complete_request q" 0 0 "TypedId 4" e3 fs]) (simp_all add: q(4,5))
  have "snap_epoch before = co_epoch c3" "snap_policy_generation before = co_policy_generation c3"
    using q(1,8,9) c3(2) by (simp_all add: in_loop_def)
  from verify_message_in_loop [OF c3(2) q(2,3,6,7) this uniform_demand_fields(1,2) request_fields(11,12), of e4 fs]
  obtain c4 r where "handle e4 (verify_request q) c3 fs = Inr ([r], c4, fs)" "msg_verification_outcome r = VO_TARGET_FIT_ACHIEVED" by blast
  with c1(1) c2(1) c3(1) show thesis by (rule that)
qed

lemma remediate_passes:
  assumes w: "or_coord w = Some (c, fs)" "or_requests w = n" and q: "fresh_plan q c" and S: "\<forall>i \<ge> n. fst (S i) = []"
  shows "ensures A (remediate S q) w (\<lambda>_ _. True)"
proof -
  define e where "e i = snd (S i)" for i
  have quiet: "S i = ([], e i)" if "n \<le> i" for i using S that by (cases "S i") (auto simp: e_def)
  obtain c1 c2 c3 c4 r where h: "handle (e n) (approve_request q) c fs = Inr ([acknowledge], c1, fs)"
    "handle (e (Suc n)) (begin_request q) c1 fs = Inr ([acknowledge], c2, fs)"
    "handle (e (Suc (Suc n))) (complete_request q) c2 fs = Inr ([acknowledge], c3, fs)"
    "handle (e (Suc (Suc (Suc n)))) (verify_request q) c3 fs = Inr ([r], c4, fs)" "msg_verification_outcome r = VO_TARGET_FIT_ACHIEVED"
    by (rule remediation_handled [OF q])
  have step: "ensures A (exchange S m) w' P"
    if "or_coord w' = Some (c', fs)" "n \<le> or_requests w'" "handle (e (or_requests w')) m c' fs = Inr ([r'], c'', fs)"
      "P (Some r') (w'\<lparr>or_coord := Some (c'', fs), or_requests := Suc (or_requests w')\<rparr>)" for m c' r' c'' P and w' :: "'a orchestrated"
    using that quiet by (intro ensures_exchange [of w' c' fs S "[]" "e (or_requests w')" c' m r' c'' P A]) simp_all
  show ?thesis
    unfolding remediate_def
    apply (rule ensures_bind, rule step [OF w(1)], simp add: w(2), simp add: w(2) h(1))
    apply (rule ensures_bind, rule ensures_deref, rule ensures_bind, rule ensures_leave_if, simp add: acknowledge_def)
    apply (rule ensures_bind, rule step [where c' = c1], simp, simp add: w(2), simp add: w(2) h(2))
    apply (rule ensures_bind, rule step [where c' = c2], simp, simp add: w(2), simp add: w(2) h(3))
    apply (rule ensures_bind, rule step [where c' = c3], simp, simp add: w(2), simp add: w(2) h(4))
    apply (rule ensures_bind, rule ensures_deref, rule ensures_leave_if)
     apply (simp_all add: h(5))
    done
qed

section \<open>The scenario\<close>

lemma plan_or_leave_succeeds:
  assumes "arrives S n j (cuda_worker_script b)" and "j < 40" and "stage b l 0 c"
    and "or_coord w = Some (c, fs)" and "or_requests w = n" and "b \<noteq> 0" and "cuda_layout b l"
  shows "ensures A (plan_or_leave S msg) w (\<lambda>q w'. \<exists>c'. or_coord w' = Some (c', fs) \<and> or_requests w' = Suc (n + j) \<and>
    fresh_plan q c' \<and> stage b l 3 c')"
  unfolding plan_or_leave_def
  by (rule ensures_bind, rule ensures_mono [OF poll_plan_succeeds [where k = 0, OF _ assms(2,3) _ assms(4-7)]])
    (use assms(1) in \<open>auto intro!: ensures_return exI\<close>)

text \<open>
  The schedule of the scenario: the first incarnation publishes before the request \<open>j\<close>, its connection is
  lost before the next one, the second incarnation publishes during the second polling loop, and nobody
  else is connected.
\<close>

definition scenario_schedule :: "schedule \<Rightarrow> nat \<Rightarrow> nat \<Rightarrow> bool" where
  "scenario_schedule S j k \<longleftrightarrow> j < 40 \<and> k < 40 \<and> arrives S 0 j (cuda_worker_script 1) \<and>
     fst (S (Suc j)) = [Peer_gone (TypedId 1)] \<and> fst (S (Suc (Suc j))) = [] \<and>
     arrives S (Suc (Suc (Suc j))) k (cuda_worker_script 2) \<and> (\<forall>i \<ge> Suc (Suc (Suc (Suc (j + k)))). fst (S i) = [])"

definition scenario_f_host_reasons :: "string set" where
  "scenario_f_host_reasons = {''no CUDA in orchestrator'', ''launch coordinator failed'', ''coordinator not ready'', ''launch worker A failed'',
     ''controller connect failed'', ''launch worker A-prime failed'', ''device memory did not return to measured baseline''}"

lemma ensures_any_status:
  "(\<And>r d. P r (w\<lparr>or_device := d\<rparr>)) \<Longrightarrow> ensures A (cuda_status (on_device call)) w P"
  by (cases "call (or_device w)") (simp add: ensures_def cuda_status_def on_device_def)

lemma ensures_wait_memory: "ensures A (wait_memory C initial now tries) w (\<lambda>_ _. True)"
proof (induction tries arbitrary: now w)
  case (Suc tries)
  show ?case unfolding wait_memory.simps Let_def
    by (rule ensures_bind, rule ensures_any_status) (simp add: Suc ensures_return split: prod.split)
qed (simp add: ensures_return)

lemma start_without_file: "start_coordinator h epoch '''' fs = Inr (mk_Coordinator (Generation epoch))"
  by (simp add: start_coordinator_def Let_def)

lemma fresh_stage: "stage 1 l 0 (mk_Coordinator (Generation 1))"
  using coord_inv_init by (simp add: stage_def mk_Coordinator_def generations_complete_def gen_is_valid_def)

lemma ensures_update: "P () (f w) \<Longrightarrow> ensures A (\<lambda>w. Inr ((), f w)) w P"
  by (simp add: ensures_def)

lemma two_incarnations_passes:
  assumes S: "scenario_schedule S j k" and w: "or_coord w = Some (mk_Coordinator (Generation 1), fs)" "or_requests w = 0"
  shows "ensures scenario_f_host_reasons (two_incarnations os S) w (\<lambda>_ _. True)"
proof -
  note S = S [unfolded scenario_schedule_def]
  obtain l1 l2 where l: "cuda_layout 1 l1" "cuda_layout 2 l2" by (metis cuda_layout_exists)
  show ?thesis
    unfolding two_incarnations_def
    apply (rule ensures_bind, rule ensures_mono [OF plan_or_leave_succeeds [where b = 1 and n = 0 and j = j, OF _ _ fresh_stage w _ l(1)]])
    subgoal using S by simp
    subgoal using S by simp
    subgoal by simp
    apply (elim exE conjE)
    apply (rule ensures_bind, rule ensures_mono [OF old_evidence_refused_passes [where l = l1 and l' = l2]], assumption, assumption, assumption, assumption)
    subgoal using S by simp
    subgoal using S by simp
    apply (elim exE conjE)
    apply (rule ensures_bind, rule ensures_leave_if, simp add: scenario_f_host_reasons_def)
    apply (rule ensures_bind, rule ensures_mono [OF plan_or_leave_succeeds [where b = 2 and n = "Suc (Suc (Suc j))" and j = k and l = l2]])
    subgoal using S by simp
    subgoal using S by simp
    apply assumption
    apply assumption
    subgoal by simp
    subgoal by simp
    subgoal by (rule l)
    apply (elim exE conjE)
    apply (rule remediate_passes, assumption, assumption, assumption)
    subgoal using S by simp
    done
qed


text \<open>A run in which all messages of a worker arrive at once.\<close>

definition sample_schedule :: schedule where
  "sample_schedule i = (if i = 0 then map Peer_sends (cuda_worker_script 1) else if i = 1 then [Peer_gone (TypedId 1)]
     else if i = 3 then map Peer_sends (cuda_worker_script 2) else [], sample_env)"

definition sample_os :: scenario_os where
  "sample_os = \<lparr>os_launches_coordinator = True, os_connects = (\<lambda>i. i = 2), os_launches_worker = (\<lambda>_. True), os_controller_connects = True,
     os_host = env_host sample_env, os_files = (\<lambda>_. None)\<rparr>"


end
