(* ===== verification/Examples.thy ===== *)
theory Examples
  imports Evidence Codec_Correct Protocol_Correct
begin

text \<open>
  The other programs that only call the library: \<open>examples/fg_examples.cpp\<close>, the downstream consumer
  \<open>packaging/consumer/main.cpp\<close> and the work that \<open>benchmarks/fg_benchmarks.cpp\<close> measures.  The value
  \<open>None\<close> is undefined behaviour: reading an empty optional or the first element of an empty vector.
  The times that the benchmark prints are an argument.
\<close>

section \<open>The examples\<close>

definition mksnap :: "Resource \<Rightarrow> ResourceLayout \<Rightarrow> FragmentationSnapshot" where
  "mksnap r lay = default_snapshot\<lparr>snap_generation := Generation 1, snap_domain := D_CUDA_DEVICE_MEMORY,
     snap_provenance := PV_DERIVED, snap_epoch := Generation 1, snap_policy_generation := Generation 1,
     snap_generations := default_generations\<lparr>kg_resource := Generation 1, kg_allocation := Generation 1,
       kg_reservation := Generation 1, kg_topology := Generation 1, kg_capacity := Generation 1\<rparr>,
     snap_devices := [\<lparr>dev_resource = r, dev_layout = lay\<rparr>]\<rparr>"

text \<open>\<open>for (int i = 0; i < 4; ++i) lay.insert_allocation(Allocation{...}, err);\<close>\<close>

definition four_blocks :: "u64 \<Rightarrow> u64 \<Rightarrow> Movability \<Rightarrow> Allocation list" where
  "four_blocks i owner mov =
    map (\<lambda>k. derived_allocation (i + k) 1 (owner + k) (k * 512 * MIB) (256 * MIB) mov) [0, 1, 2, 3]"

definition example_basic :: "string res" where
  "example_basic =
    chain (insert_each (four_blocks 100 10 MV_IMMOVABLE) (mk_layout (2048 * MIB))) (\<lambda>lay.
    chain (compute_metrics lay (Some (uniform_demand (512 * MIB)))) (\<lambda>m.
    Inr (''[basic] free='' @ fmt_mib (met_free_capacity m) @ ''MiB largest='' @ fmt_mib (met_largest_free_block m) @
      ''MiB demand=512MiB extRatio='' @ fmt_f4 (met_external_fragmentation_ratio m))))"

definition example_workload :: "string res" where
  "example_workload =
    chain (insert_each (four_blocks 200 20 MV_IMMOVABLE) (mk_layout (2048 * MIB))) (\<lambda>lay.
    let sf = (largest_free_block lay \<ge> dem_contiguous_memory (uniform_demand (128 * MIB)));
        bf = (largest_free_block lay \<ge> dem_contiguous_memory (uniform_demand (512 * MIB))) in
    Inr (''[workload] largest='' @ fmt_mib (largest_free_block lay) @ ''MiB smallFits='' @ fmt_bool sf @ '' bigFits='' @ fmt_bool bf))"

definition deficit_blocks :: "Allocation list" where
  "deficit_blocks = [derived_allocation 1 1 1 0 (400 * MIB) MV_IMMOVABLE, derived_allocation 2 1 2 (400 * MIB) (300 * MIB) MV_IMMOVABLE]"

definition example_deficit :: "string res" where
  "example_deficit =
    chain (insert_each deficit_blocks (mk_layout (1024 * MIB))) (\<lambda>lay.
    chain (compute_metrics lay None) (\<lambda>m.
    Inr (''[largest-block-deficit] free='' @ fmt_mib (met_free_capacity m) @ ''MiB largest='' @ fmt_mib (met_largest_free_block m) @
      ''MiB stranded='' @ fmt_mib (met_stranded_capacity m) @ ''MiB'')))"

definition example_resource :: "Bytes \<Rightarrow> Resource" where
  "example_resource capacity = default_resource\<lparr>res_id := TypedId 1, res_device := TypedId 1, res_domain := D_CUDA_DEVICE_MEMORY,
     res_capacity := capacity, res_provenance := PV_DERIVED\<rparr>"

definition example_release :: "string option res" where
  "example_release =
    chain (insert_each (four_blocks 300 30 MV_RELEASEABLE) (mk_layout (2048 * MIB))) (\<lambda>lay.
    chain (plan_remediation (mksnap (example_resource (2048 * MIB)) lay) (uniform_demand (512 * MIB))
        (default_policy\<lparr>pol_generation := Generation 1\<rparr>) default_weights (TypedId 1) (Generation 1)) (\<lambda>plan.
    Inr (case plan of
        None \<Rightarrow> Some ''[release] no beneficial action''
      | Some p \<Rightarrow> case plan_actions p of
          [] \<Rightarrow> None
        | act # _ \<Rightarrow> Some (''[release] plan actions='' @ decimal (length (plan_actions p)) @ '' kind='' @ action_kind_to_string (act_kind act) @
            '' recovery='' @ fmt_mib (act_expected_capacity_recovered act) @ ''MiB''))))"

definition topology_snapshot :: FragmentationSnapshot where
  "topology_snapshot =
    (let dev = (\<lambda>i g. \<lparr>dev_resource = default_resource\<lparr>res_id := TypedId i, res_device := TypedId i, res_topology_group := Some g,
                   res_domain := D_CUDA_DEVICE_MEMORY, res_provenance := PV_DERIVED\<rparr>, dev_layout = mk_layout (1024 * MIB)\<rparr>)
     in (mksnap default_resource (mk_layout 0))\<lparr>snap_devices := [dev 1 1, dev 2 2]\<rparr>)"

definition topology_demand :: WorkloadDemand where
  "topology_demand = default_demand\<lparr>dem_accelerator_count := 2, dem_topology_group := Some 1, dem_per_device_memory := 100 * MIB,
     dem_aggregate_memory := 200 * MIB, dem_contiguous_memory := 100 * MIB\<rparr>"

definition example_topology :: "string res" where
  "example_topology = chain (analyze_fit topology_snapshot topology_demand) (\<lambda>fit.
    Inr (''[topology] outcome='' @ fit_outcome_to_string (fr_outcome fit)))"

definition example_reservation :: "u64 \<Rightarrow> Duration \<Rightarrow> Duration \<Rightarrow> Reservation" where
  "example_reservation i s e = \<lparr>rv_id = TypedId i, rv_generation = Generation 1, rv_resource = TypedId 0, rv_start = s, rv_end = e,
     rv_amount = 1024, rv_hard = True, rv_policy_protected = False, rv_provenance = PV_REPORTED\<rparr>"

definition example_temporal :: "string res" where
  "example_temporal =
    chain (temporal_continuous_fit [example_reservation 1 1000 2000, example_reservation 2 3000 4000] 0 10000 500) (\<lambda>r.
    Inr (''[temporal] continuous-500ns-window='' @ fmt_bool (r \<noteq> None) @ '' earliest='' @
      fmt_u (case r of None \<Rightarrow> 0 | Some t \<Rightarrow> t)))"

definition example_state :: PersistedState where
  "example_state = default_persisted_state\<lparr>ps_resource_generation := Generation 1, ps_allocation_generation := Generation 1,
     ps_reservation_generation := Generation 1, ps_policy_generation := Generation 1, ps_epoch := Generation 1, ps_next_plan_id := 2,
     ps_plans := [\<lparr>pp_id = TypedId 1, pp_generation = Generation 1, pp_domain = TypedId 1, pp_state = PS_COMPLETED,
       pp_verification = Some VO_TARGET_FIT_ACHIEVED, pp_policy_generation = Generation 1, pp_epoch = Generation 1,
       pp_based_on_snapshot = Generation 1, pp_expected_capacity_recovered = 256 * MIB, pp_benefit = d_lit (9 / 10),
       pp_cost = d_lit (1 / 10), pp_risk = d_lit (5 / 100), pp_disruption = d_lit (1 / 10), pp_action_count = 1,
       pp_action_kinds = [AK_RELEASE_UNUSED]\<rparr>]\<rparr>"

definition example_persistence :: string where
  "example_persistence =
    (let e = encode_state example_state; d = decode_state (case e of Inl _ \<Rightarrow> [] | Inr b \<Rightarrow> b) in
     ''[persistence] round-trip ok='' @ fmt_bool (\<not> isl e) @ ''/'' @ fmt_bool (\<not> isl d))"

definition fg_examples_main :: "(string list \<times> int) option res" where
  "fg_examples_main =
    chain example_basic (\<lambda>l1. chain example_workload (\<lambda>l2. chain example_deficit (\<lambda>l3. chain example_release (\<lambda>r.
    case r of
      None \<Rightarrow> Inr None
    | Some l4 \<Rightarrow> chain example_topology (\<lambda>l5. chain example_temporal (\<lambda>l6.
        Inr (Some ([l1, l2, l3, l4, l5, l6, example_persistence, '''', ''EXAMPLES COMPLETE''], 0))))))))"

section \<open>The downstream consumer\<close>

definition consumer_main :: "run" where
  "consumer_main =
    (let r = (example_resource (2048 * MIB))\<lparr>res_generation := Generation 1\<rparr>; d = uniform_demand (512 * MIB) in
     chain (insert_each (four_blocks 1 10 MV_IMMOVABLE) (mk_layout (res_capacity r))) (\<lambda>lay.
     chain (compute_metrics lay (Some d)) (\<lambda>m.
     chain (analyze_fit (mksnap r lay) d) (\<lambda>fit.
     let deterministic = (fr_outcome fit = FO_NO_FIT_FRAGMENTATION \<or> fr_outcome fit = FO_NO_FIT_PROTECTED_STATE \<or> fr_outcome fit = FO_FIT_NOW) in
     Inr ([''downstream: free='' @ fmt_mib (met_free_capacity m) @ ''MiB largest='' @ fmt_mib (met_largest_free_block m) @ ''MiB fit='' @
             fit_outcome_to_string (fr_outcome fit),
           ''downstream result: '' @ (if deterministic then ''DETERMINISTIC_RESULT'' else ''NON_DETERMINISTIC'')],
          if deterministic then 0 else 1)))))"

section \<open>The benchmark\<close>

definition bench_blocks :: "(nat \<Rightarrow> Movability) \<Rightarrow> nat \<Rightarrow> Allocation list" where
  "bench_blocks mov n =
    map (\<lambda>i. derived_allocation (of_nat (i + 1)) 1 (of_nat (i + 1)) (of_nat i * (8 * MIB)) (8 * MIB) (mov i)) [0 ..< n]"

definition bench_movability :: "nat \<Rightarrow> Movability" where
  "bench_movability i = (if i mod 3 = 0 then MV_IMMOVABLE else MV_MOVABLE_AFTER_CHECKPOINT)"

definition bench_demand :: WorkloadDemand where
  "bench_demand = default_demand\<lparr>dem_accelerator_count := 1, dem_per_device_memory := 64 * MIB, dem_aggregate_memory := 64 * MIB,
     dem_contiguous_memory := 64 * MIB\<rparr>"

definition bench_state :: "nat \<Rightarrow> PersistedState" where
  "bench_state n = default_persisted_state\<lparr>ps_resource_generation := Generation 1, ps_allocation_generation := Generation 1,
     ps_reservation_generation := Generation 1, ps_policy_generation := Generation 1, ps_epoch := Generation 1,
     ps_next_plan_id := of_nat (n + 1)\<rparr>"

definition bench_message :: "nat \<Rightarrow> Message" where
  "bench_message n = default_message\<lparr>msg_type := MT_PUBLISH_LAYOUT, msg_worker_id := 1, msg_worker_boot := 1, msg_epoch := 1,
     msg_resource := default_resource\<lparr>res_id := TypedId 1\<rparr>, msg_resource_gen := 1,
     msg_allocations := bench_blocks (\<lambda>_. MV_MOVABLE_AFTER_CHECKPOINT) n\<rparr>"

definition bench :: "(nat \<Rightarrow> string) \<Rightarrow> nat \<Rightarrow> string list option res" where
  "bench ms n =
    (let cap = of_nat n * (8 * MIB) + 1024 * MIB in
     chain (insert_each (bench_blocks bench_movability n) (mk_layout cap)) (\<lambda>lay.
     chain (compute_metrics lay (Some bench_demand)) (\<lambda>m.
     let s = mksnap (example_resource cap) lay in
     chain (analyze_fit s bench_demand) (\<lambda>fit.
     chain (plan_remediation s bench_demand (default_policy\<lparr>pol_generation := Generation 1\<rparr>) default_weights (TypedId 1) (Generation 1)) (\<lambda>plan.
     let enc = encode_state (bench_state n) in
     chain (frame_decode (frame_encode (bench_message n))) (\<lambda>fdec.
     Inr (case fdec of
         None \<Rightarrow> None
       | Some dm \<Rightarrow> Some ['''', ''==== scale n='' @ decimal n @ '' ===='',
           ''  layout ingest  : '' @ ms 0 @ '' ms  ('' @ decimal n @ '' inserts)'',
           ''  metrics        : '' @ ms 1 @ '' ms  largest='' @ fmt_mib (met_largest_free_block m) @ ''MiB free='' @ fmt_mib (met_free_capacity m) @ ''MiB'',
           ''  largest-block  : '' @ ms 2 @ '' ms'',
           ''  workload-fit   : '' @ ms 3 @ '' ms  outcome='' @ fit_outcome_to_string (fr_outcome fit),
           ''  plan-rank      : '' @ ms 4 @ '' ms  plan='' @ fmt_bool (plan \<noteq> None),
           ''  persistence   : '' @ ms 5 @ '' ms  ('' @ decimal (case enc of Inl _ \<Rightarrow> 0 | Inr bs \<Rightarrow> length bs) @ '' bytes, ok='' @ fmt_bool (\<not> isl enc) @ '')'',
           ''  protocol      : '' @ ms 6 @ '' ms  encode+decode('' @ decimal (length (msg_allocations dm)) @ '')''])))))))"

section \<open>Layouts with one gap\<close>

text \<open>When the allocations fill the space below some offset, what is free is one block.\<close>

lemma packed_layout:
  assumes place: "placeable (unat cap) as" and low: "\<forall>a \<in> set as. unat (al_offset a) + unat (al_length a) \<le> k"
    and full: "sum_list (map (\<lambda>a. unat (al_length a)) as) = k" and k: "k \<le> unat cap"
  obtains l where "insert_each as (mk_layout cap) = Inr l" "layout_inv l" "lay_capacity l = cap" "set (lay_allocations l) = registry as"
    "unat (free_capacity l) = unat cap - k" "largest_free_block l = free_capacity l"
    "\<And>n. n \<le> unat cap - k \<Longrightarrow> {k ..< k + n} \<subseteq> free_bytes l"
proof -
  obtain l where l: "insert_each as (mk_layout cap) = Inr l" "layout_inv l" "lay_capacity l = cap" "set (lay_allocations l) = registry as"
    by (rule build_layout [OF place])
  have free: "unat (free_capacity l) = unat cap - k"
    using built_free_capacity [OF l(2) _ l(4)] place full l(3) by simp
  have gap: "{k ..< k + n} \<subseteq> free_bytes l" if "n \<le> unat cap - k" for n
    using low that k unfolding built_bytes(1) [OF l(4)] l(3) by (fastforce simp: alloc_bytes_def)
  then have "unat cap - k \<le> unat (largest_free_block l)"
    unfolding longest_run_iff [OF l(2), symmetric] by blast
  then have "largest_free_block l = free_capacity l"
    using largest_le_free [OF l(2)] free by (simp add: word_le_nat_alt word_unat_eq_iff)
  with l free gap show thesis by (intro that)
qed

lemma mksnap_fields [simp]:
  "snap_devices (mksnap r l) = [\<lparr>dev_resource = r, dev_layout = l\<rparr>]" "snap_reservations (mksnap r l) = []"
  "generations_complete (snap_generations (mksnap r l))" "snap_provenance (mksnap r l) \<noteq> PV_UNKNOWN"
  by (simp_all add: mksnap_def default_snapshot_def generations_complete_def gen_is_valid_def)

lemma single_fit_now:
  assumes "snap_devices sn = [dv]" "layout_inv (dev_layout dv)" "snap_reservations sn = []"
    "generations_complete (snap_generations sn)" "snap_provenance sn \<noteq> PV_UNKNOWN" and "b \<le> free_capacity (dev_layout dv)"
    and run: "\<exists>s. {s ..< s + unat b} \<subseteq> free_bytes (dev_layout dv)"
  shows "\<exists>r. analyze_fit sn (uniform_demand b) = Inr r \<and> fr_outcome r = FO_FIT_NOW"
  by (rule single_fit [OF assms(1-6)]) (auto simp only: if_P [OF run])

section \<open>The benchmark is defined up to 100000 blocks\<close>

lemma bench_sizes:
  assumes "n \<le> 100000"
  shows "unat (of_nat n * (8 * MIB) :: u64) = n * 0x800000" "unat (of_nat n * (8 * MIB) + 1024 * MIB :: u64) = n * 0x800000 + 0x40000000"
    "unat (of_nat (n + 1) :: u64) = n + 1"
proof -
  have "unat (of_nat n :: u64) = n" using assms by (simp add: unsigned_of_nat take_bit_nat_eq_self)
  then show *: "unat (of_nat n * (8 * MIB) :: u64) = n * 0x800000"
    using assms by (simp add: MIB_def unat_word_ariths)
  show "unat (of_nat n * (8 * MIB) + 1024 * MIB :: u64) = n * 0x800000 + 0x40000000"
    using assms * by (simp add: MIB_def unat_word_ariths)
  show "unat (of_nat (n + 1) :: u64) = n + 1" using assms by (simp add: unsigned_of_nat take_bit_nat_eq_self del: of_nat_add of_nat_Suc)
qed

lemma bench_blocks_fields:
  assumes "i < n" "n \<le> 100000"
  shows "unat (al_offset (bench_blocks mov n ! i)) = i * 0x800000" "unat (al_length (bench_blocks mov n ! i)) = 0x800000"
    "id_value (al_id (bench_blocks mov n ! i)) = of_nat (i + 1)"
  using assms bench_sizes(1) [of i] by (simp_all add: bench_blocks_def derived_allocation_def MIB_def del: of_nat_add)

lemma bench_blocks_length [simp]: "length (bench_blocks mov n) = n"
  by (simp add: bench_blocks_def)

lemma bench_placeable:
  assumes n: "n \<le> 100000"
  shows "placeable (n * 0x800000 + 0x40000000) (bench_blocks mov n)"
proof -
  have "apart (bench_blocks mov n ! i) (bench_blocks mov n ! j)" if ij: "i < j" "j < n" for i j
  proof -
    have "id_value (al_id (bench_blocks mov n ! i)) \<noteq> id_value (al_id (bench_blocks mov n ! j))"
      using ij n bench_sizes(3) [of i] bench_sizes(3) [of j] bench_blocks_fields(3) [of i n mov] bench_blocks_fields(3) [of j n mov]
      by (metis Suc_eq_plus1 le_trans less_imp_le less_trans nat.inject nat_neq_iff)
    then have "al_id (bench_blocks mov n ! i) \<noteq> al_id (bench_blocks mov n ! j)" by metis
    moreover have "i * 0x800000 + 0x800000 \<le> j * 0x800000" using ij by simp
    ultimately show ?thesis using ij n by (simp add: apart_def bench_blocks_fields)
  qed
  then show ?thesis
    using n by (auto simp: placeable_def sorted_wrt_iff_nth_less all_set_conv_all_nth bench_blocks_fields)
qed

lemma length_put_alloc: "al_reservation a = None \<Longrightarrow> al_workload a = None \<Longrightarrow> length (put_alloc a) = 45"
  by (simp add: put_alloc_def w_opt_def w_bool_def w_u64_def w_u8_def)

lemma bench_message_fits:
  assumes "n \<le> 100000"
  shows "payload_fits (bench_message n)" "msg_allocations (message_view (bench_message n)) = bench_blocks (\<lambda>_. MV_MOVABLE_AFTER_CHECKPOINT) n"
proof -
  let ?as = "bench_blocks (\<lambda>_. MV_MOVABLE_AFTER_CHECKPOINT) n"
  have "\<forall>a \<in> set ?as. length (put_alloc a) = 45" by (auto simp: bench_blocks_def derived_allocation_def length_put_alloc)
  then have "length (concat (map put_alloc ?as)) = 45 * length ?as"
    by (simp add: length_concat comp_def sum_list_triv cong: map_cong)
  then have "length (encode_payload (bench_message n)) \<le> 16777216"
    using assms by (simp add: encode_payload_def bench_message_def w_counted_def w_list_def default_message_def)
  then show "payload_fits (bench_message n)" using assms by (simp add: payload_fits_def message_fits_def bench_message_def default_message_def)
  show "msg_allocations (message_view (bench_message n)) = ?as" by (simp add: message_view_def bench_message_def)
qed

text \<open>The identity of a demand plays no role in whether it fits.\<close>

lemma bench_demand_uniform:
  "fit_spec sn bench_demand = fit_spec sn (uniform_demand 0x4000000)"
  "demand_fits free sn bench_demand \<longleftrightarrow> demand_fits free sn (uniform_demand 0x4000000)"
proof -
  let ?d = "uniform_demand 0x4000000"
  have field: "dem_topology_group bench_demand = None" "dem_reservation_duration bench_demand = None" "dem_per_device_memory bench_demand = 0x4000000"
    "dem_aggregate_memory bench_demand = 0x4000000" "needed_devices bench_demand = 1" "needed_devices ?d = 1"
    by (simp_all add: bench_demand_def uniform_demand_def needed_devices_def default_demand_def MIB_def)
  have fits: "fits_in X bench_demand = fits_in X ?d" for X by (simp only: fits_in_def field uniform_demand_fields)
  have el: "eligible_devices sn bench_demand = eligible_devices sn ?d" by (simp only: eligible_devices_def field uniform_demand_fields)
  have "no_window sn bench_demand = no_window sn ?d" by (simp only: no_window_def field uniform_demand_fields)
  then show "fit_spec sn bench_demand = fit_spec sn ?d"
    by (simp only: fit_spec_def free_total_def capable_def el fits field uniform_demand_fields)
  show "demand_fits free sn bench_demand \<longleftrightarrow> demand_fits free sn ?d"
    by (simp only: demand_fits_def fits field uniform_demand_fields)
qed

text \<open>
  With up to 100000 blocks, the limit of the protocol, each call of the benchmark succeeds: the blocks leave
  a free gap of 1 GiB, so the demand fits now and there is no plan, and all blocks survive the wire.
\<close>

lemma bench_defined:
  assumes n: "n \<le> 100000"
  shows "\<exists>size. bench ms n = Inr (Some ['''', ''==== scale n='' @ decimal n @ '' ===='',
    ''  layout ingest  : '' @ ms 0 @ '' ms  ('' @ decimal n @ '' inserts)'',
    ''  metrics        : '' @ ms 1 @ '' ms  largest=1024MiB free=1024MiB'', ''  largest-block  : '' @ ms 2 @ '' ms'',
    ''  workload-fit   : '' @ ms 3 @ '' ms  outcome=FIT_NOW'', ''  plan-rank      : '' @ ms 4 @ '' ms  plan=0'',
    ''  persistence   : '' @ ms 5 @ '' ms  ('' @ decimal size @ '' bytes, ok=1)'',
    ''  protocol      : '' @ ms 6 @ '' ms  encode+decode('' @ decimal n @ '')''])"
proof -
  let ?cap = "of_nat n * (8 * MIB) + 1024 * MIB :: u64" and ?as = "bench_blocks bench_movability n" and ?d = "uniform_demand 0x4000000"
  have cap: "unat ?cap = n * 0x800000 + 0x40000000" by (rule bench_sizes(2) [OF n])
  have "sum_list (map (\<lambda>a. unat (al_length a)) ?as) = n * 0x800000"
    by (simp add: bench_blocks_def derived_allocation_def MIB_def comp_def sum_list_triv)
  moreover have "\<forall>a \<in> set ?as. unat (al_offset a) + unat (al_length a) \<le> n * 0x800000"
    using n by (auto simp: all_set_conv_all_nth bench_blocks_fields)
  ultimately obtain l where l: "insert_each ?as (mk_layout ?cap) = Inr l" "layout_inv l" "lay_capacity l = ?cap" "set (lay_allocations l) = registry ?as"
    "unat (free_capacity l) = unat ?cap - n * 0x800000" "largest_free_block l = free_capacity l"
    "\<And>k. k \<le> unat ?cap - n * 0x800000 \<Longrightarrow> {n * 0x800000 ..< n * 0x800000 + k} \<subseteq> free_bytes l"
    using packed_layout [of ?cap ?as "n * 0x800000"] bench_placeable [OF n, of bench_movability] cap by auto
  have free: "free_capacity l = 0x40000000" using l(5) cap by (simp add: word_unat_eq_iff)
  obtain m where m: "compute_metrics l (Some bench_demand) = Inr m" "met_free_capacity m = free_capacity l" "met_largest_free_block m = largest_free_block l"
    by (rule workload_metrics [OF l(2)])
  let ?sn = "mksnap (example_resource ?cap) l"
  have "{n * 0x800000 ..< n * 0x800000 + unat (0x4000000 :: u64)} \<subseteq> free_bytes l" using l(7) [of "unat (0x4000000 :: u64)"] cap by simp
  then have run: "\<exists>s. {s ..< s + unat (0x4000000 :: u64)} \<subseteq> free_bytes l" by (rule exI)
  have ok: "snapshot_ok ?sn" using l(2) unat_u64_less [of "lay_capacity l"] by (simp add: snapshot_ok_def devices_ok_def reservations_within_def)
  have "\<exists>r. analyze_fit ?sn ?d = Inr r \<and> fr_outcome r = FO_FIT_NOW"
    by (rule single_fit_now [OF mksnap_fields(1) _ mksnap_fields(2-4)]) (unfold DeviceState.select_convs free, rule l(2), simp, rule run)
  then have "fit_spec ?sn ?d = FO_FIT_NOW" using analyze_fit_spec [OF ok, of ?d] by auto
  then obtain fit where fit: "analyze_fit ?sn bench_demand = Inr fit" "fr_outcome fit = FO_FIT_NOW"
    using analyze_fit_spec [OF ok, of bench_demand] bench_demand_uniform(1) by auto
  have "length (lay_allocations l) = n" using built_length [OF l(2) _ l(4)] bench_placeable [OF n, of bench_movability] by simp
  then have "planner_input_ok ?sn default_weights" using n l(2) by (intro single_planner_input [OF mksnap_fields(1)]) simp_all
  moreover have "demand_fits free_bytes ?sn bench_demand"
    unfolding bench_demand_uniform(2) single_demand_fits [OF mksnap_fields(1), where free = free_bytes, unfolded DeviceState.select_convs, OF finite_free(1)] by (rule run)
  ultimately have plan: "plan_remediation ?sn bench_demand (default_policy\<lparr>pol_generation := Generation 1\<rparr>) default_weights (TypedId 1) (Generation 1) = Inr None"
    using planner_total by (metis (no_types, lifting))
  obtain bs where enc: "encode_state (bench_state n) = Inr bs"
    using encode_state_ok [of "bench_state n"] by (auto simp: bench_state_def default_persisted_state_def)
  have fdec: "frame_decode (frame_encode (bench_message n)) = Inr (Some (message_view (bench_message n)))"
    by (rule frame_decode_encode [OF bench_message_fits(1) [OF n]])
  have mib: "fmt_mib 0x40000000 = ''1024''" by code_simp
  show ?thesis
    unfolding bench_def Let_def l(1) m(1) fit(1) plan enc fdec chain_simps
    by (rule exI [of _ "length bs"]) (simp add: m(2,3) l(6) free mib fit(2) bench_message_fits(2) [OF n] fmt_bool_def del: decimal.simps)
qed

section \<open>The consumer and the examples\<close>

lemma four_blocks_comb:
  "comb (four_blocks i owner mov)" "\<forall>a \<in> set (four_blocks i owner mov). al_movability a = mov \<and> al_reservation a = None \<and>
     \<not> al_policy_protected a \<and> al_length a = 0x10000000" "four_blocks i owner mov \<noteq> []"
  by (simp_all add: four_blocks_def comb_def derived_allocation_def MIB_def)

lemma comb_layout:
  assumes comb: "comb as"
  obtains l where "insert_each as (mk_layout 0x80000000) = Inr l" "layout_inv l" "set (lay_allocations l) = registry as" "lay_capacity l = 0x80000000"
    "free_capacity l = 0x40000000" "largest_free_block l = 0x10000000" "length (lay_allocations l) = 4"
proof -
  obtain l where l: "insert_each as (mk_layout 0x80000000) = Inr l" "layout_inv l" "lay_capacity l = 0x80000000" "set (lay_allocations l) = registry as"
    using build_layout [of "0x80000000" as] comb_placeable [OF comb] by auto
  have "unat (free_capacity l) = unat (0x40000000 :: u64)"
    using built_free_capacity [OF l(2) _ l(4)] comb_placeable [OF comb] comb l(3) by (elim combE) simp
  then have "free_capacity l = 0x40000000" by (simp only: word_unat_eq_iff)
  moreover have "0x20000000 \<le> unat (al_offset (last as))" using comb by (elim combE) simp
  then have "largest_free_block l = 0x10000000" by (intro comb_largest [OF l(2-4) comb order_refl]) auto
  moreover have "length (lay_allocations l) = 4" using built_length [OF l(2) comb_placeable [OF comb] l(4)] comb by (elim combE) simp
  ultimately show thesis using l by (intro that)
qed

lemma consumer_result:
  "consumer_main = Inr ([''downstream: free=1024MiB largest=256MiB fit=NO_FIT_PROTECTED_STATE'', ''downstream result: DETERMINISTIC_RESULT''], 0)"
proof -
  let ?as = "four_blocks 1 10 MV_IMMOVABLE" and ?r = "(example_resource (2048 * MIB))\<lparr>res_generation := Generation 1\<rparr>"
  have size: "2048 * MIB = 0x80000000" "512 * MIB = 0x20000000" by (simp_all add: MIB_def)
  obtain l where l: "insert_each ?as (mk_layout 0x80000000) = Inr l" "layout_inv l" "set (lay_allocations l) = registry ?as" "lay_capacity l = 0x80000000"
    "free_capacity l = 0x40000000" "largest_free_block l = 0x10000000" by (rule comb_layout [OF four_blocks_comb(1)])
  have prot: "{a \<in> set ?as. is_protected a} = set ?as" using four_blocks_comb(2) [of 1 10 MV_IMMOVABLE] by (auto simp: is_protected_def)
  note bytes = built_bytes [OF l(3), unfolded l(4) prot]
  have none: "\<not> (\<exists>s. {s ..< s + unat (0x20000000 :: u64)} \<subseteq> free_bytes l)" "\<not> (\<exists>s. {s ..< s + unat (0x20000000 :: u64)} \<subseteq> reclaim_free_bytes l)"
    using comb_no_run [OF four_blocks_comb(1) order_refl, of "0x20000000"] by (simp_all add: bytes)
  have all: "\<forall>e \<in> set (lay_allocations l). is_protected (snd e)" using prot by (auto simp: l(3) registry_def)
  obtain fit where fit: "analyze_fit (mksnap ?r l) (uniform_demand 0x20000000) = Inr fit" "fr_outcome fit = FO_NO_FIT_PROTECTED_STATE"
    by (rule single_fit [OF mksnap_fields(1) [of ?r l] _ mksnap_fields(2-4), where b = "0x20000000", unfolded DeviceState.select_convs if_not_P [OF none(1)]
        if_not_P [OF none(2)] if_P [OF all] l(5)]) (rule l(2), simp, rule that)
  obtain m where m: "compute_metrics l (Some (uniform_demand 0x20000000)) = Inr m" "met_free_capacity m = free_capacity l"
    "met_largest_free_block m = largest_free_block l" by (rule workload_metrics [OF l(2)])
  have mib: "fmt_mib 0x40000000 = ''1024''" "fmt_mib 0x10000000 = ''256''" by code_simp+
  have cap: "res_capacity ?r = 0x80000000" by (simp add: example_resource_def size)
  show ?thesis
    unfolding consumer_main_def Let_def cap unfolding size l(1) chain_simps m(1) unfolding size [symmetric] unfolding size(2) fit(1) chain_simps
    by (simp add: fit(2) m(2,3) l(5,6) mib)
qed

lemma persistence_result: "example_persistence = ''[persistence] round-trip ok=1/1''"
proof -
  have unit: "unit_double (d_lit (9 / 10))" "unit_double (d_lit (1 / 10))" "unit_double (d_lit (5 / 100))"
    by (simp_all add: unit_double_lit_range)
  then have fin: "scores_finite pp" if "pp \<in> set (ps_plans example_state)" for pp
    using that by (simp add: example_state_def scores_finite_def unit_double_def)
  have enc: "encode_state example_state = Inr (encode_bytes example_state)"
    unfolding encode_state_ok using fin by (auto simp: example_state_def default_persisted_state_def)
  have "state_valid example_state" "counts_ok example_state"
    using fin by (auto simp: state_valid_def counts_ok_def example_state_def default_persisted_state_def)
  then have "decode_state (encode_bytes example_state) = Inr (recovered_state example_state)" by (intro decode_encode_bytes)
  with enc show ?thesis by (simp add: example_persistence_def fmt_bool_def)
qed

lemma release_plan:
  obtains lay p where "insert_each (four_blocks 300 30 MV_RELEASEABLE) (mk_layout (2048 * MIB)) = Inr lay"
    "plan_remediation (mksnap (example_resource (2048 * MIB)) lay) (uniform_demand (512 * MIB))
        (default_policy\<lparr>pol_generation := Generation 1\<rparr>) default_weights (TypedId 1) (Generation 1) = Inr (Some p)"
    "\<forall>act \<in> set (plan_actions p). act_kind act = AK_RELEASE_UNUSED \<and> act_expected_capacity_recovered act = 0x10000000"
    "plan_actions p \<noteq> []"
proof -
  let ?as = "four_blocks 300 30 MV_RELEASEABLE"
  have size: "2048 * MIB = 0x80000000" "512 * MIB = 0x20000000" by (simp_all add: MIB_def)
  obtain l where l: "insert_each ?as (mk_layout 0x80000000) = Inr l" "layout_inv l" "set (lay_allocations l) = registry ?as" "lay_capacity l = 0x80000000"
    "length (lay_allocations l) = 4" by (rule comb_layout [OF four_blocks_comb(1)])
  let ?sn = "mksnap (example_resource (2048 * MIB)) l" and ?d = "uniform_demand 0x20000000"
  have prot: "{a \<in> set ?as. is_protected a} = {}" using four_blocks_comb(2) [of 300 30 MV_RELEASEABLE] by (auto simp: is_protected_def)
  note bytes = built_bytes [OF l(3), unfolded l(4) prot]
  have "{0 ..< 0 + unat (0x20000000 :: u64)} \<subseteq> reclaim_free_bytes l" unfolding bytes(2) by auto
  then have run: "\<exists>s. {s ..< s + unat (0x20000000 :: u64)} \<subseteq> reclaim_free_bytes l" by (rule exI)
  have none: "\<not> (\<exists>s. {s ..< s + unat (0x20000000 :: u64)} \<subseteq> free_bytes l)"
    using comb_no_run [OF four_blocks_comb(1) order_refl, of "0x20000000"] by (simp add: bytes)
  note fits = single_demand_fits [OF mksnap_fields(1), unfolded DeviceState.select_convs]
  have input: "planner_input_ok ?sn default_weights" using l(2,5) by (intro single_planner_input [OF mksnap_fields(1)]) simp_all
  have short: "\<not> demand_fits free_bytes ?sn ?d" unfolding fits [OF finite_free(1)] by (rule none)
  moreover have "demand_fits reclaim_free_bytes ?sn ?d" unfolding fits [OF finite_free(2)] by (rule run)
  ultimately obtain p where p: "plan_remediation ?sn ?d (default_policy\<lparr>pol_generation := Generation 1\<rparr>) default_weights (TypedId 1) (Generation 1) = Inr (Some p)"
    using planner_total [OF input] by (metis option.exhaust)
  obtain ks where ks: "list_all2 (action_for ?sn) ks (plan_actions p)" "layouts_fit ?d (free_without (set ks) ?sn)"
    using plan_keys [OF input p] by blast
  have "plan_actions p \<noteq> []" using ks short by (auto simp: demand_fits_without)
  moreover have "act_kind act = AK_RELEASE_UNUSED \<and> act_expected_capacity_recovered act = 0x10000000" if act: "act \<in> set (plan_actions p)" for act
  proof -
    obtain k where "action_for ?sn k act" using ks(1) act by (metis in_set_conv_nth list_all2_conv_all_nth)
    then obtain i a where "om_find (lay_allocations l) i = Some a" "act_kind act = kind_for (al_movability a)" "act_expected_capacity_recovered act = al_length a"
      by (auto simp: action_for_def find_allocation_def)
    moreover have "a \<in> set ?as" using calculation(1) om_find_in_set [OF layout_inv_allocations [OF l(2)]] l(3) by (auto simp: registry_def)
    ultimately show ?thesis using four_blocks_comb(2) [of 300 30 MV_RELEASEABLE] by (simp add: kind_for_def)
  qed
  ultimately show thesis using l(1) p by (intro that) (auto simp: size)
qed

lemma deficit_layout:
  obtains l where "insert_each deficit_blocks (mk_layout (1024 * MIB)) = Inr l" "layout_inv l" "free_capacity l = 0x14400000"
    "largest_free_block l = 0x14400000"
proof -
  have blocks: "placeable (unat (1024 * MIB)) deficit_blocks" "\<forall>a \<in> set deficit_blocks. unat (al_offset a) + unat (al_length a) \<le> 0x2BC00000"
    "sum_list (map (\<lambda>a. unat (al_length a)) deficit_blocks) = 0x2BC00000" "unat (1024 * MIB) = 0x40000000"
    by (simp_all add: deficit_blocks_def placeable_def apart_def derived_allocation_def MIB_def)
  obtain l where l: "insert_each deficit_blocks (mk_layout (1024 * MIB)) = Inr l" "layout_inv l"
    "unat (free_capacity l) = unat (1024 * MIB) - 0x2BC00000" "largest_free_block l = free_capacity l"
    by (rule packed_layout [OF blocks(1-3)]) (use blocks(4) in simp_all)
  have "free_capacity l = 0x14400000" using l(3) blocks(4) by (simp add: word_unat_eq_iff)
  then show thesis using l that by simp
qed

text \<open>All examples run to their end; only the ratio and the number of actions are left open.\<close>

lemma examples_result:
  "\<exists>ratio k. 0 < k \<and> fg_examples_main = Inr (Some ([''[basic] free=1024MiB largest=256MiB demand=512MiB extRatio='' @ fmt_f4 ratio,
     ''[workload] largest=256MiB smallFits=1 bigFits=0'', ''[largest-block-deficit] free=324MiB largest=324MiB stranded=0MiB'',
     ''[release] plan actions='' @ decimal k @ '' kind=RELEASE_UNUSED recovery=256MiB'', ''[topology] outcome=NO_FIT_TOPOLOGY'',
     ''[temporal] continuous-500ns-window=1 earliest=0'', ''[persistence] round-trip ok=1/1'', '''', ''EXAMPLES COMPLETE''], 0))"
proof -
  have size: "2048 * MIB = 0x80000000" by (simp add: MIB_def)
  have mib: "fmt_mib 0x40000000 = ''1024''" "fmt_mib 0x10000000 = ''256''" "fmt_mib 0x14400000 = ''324''" "fmt_mib 0 = ''0''" by code_simp+
  obtain l1 where l1: "insert_each (four_blocks 100 10 MV_IMMOVABLE) (mk_layout (2048 * MIB)) = Inr l1" "layout_inv l1"
    "free_capacity l1 = 0x40000000" "largest_free_block l1 = 0x10000000" by (rule comb_layout [OF four_blocks_comb(1), folded size])
  obtain m1 where "compute_metrics l1 (Some (uniform_demand (512 * MIB))) = Inr m1" "met_free_capacity m1 = free_capacity l1"
    "met_largest_free_block m1 = largest_free_block l1" by (rule workload_metrics [OF l1(2)])
  then have basic: "example_basic = Inr (''[basic] free=1024MiB largest=256MiB demand=512MiB extRatio='' @ fmt_f4 (met_external_fragmentation_ratio m1))"
    unfolding example_basic_def l1(1) by (simp add: l1(3,4) mib)
  obtain l2 where l2: "insert_each (four_blocks 200 20 MV_IMMOVABLE) (mk_layout (2048 * MIB)) = Inr l2" "largest_free_block l2 = 0x10000000"
    by (rule comb_layout [OF four_blocks_comb(1), folded size])
  have workload: "example_workload = Inr ''[workload] largest=256MiB smallFits=1 bigFits=0''"
    unfolding example_workload_def l2(1) by (simp add: l2(2) mib fmt_bool_def MIB_def)
  obtain l3 where l3: "insert_each deficit_blocks (mk_layout (1024 * MIB)) = Inr l3" "layout_inv l3" "free_capacity l3 = 0x14400000"
    "largest_free_block l3 = 0x14400000" by (rule deficit_layout)
  obtain m3 where "compute_metrics l3 None = Inr m3" "layout_metrics l3 m3" by (rule layout_metrics_ok [OF l3(2)])
  then have deficit: "example_deficit = Inr ''[largest-block-deficit] free=324MiB largest=324MiB stranded=0MiB''"
    unfolding example_deficit_def l3(1) by (simp add: layout_metrics_def l3(3,4) mib)
  obtain l4 p where p: "insert_each (four_blocks 300 30 MV_RELEASEABLE) (mk_layout (2048 * MIB)) = Inr l4"
    "plan_remediation (mksnap (example_resource (2048 * MIB)) l4) (uniform_demand (512 * MIB))
        (default_policy\<lparr>pol_generation := Generation 1\<rparr>) default_weights (TypedId 1) (Generation 1) = Inr (Some p)"
    "\<forall>act \<in> set (plan_actions p). act_kind act = AK_RELEASE_UNUSED \<and> act_expected_capacity_recovered act = 0x10000000"
    "plan_actions p \<noteq> []" by (rule release_plan)
  have release: "example_release = Inr (Some (''[release] plan actions='' @ decimal (length (plan_actions p)) @ '' kind=RELEASE_UNUSED recovery=256MiB''))"
    unfolding example_release_def p(1) chain_simps p(2) using p(3,4) by (cases "plan_actions p") (simp_all add: mib del: decimal.simps)
  have topology: "example_topology = Inr ''[topology] outcome=NO_FIT_TOPOLOGY''" by code_simp
  have temporal: "example_temporal = Inr ''[temporal] continuous-500ns-window=1 earliest=0''" by code_simp
  have persistence: "example_persistence = ''[persistence] round-trip ok=1/1''" by (rule persistence_result)
  show ?thesis
    unfolding fg_examples_main_def basic workload deficit release topology temporal persistence
    by (rule exI [of _ "met_external_fragmentation_ratio m1"], rule exI [of _ "length (plan_actions p)"]) (simp add: p(4) del: decimal.simps)
qed

end
