(* ===== verification/Inspector.thy ===== *)
theory Inspector
  imports Evidence
begin

text \<open>
  What \<open>tools/fg_inspect.cpp\<close> prints: its metrics, its allocations in the order of their ids, and the
  answers of the oracle and of the planner, from the contracts of the parts it calls.
\<close>

section \<open>Metrics and allocations of a layout that was built\<close>

lemma workload_layout_metrics:
  assumes inv: "layout_inv l" and m: "compute_metrics l (Some d) = Inr m"
  shows "layout_metrics l m"
proof -
  obtain m0 where m0: "layout_metrics l m0" "compute_metrics l (Some d) = metrics_workload l d m0"
    using layout_metrics_ok [OF inv] by blast
  obtain l' where l': "simulate_reclaim (lay_allocations l) l = Inr (Some l')" "largest_free_block l \<le> largest_free_block l'"
    by (rule simulate_reclaim_ok [OF inv])
  have "met_free_capacity m0 = free_capacity l" "met_largest_free_block m0 = largest_free_block l" using m0(1) by (simp_all add: layout_metrics_def)
  from metrics_workload_eval [OF this l' refl refl] show ?thesis
    using m0 m largest_le_free [OF inv] by (auto simp: layout_metrics_def split: if_splits)
qed

lemma built_allocations:
  assumes "layout_inv l" and "set (lay_allocations l) = registry as" and "sorted_wrt (<) (map al_id as)"
  shows "lay_allocations l = map (\<lambda>a. (al_id a, a)) as"
  using assms layout_inv_allocations [OF assms(1)]
  by (intro keyed_sorted_unique) (auto simp: registry_def om_inv_def om_keys_def comp_def)

lemma inspect_split:
  "inspect_allocations = butlast inspect_allocations @ [last inspect_allocations]" "inspect_allocations \<noteq> []"
  "\<forall>a \<in> set (butlast inspect_allocations). is_protected a" "\<not> is_protected (last inspect_allocations)"
  by (simp_all add: inspect_allocations_def derived_allocation_def is_protected_def Let_def)

lemma inspect_blocks:
  "comb (butlast inspect_allocations)" "set (butlast inspect_allocations) \<subseteq> set inspect_allocations"
  "set inspect_allocations \<subseteq> insert (last inspect_allocations) (set (butlast inspect_allocations))"
  "0x20000000 \<le> unat (al_offset (last inspect_allocations))" "placeable 0x80000000 inspect_allocations"
  "{a \<in> set inspect_allocations. is_protected a} = set (butlast inspect_allocations)"
  "sorted_wrt (<) (map al_id inspect_allocations)"
  "sum_list (map (\<lambda>a. unat (al_length a)) inspect_allocations) = 0x44000000"
proof -
  have set: "set inspect_allocations = insert (last inspect_allocations) (set (butlast inspect_allocations))"
    using arg_cong [OF inspect_split(1), of set] by simp
  show "set (butlast inspect_allocations) \<subseteq> set inspect_allocations"
    "set inspect_allocations \<subseteq> insert (last inspect_allocations) (set (butlast inspect_allocations))"
    unfolding set by blast+
  show "{a \<in> set inspect_allocations. is_protected a} = set (butlast inspect_allocations)"
    unfolding set using inspect_split(3,4) by blast
  show "comb (butlast inspect_allocations)" "0x20000000 \<le> unat (al_offset (last inspect_allocations))" "placeable 0x80000000 inspect_allocations"
    "sorted_wrt (<) (map al_id inspect_allocations)" "sum_list (map (\<lambda>a. unat (al_length a)) inspect_allocations) = 0x44000000"
    by (simp_all add: inspect_allocations_def comb_def derived_allocation_def placeable_def apart_def Let_def MIB_def less_TypedId_def)
qed

text \<open>The output of the inspector, but for the ratio and the list of diagnostics.\<close>

lemma inspect_result:
  "\<exists>ratio diagnostics. fg_inspect_main = Inr ([''DOMAIN = CUDA_DEVICE_MEMORY'',
     ''generations: res=1 alloc=1 resv=1 topo=1 cap=1 policy=1 epoch=1'',
     ''total=2048MiB used=1088MiB free=960MiB largest=256MiB'', ''stranded=704MiB reclaimable=64MiB protected=1024MiB'',
     ''extern_frag_ratio='' @ fmt_f4 ratio @ '' workload_fits=0'', ''allocations:'',
     ''  id=1 off=0MiB len=256MiB mov=IMMOVABLE protected=0'', ''  id=2 off=512MiB len=256MiB mov=IMMOVABLE protected=0'',
     ''  id=3 off=1024MiB len=256MiB mov=IMMOVABLE protected=0'', ''  id=4 off=1536MiB len=256MiB mov=IMMOVABLE protected=0'',
     ''  id=5 off=768MiB len=64MiB mov=MOVABLE_AFTER_QUIESCE protected=0'', ''workload fit = NO_FIT_FRAGMENTATION''] @
     map (\<lambda>d. ''  blocker: '' @ d) diagnostics @ [''plan = none (no beneficial action)''], 0)"
proof -
  let ?as = inspect_allocations and ?d = "uniform_demand 0x20000000"
  have size: "res_capacity inspect_resource = 0x80000000" "512 * MIB = 0x20000000" by (simp_all add: inspect_resource_def MIB_def)
  obtain l where l: "insert_each ?as (mk_layout 0x80000000) = Inr l" "layout_inv l" "lay_capacity l = 0x80000000" "set (lay_allocations l) = registry ?as"
    using build_layout [of "0x80000000" ?as] inspect_blocks(5) by auto
  note entries = built_allocations [OF l(2,4) inspect_blocks(7)]
  have large: "largest_free_block l = 0x10000000" by (rule comb_largest [OF l(2-4) inspect_blocks(1-4)])
  have "unat (free_capacity l) = unat (0x3C000000 :: u64)"
    using built_free_capacity [OF l(2) _ l(4)] inspect_blocks(5,8) l(3) by simp
  then have free: "free_capacity l = 0x3C000000" by (simp only: word_unat_eq_iff)
  obtain m where m: "compute_metrics l (Some ?d) = Inr m" "met_workload_fits m \<longleftrightarrow> dem_aggregate_memory ?d \<le> free_capacity l \<and>
       (dem_contiguous_memory ?d > 0 \<longrightarrow> dem_contiguous_memory ?d \<le> largest_free_block l)"
    by (rule workload_metrics [OF l(2)])
  note lm = workload_layout_metrics [OF l(2) m(1), unfolded layout_metrics_def large free l(3)]
  have sums: "class_sum is_protected (lay_allocations l) = 0x40000000" "class_sum eligible_for_reclaim (lay_allocations l) = 0x4000000"
    by (simp_all add: entries inspect_allocations_def derived_allocation_def is_protected_def eligible_for_reclaim_def Let_def MIB_def)
  have "unat (met_protected_capacity m) = unat (0x40000000 :: u64)" "unat (met_reclaimable_capacity m) = unat (0x4000000 :: u64)"
    using lm sums by simp_all
  then have caps: "met_protected_capacity m = 0x40000000" "met_reclaimable_capacity m = 0x4000000" by (simp_all only: word_unat_eq_iff)
  have "lay_free_capacity l = 0x3C000000" using free by (simp add: free_capacity_def)
  with lm m(2) have fields: "met_total_capacity m = 0x80000000" "met_used_capacity m = 0x44000000" "met_free_capacity m = 0x3C000000"
    "met_largest_free_block m = 0x10000000" "met_stranded_capacity m = 0x2C000000" "\<not> met_workload_fits m"
    by (simp_all add: large)
  let ?sn = "inspect_snapshot l"
  have sn: "snap_devices ?sn = [\<lparr>dev_resource = inspect_resource, dev_layout = l\<rparr>]" "snap_reservations ?sn = []"
    "generations_complete (snap_generations ?sn)" "snap_provenance ?sn \<noteq> PV_UNKNOWN"
    by (simp_all add: inspect_snapshot_def default_snapshot_def generations_complete_def gen_is_valid_def)
  note bytes = built_bytes [OF l(4), unfolded l(3) inspect_blocks(6)]
  have none: "\<not> (\<exists>s. {s ..< s + unat (0x20000000 :: u64)} \<subseteq> free_bytes l)" "\<not> (\<exists>s. {s ..< s + unat (0x20000000 :: u64)} \<subseteq> reclaim_free_bytes l)"
    using comb_no_run [OF inspect_blocks(1) UN_mono [OF inspect_blocks(2) order_refl], of "0x20000000"]
      comb_no_run [OF inspect_blocks(1) order_refl, of "0x20000000"] by (simp_all add: bytes)
  have some: "\<not> (\<forall>e \<in> set (lay_allocations l). is_protected (snd e))"
    by (simp add: entries inspect_allocations_def derived_allocation_def is_protected_def Let_def)
  obtain fit where fit: "analyze_fit ?sn ?d = Inr fit" "fr_outcome fit = FO_NO_FIT_FRAGMENTATION"
    by (rule single_fit [OF sn(1) _ sn(2-4), where b = "0x20000000", unfolded DeviceState.select_convs if_not_P [OF none(1)]
        if_not_P [OF none(2)] if_not_P [OF some] free]) (rule l(2), simp, rule that)
  have "length (lay_allocations l) \<le> 2 ^ 46" by (simp add: entries inspect_allocations_def Let_def)
  then have "planner_input_ok ?sn default_weights" using l(2) by (intro single_planner_input [OF sn(1)]) simp_all
  moreover have "\<not> demand_fits reclaim_free_bytes ?sn ?d"
    unfolding single_demand_fits [OF sn(1), where free = reclaim_free_bytes, unfolded DeviceState.select_convs, OF finite_free(2)] by (rule none)
  ultimately have plan: "plan_remediation ?sn ?d (default_policy\<lparr>pol_generation := Generation 1\<rparr>) default_weights (TypedId 1) (Generation 1) = Inr None"
    using planner_total by (metis (no_types, lifting))
  have header: "inspect_header ?sn = [''DOMAIN = CUDA_DEVICE_MEMORY'', ''generations: res=1 alloc=1 resv=1 topo=1 cap=1 policy=1 epoch=1'']"
    unfolding inspect_header_def inspect_snapshot_def by code_simp
  have mib: "map fmt_mib [0x80000000, 0x44000000, 0x3C000000, 0x10000000, 0x2C000000, 0x4000000, 0x40000000] =
      [''2048'', ''1088'', ''960'', ''256'', ''704'', ''64'', ''1024'']" by code_simp
  have lines: "map inspect_allocation_line (map (\<lambda>a. (al_id a, a)) inspect_allocations) =
      [''  id=1 off=0MiB len=256MiB mov=IMMOVABLE protected=0'', ''  id=2 off=512MiB len=256MiB mov=IMMOVABLE protected=0'',
       ''  id=3 off=1024MiB len=256MiB mov=IMMOVABLE protected=0'', ''  id=4 off=1536MiB len=256MiB mov=IMMOVABLE protected=0'',
       ''  id=5 off=768MiB len=64MiB mov=MOVABLE_AFTER_QUIESCE protected=0'']" by code_simp
  show ?thesis
    unfolding fg_inspect_main_def Let_def size l(1) chain_simps m(1) fit(1) plan header entries lines
    by (rule exI [of _ "met_external_fragmentation_ratio m"], rule exI [of _ "fr_block_diagnostics fit"])
      (use mib in \<open>simp add: inspect_metrics_def inspect_plan_def fields caps fit(2) fmt_bool_def\<close>)
qed

end
