(* ===== verification/Spec2Isabelle.thy ===== *)
theory Spec2Isabelle
  imports Governance_Loop Durability Server_Lifecycle Cuda_Proof Scenario_F_Correct Examples Inspector
begin

text \<open>
  Verification of the Fragmentation Governor, a C++ library that measures the fragmentation of
  accelerator memory, decides whether a workload fits, plans which allocations to release, checks that a
  remediation helped, and runs this loop in a coordinator process that workers talk to over TCP.

  \<^bold>\<open>The program and how its parts interact.\<close>  A \<open>ResourceLayout\<close> (\<open>resource/layout.hpp\<close>) is the
  interval map of one device.  A \<open>FragmentationSnapshot\<close> holds one layout per device together with
  reservations and the generations of the evidence.  The metrics (\<open>metrics.cpp\<close>), the fit oracle
  (\<open>fit.cpp\<close>), the planner (\<open>planner.cpp\<close>) and the verification (\<open>verification.cpp\<close>) are
  functions of snapshots: the oracle calls the metrics and simulates releases on copies of the
  layouts, the planner repeats its own fit test after each simulated release, the verification calls
  the oracle on the snapshots before and after.  The coordinator (\<open>coordinator.cpp\<close>) files what
  registered workers publish, assembles snapshots from the live part of it, and drives plans through
  approval, execution and verification; it saves its durable part with the codec (\<open>codec.cpp\<close>) and
  recovers from it.  The server (\<open>tcp_transport.cpp\<close>) runs one thread per connection, each with a stream
  decoder of the framed protocol (\<open>protocol.cpp\<close>), all calling one coordinator under a mutex.

  \<^bold>\<open>Theories.\<close>
  \<^item> \<open>FG_Prelude\<close>: the exception monad (a C++ function that may throw \<open>ValueError\<close> returns
    \<open>exn + 'a\<close>), folds and maps in it, words and lists.
  \<^item> \<open>Core_Types\<close>: \<open>core/types.hpp\<close> and all enumerations with their codes and names.
  \<^item> \<open>Binary64\<close>, \<open>Binary64_Correct\<close>: \<open>double\<close> as its 64-bit pattern with IEEE rounding to
    nearest even; rounding is monotone and exact on representable values.
  \<^item> \<open>Units\<close>: \<open>core/units.hpp\<close>, the checked \<open>Bytes\<close>, \<open>Count\<close>, \<open>Duration\<close> and scores.
  \<^item> \<open>Ordered_Map\<close>: \<open>std::map\<close> and \<open>std::multiset\<close> as sorted lists, behind the locale
    \<open>ordered_store\<close> (interpretation \<open>std_map\<close>).
  \<^item> \<open>Layout\<close>: \<open>resource/layout.hpp\<close>, every operation with its private helpers.
    \<open>Layout_Correct\<close>: the class invariant \<open>layout_inv\<close> and that each operation keeps it and cannot
    throw.  \<open>Layout_Contract\<close>: the operations in terms of sets of bytes, the reachable layouts, and
    the locale \<open>reclaimable\<close> (interpretation \<open>device_layout\<close>), the contract through which the metrics,
    the oracle and the planner release allocations on a copy.
  \<^item> \<open>Domain_Model\<close>: the plain structs (resources, generations, demands, reservations, metrics,
    snapshots, policies, plans, results) with their default values.
  \<^item> \<open>Metrics\<close>: \<open>metrics.cpp\<close>; the accounting identities and the two ratios.
  \<^item> \<open>Fit\<close>, \<open>Fit_Correct\<close>: \<open>fit.cpp\<close>; the declarative \<open>fit_spec\<close> and its implementation.
  \<^item> \<open>Planner\<close>, \<open>Planner_Scores\<close>, \<open>Planner_Correct\<close>: \<open>planner.cpp\<close>; when there is a plan, what a
    plan releases, and that the binary64 scores never leave \<open>[0, 1]\<close>.
  \<^item> \<open>Verification\<close>: \<open>verification.cpp\<close>; the declarative \<open>verification_spec\<close>.
    \<open>Remediation_Loop\<close>: releasing what a plan names makes the verification report the target fit.
  \<^item> \<open>Wire\<close>: the byte writers and readers of both codecs; the locale \<open>wire_codec\<close> (a reader that undoes
    a writer, and what follows for optional values and lists), interpreted for each element codec.
    \<open>Checksum\<close>: CRC-32; the locale \<open>burst_check\<close> (interpretation \<open>crc_seal\<close>): a seal that no change of up
    to four consecutive bytes survives.
  \<^item> \<open>Codec\<close>, \<open>Codec_Correct\<close>: \<open>persistence/codec.cpp\<close> and \<open>state.hpp\<close>; the round trip, validation,
    corruption, and saving and loading on a file system.
  \<^item> \<open>Protocol\<close>, \<open>Protocol_Correct\<close>: \<open>protocol.cpp\<close>; the payload of each message, frames and the stream
    decoder under every chunking.
  \<^item> \<open>Coordinator\<close>: \<open>coordinator.cpp\<close>, the state record, one definition per message
    (\<open>handle_register\<close> to \<open>handle_save\<close>), the dispatcher \<open>handle\<close>, \<open>mark_worker_dead\<close>,
    \<open>assemble_snapshot\<close> and \<open>recover\<close>.  \<open>Coordinator_Correct\<close>: the invariant \<open>coord_inv\<close> and that each
    handler keeps it.
  \<^item> \<open>Transition_System\<close>: reachable states, the locales \<open>invariant_system\<close>, \<open>simulation\<close> and
    \<open>simulated_invariant\<close>.  \<open>Coordinator_System\<close>: the locales \<open>coordinator_handler\<close> and
    \<open>total_handler\<close>, interpreted for every handler, the step relation \<open>co_step\<close> and its invariant
    (interpretation \<open>coordinator\<close>).  \<open>Coordinator_Lifecycle\<close>: the guarded lifecycle of plans, stale
    evidence, queries.  \<open>Governance_Loop\<close>: the messages that execute a plan.
  \<^item> \<open>Durability\<close>: saving a coordinator and the start of \<open>tools/fg_coordinator.cpp\<close> on the file.
  \<^item> \<open>Transport\<close>, \<open>Transport_Correct\<close>: \<open>tcp_transport.cpp\<close>; sending, receiving, one connection as a
    refinement of direct calls, and the interleaved server \<open>srv_step\<close>, which simulates \<open>co_step\<close>
    (interpretation \<open>server\<close>).
  \<^item> \<open>Server_Lifecycle\<close>: the rest of \<open>tcp_transport.cpp\<close> (\<open>find_free_tcp_port\<close>, starting, serving and
    stopping the server) and \<open>tools/fg_coordinator.cpp\<close>; the locale \<open>commuting_effects\<close> (interpretation
    \<open>closing\<close>): the order in which the threads of the connections end does not change the result.
  \<^item> \<open>Evaluation\<close>: code equations for running the model on concrete inputs.  \<open>Tools\<close>, \<open>Inspector\<close>:
    \<open>tools/fg_inspect.cpp\<close> and what it prints.  \<open>Examples\<close>: \<open>examples/\<close>, \<open>packaging/consumer/\<close> and
    \<open>benchmarks/\<close>, with what they print.
  \<^item> \<open>Evidence\<close>: what a list of disjoint allocations makes of a device, whatever the order of insertion.
    \<open>Workers\<close>: \<open>tools/fg_worker.cpp\<close> as a script of messages and what the coordinator makes of it.
  \<^item> \<open>Kernel\<close>: the CUDA kernel thread by thread with binary32 addition; every schedule of the grid gives the
    vector the host computes.  \<open>Cuda_Runtime\<close>: the CUDA runtime as an argument and the monad of the
    programs that use it.  \<open>Cuda_Proof\<close>: \<open>cuda/fg_cuda_proof.cu\<close>; with a runtime whose memory works the
    program never stops for a reason of its own.
  \<^item> \<open>Cuda_Worker\<close>, \<open>Scenario_F\<close>, \<open>Scenario_F_Correct\<close>: \<open>cuda/fg_cuda_worker.cu\<close> and the orchestrator
    \<open>cuda/fg_cuda_scenario_f.cu\<close>, two incarnations of the worker against one coordinator; the scenario
    passes under every schedule in which the workers' messages arrive while the orchestrator polls.
  \<^item> this theory: properties that span the oracle, the planner, the verification and the coordinator.

  \<^bold>\<open>State and operations.\<close>  A struct is a record whose field names carry a short prefix, an
  \<open>enum class\<close> a datatype whose constructors carry one, a \<open>std::map\<close> the list of its entries in key
  order, a \<open>uint64_t\<close> a 64-bit word.  A member function that mutates its object returns the new
  object; a boolean result with an error out-parameter is a \<open>string option\<close> (\<open>None\<close> is \<open>true\<close>).  The
  system clock, the C library's files, the results of socket calls, the CUDA runtime with its device, the
  creation of processes, and the schedules of threads and of arriving messages are arguments of the
  definitions that use them.  An exception that leaves \<open>handle\<close> is the value \<open>Inl\<close>; nothing in the program catches it.

  \<^bold>\<open>Bounds.\<close>  No fuel is used: every loop is a fold or a structural recursion over its data or over the
  results of the system calls it makes; the polling loops of the orchestrator count down the attempts that
  the source allows them.  The hypotheses of the properties are \<open>layout_inv\<close>, which every
  reachable layout has; that the capacities of the devices of a snapshot, or of the live resources of a
  coordinator (\<open>capacity_ok\<close>), add up to less than \<open>2 ^ 64\<close> bytes, without which the checked sums throw;
  for the planner at most \<open>2 ^ 46\<close> releasable allocations, far more than fit in memory, which keeps
  the rounded averages of the scores below 1, and for the loop through the coordinator at most \<open>2 ^ 32\<close>,
  since a message names an action by a 32-bit index; for the codecs the limits their decoders enforce.
  A restart is a step of the coordinator only from a durable state whose finished plans carry their
  outcome, which the decoder does not check and which \<open>SAVE\<close> guarantees.

  \<^bold>\<open>Not modelled.\<close>  The start-up of Winsock, which has no state the program reads; the conversion of
  argument strings to numbers, left to the C library; the progress lines that the coordinator, the workers
  and the CUDA programs print on the standard output (the output of the inspector, the examples and the
  consumer is modelled, as are the reasons on the error output of the CUDA programs); the times the
  benchmark measures, which are an argument; \<open>std::hash\<close> and the stream operators of the typed
  identities, and the version header, on which no decision depends; the data race between accepting a
  connection and \<open>TcpServer::stop\<close>, for which C++ gives no meaning; the tests.
\<close>

section \<open>From the fit oracle to the planner\<close>

text \<open>
  C33: The oracle and the planner agree.  For a demand without a topology group, whenever the fit
  oracle answers \<open>FIT_AFTER_RECLAIM\<close> on a well-formed snapshot, the planner does produce a plan.
\<close>

theorem fit_after_reclaim_has_plan:
  assumes ok: "snapshot_ok sn" and input: "planner_input_ok sn w" and top: "dem_topology_group d = None"
    and fit: "analyze_fit sn d = Inr r" "fr_outcome r = FO_FIT_AFTER_RECLAIM"
  shows "\<exists>p. plan_remediation sn d pol w pid pg = Inr (Some p)"
proof -
  have "fit_spec sn d = FO_FIT_AFTER_RECLAIM" using analyze_fit_spec [OF ok, of d] fit by auto
  then have "\<not> demand_fits free_bytes sn d" "demand_fits reclaim_free_bytes sn d"
    using reclaim_fits [OF _ top] by simp_all
  then show ?thesis using planner_total [OF input, of d pol pid pg] by auto
qed

theorem fit_after_reclaim_has_plan_witness:
  "\<exists>p. plan_remediation sample_snapshot sample_demand default_policy default_weights (TypedId 9) (Generation 1) =
     Inr (Some p)"
proof -
  have "map_sum id fr_outcome (analyze_fit sample_snapshot sample_demand) = Inr FO_FIT_AFTER_RECLAIM" by code_simp
  then obtain r where "analyze_fit sample_snapshot sample_demand = Inr r" "fr_outcome r = FO_FIT_AFTER_RECLAIM"
    by (auto simp: map_sum_def split: sum.splits)
  then show ?thesis
    using fit_after_reclaim_has_plan [OF sample_snapshot_ok sample_planner_input]
    by (simp add: default_demand_def)
qed

section \<open>From the plan to its verification\<close>

text \<open>The state after the allocations of a plan have been released and nothing else has changed.\<close>

definition after_release :: "FragmentationSnapshot \<Rightarrow> alloc_key set \<Rightarrow> FragmentationSnapshot \<Rightarrow> bool" where
  "after_release before K after \<longleftrightarrow>
     (\<exists>ls. removed_from K (map dev_layout (snap_devices before)) ls \<and>
       after = before\<lparr>snap_devices := map (\<lambda>(d, l). d\<lparr>dev_layout := l\<rparr>) (zip (snap_devices before) ls)\<rparr>)"

lemma after_release_layouts:
  assumes "removed_from K (layouts_of before) ls"
    and "after = before\<lparr>snap_devices := map (\<lambda>(d, l). d\<lparr>dev_layout := l\<rparr>) (zip (snap_devices before) ls)\<rparr>"
  shows "layouts_of after = ls"
  using assms by (auto intro!: nth_equalityI simp: removed_from_def)



section \<open>The loop through the coordinator\<close>



end
